theory Spec2Isabelle
  imports Complex_Main
begin

section \<open>Data model: the tables of the schema\<close>

text \<open>
  Identifiers are UUIDs, timestamps are instants on a linear time line, \<^verbatim>\<open>DATE\<close>s are day
  numbers, and a \<^verbatim>\<open>DECIMAL(10,2)\<close> amount is counted in hundredths. A column without
  \<^verbatim>\<open>NOT NULL\<close> is an \<open>option\<close>: \<open>None\<close> is SQL's \<^verbatim>\<open>NULL\<close>. Values are taken after
  PostgreSQL's input conversion, so a text that is no UUID or a number that does not fit the
  column type never reaches a table.
\<close>

type_synonym uuid = nat
type_synonym timestamptz = int
type_synonym date = int
type_synonym money = int

datatype project_type = Client | Personal | Open_source

datatype project_status = Pending | In_progress | Completed | Delivered

datatype payment_status = Unpaid | Partial | Paid

text \<open>
  A row of \<^verbatim>\<open>auth.users\<close>, the authentication provider's table, as far as the schema reads
  it: \<^verbatim>\<open>email\<close> is nullable there (an identity can register without one), and
  \<^verbatim>\<open>raw_user_meta_data\<close> is a JSON object (or \<^verbatim>\<open>NULL\<close>) whose values are texts or JSON
  \<^verbatim>\<open>null\<close>.
\<close>

record auth_user =
  au_id :: uuid
  au_email :: "string option"
  au_raw_user_meta_data :: "(string \<times> string option) list option"

record profile =
  pf_id :: uuid
  pf_email :: string
  pf_full_name :: "string option"
  pf_avatar_url :: "string option"
  pf_created_at :: "timestamptz option"
  pf_updated_at :: "timestamptz option"

record project =
  pj_id :: uuid
  pj_user_id :: uuid
  pj_title :: string
  pj_description :: "string option"
  pj_type :: project_type
  pj_status :: project_status
  pj_payment_status :: payment_status
  pj_progress :: "int option"
  pj_budget :: "money option"
  pj_paid_amount :: "money option"
  pj_start_date :: "date option"
  pj_end_date :: "date option"
  pj_deadline :: "date option"
  pj_created_at :: "timestamptz option"
  pj_updated_at :: "timestamptz option"

record client =
  cl_id :: uuid
  cl_user_id :: uuid
  cl_name :: string
  cl_email :: "string option"
  cl_phone :: "string option"
  cl_company :: "string option"
  cl_notes :: "string option"
  cl_created_at :: "timestamptz option"
  cl_updated_at :: "timestamptz option"

record project_client =
  pc_id :: uuid
  pc_project_id :: uuid
  pc_client_id :: uuid
  pc_reference_note :: "string option"
  pc_created_at :: "timestamptz option"

record task =
  tk_id :: uuid
  tk_project_id :: uuid
  tk_title :: string
  tk_description :: "string option"
  tk_completed :: "bool option"
  tk_priority :: "int option"
  tk_due_date :: "date option"
  tk_created_at :: "timestamptz option"
  tk_updated_at :: "timestamptz option"

record timeline =
  tl_id :: uuid
  tl_project_id :: uuid
  tl_milestone :: string
  tl_description :: "string option"
  tl_completed :: "bool option"
  tl_completed_at :: "timestamptz option"
  tl_order_index :: int
  tl_created_at :: "timestamptz option"

record database =
  auth_users :: "auth_user list"
  profiles :: "profile list"
  projects :: "project list"
  clients :: "client list"
  project_clients :: "project_client list"
  tasks :: "task list"
  project_timeline :: "timeline list"

text \<open>The failures a statement can end with; a failed statement leaves the store as it was.\<close>

datatype constraint_kind = Not_null | Check | Unique | Foreign_key

datatype error =
    ConstraintViolation constraint_kind
  | RlsViolation
  | IntegerOutOfRange
  | NoSingleRow
  | NotAuthenticated
  | UpstreamUnavailable

section \<open>PostgreSQL numeric arithmetic used by the schema\<close>

text \<open>
  The schema's functions and views compute on PostgreSQL's \<^verbatim>\<open>numeric\<close> (\<^verbatim>\<open>DECIMAL\<close>)
  type: a decimal number with a display scale. A value is modelled by its unscaled integer
  and its scale: \<open>Numeric u d\<close> stands for \<open>u / 10 ^ d\<close>.
\<close>

datatype numeric = Numeric (unscaled: int) (dscale: nat)


text \<open>
  Division of two integers cast to \<^verbatim>\<open>DECIMAL\<close>. PostgreSQL picks the result scale from
  the base-10000 weights and leading digits of the operands so that the quotient has at least
  16 significant digits (\<^verbatim>\<open>select_div_scale\<close>: \<^verbatim>\<open>NUMERIC_MIN_SIG_DIGITS = 16\<close>,
  \<^verbatim>\<open>DEC_DIGITS = 4\<close>, scale capped at 1000), and rounds the quotient to that scale, half
  away from zero.
\<close>

fun weight :: "nat \<Rightarrow> nat" where
  "weight n = (if n < 10000 then 0 else Suc (weight (n div 10000)))"

fun firstdigit :: "nat \<Rightarrow> nat" where
  "firstdigit n = (if n < 10000 then n else firstdigit (n div 10000))"

definition select_div_scale :: "int \<Rightarrow> int \<Rightarrow> nat" where
  "select_div_scale a b =
     (let qweight = int (weight (nat \<bar>a\<bar>)) - int (weight (nat \<bar>b\<bar>))
                    - (if firstdigit (nat \<bar>a\<bar>) \<le> firstdigit (nat \<bar>b\<bar>) then 1 else 0);
          rscale = 16 - qweight * 4
      in nat (min (max rscale 0) 1000))"

definition round_div :: "int \<Rightarrow> int \<Rightarrow> int" where
  \<comment> \<open>the quotient of \<open>a\<close> by \<open>b \<noteq> 0\<close> rounded to an integer, half away from zero\<close>
  "round_div a b = sgn a * sgn b * ((2 * \<bar>a\<bar> + \<bar>b\<bar>) div (2 * \<bar>b\<bar>))"

definition numeric_div_int :: "int \<Rightarrow> int \<Rightarrow> numeric" where
  \<comment> \<open>\<^verbatim>\<open>a::DECIMAL / b::DECIMAL\<close> for \<open>b \<noteq> 0\<close>\<close>
  "numeric_div_int a b =
     (let rscale = select_div_scale a b in Numeric (round_div (a * 10 ^ rscale) b) rscale)"

definition numeric_mul_int :: "numeric \<Rightarrow> int \<Rightarrow> numeric" where
  \<comment> \<open>\<^verbatim>\<open>x * n\<close> for an integer \<open>n\<close>: exact, the scale is that of \<open>x\<close>\<close>
  "numeric_mul_int x n = Numeric (unscaled x * n) (dscale x)"

definition numeric_round :: "numeric \<Rightarrow> int" where
  \<comment> \<open>\<^verbatim>\<open>ROUND(x)\<close>: to zero decimal places, half away from zero\<close>
  "numeric_round x = round_div (unscaled x) (10 ^ dscale x)"

section \<open>Derived progress: \<^verbatim>\<open>calculate_project_progress\<close>\<close>

text \<open>
  The function reads the \<^verbatim>\<open>tasks\<close> table as its invoker sees it (\<open>tasks_tbl\<close>). Both
  counts are stored into \<^verbatim>\<open>INTEGER\<close> variables, which raises when the count exceeds
  \<open>2\<^sup>3\<^sup>1 - 1\<close>; \<^verbatim>\<open>completed = TRUE\<close> does not hold for a \<^verbatim>\<open>NULL\<close> flag.
\<close>

definition int4_max :: int where
  "int4_max = 2147483647"

definition calculate_project_progress :: "task list \<Rightarrow> uuid \<Rightarrow> error + int" where
  "calculate_project_progress tasks_tbl project_uuid =
     (let total_tasks = int (length (filter (\<lambda>t. tk_project_id t = project_uuid) tasks_tbl))
      in if total_tasks > int4_max then Inl IntegerOutOfRange
         else if total_tasks = 0 then Inr 0
         else
           let completed_tasks =
                 int (length (filter (\<lambda>t. tk_project_id t = project_uuid \<and> tk_completed t = Some True)
                                tasks_tbl));
               progress_percentage =
                 numeric_round (numeric_mul_int (numeric_div_int completed_tasks total_tasks) 100)
           in Inr progress_percentage)"

text \<open>
  The specification's wording of the same function: zero without tasks, otherwise
  \<open>100 * completed / total\<close> rounded half up.
\<close>

definition computeProgress_spec :: "nat \<Rightarrow> nat \<Rightarrow> int" where
  "computeProgress_spec completed_count total_count =
     (if total_count = 0 then 0
      else \<lfloor>100 * (of_nat completed_count / of_nat total_count :: rat) + 1 / 2\<rfloor>)"

text \<open>The task set of a project, and the tasks of it that are done.\<close>

definition project_tasks :: "task list \<Rightarrow> uuid \<Rightarrow> task list" where
  "project_tasks tasks_tbl pid = filter (\<lambda>t. tk_project_id t = pid) tasks_tbl"

definition completed_tasks_of :: "task list \<Rightarrow> uuid \<Rightarrow> task list" where
  "completed_tasks_of tasks_tbl pid = filter (\<lambda>t. tk_completed t = Some True) (project_tasks tasks_tbl pid)"

section \<open>Deletion and its cascades\<close>

text \<open>
  Every foreign key of the schema is declared \<^verbatim>\<open>ON DELETE CASCADE\<close>: deleting rows deletes
  the rows of the child tables that reference a deleted key, and so on downwards.
\<close>

definition cascade_projects :: "uuid list \<Rightarrow> database \<Rightarrow> database" where
  "cascade_projects ids d =
     d\<lparr>project_clients := filter (\<lambda>l. pc_project_id l \<notin> set ids) (project_clients d),
       tasks := filter (\<lambda>t. tk_project_id t \<notin> set ids) (tasks d),
       project_timeline := filter (\<lambda>e. tl_project_id e \<notin> set ids) (project_timeline d)\<rparr>"

definition delete_projects_where :: "(project \<Rightarrow> bool) \<Rightarrow> database \<Rightarrow> database" where
  "delete_projects_where P d =
     cascade_projects (map pj_id (filter P (projects d)))
       (d\<lparr>projects := filter (\<lambda>p. \<not> P p) (projects d)\<rparr>)"

definition cascade_clients :: "uuid list \<Rightarrow> database \<Rightarrow> database" where
  "cascade_clients ids d =
     d\<lparr>project_clients := filter (\<lambda>l. pc_client_id l \<notin> set ids) (project_clients d)\<rparr>"

definition delete_clients_where :: "(client \<Rightarrow> bool) \<Rightarrow> database \<Rightarrow> database" where
  "delete_clients_where P d =
     cascade_clients (map cl_id (filter P (clients d)))
       (d\<lparr>clients := filter (\<lambda>c. \<not> P c) (clients d)\<rparr>)"

definition cascade_profiles :: "uuid list \<Rightarrow> database \<Rightarrow> database" where
  "cascade_profiles ids d =
     delete_clients_where (\<lambda>c. cl_user_id c \<in> set ids)
       (delete_projects_where (\<lambda>p. pj_user_id p \<in> set ids) d)"

definition delete_profiles_where :: "(profile \<Rightarrow> bool) \<Rightarrow> database \<Rightarrow> database" where
  "delete_profiles_where P d =
     cascade_profiles (map pf_id (filter P (profiles d)))
       (d\<lparr>profiles := filter (\<lambda>p. \<not> P p) (profiles d)\<rparr>)"

definition delete_auth_users_where :: "(auth_user \<Rightarrow> bool) \<Rightarrow> database \<Rightarrow> database" where
  "delete_auth_users_where P d =
     (let ids = map au_id (filter P (auth_users d))
      in delete_profiles_where (\<lambda>p. pf_id p \<in> set ids)
           (d\<lparr>auth_users := filter (\<lambda>u. \<not> P u) (auth_users d)\<rparr>))"

text \<open>Deleting an identity: the row of \<^verbatim>\<open>auth.users\<close> with that id, and all it owns.\<close>

definition delete_identity :: "uuid \<Rightarrow> database \<Rightarrow> database" where
  "delete_identity uid d = delete_auth_users_where (\<lambda>u. au_id u = uid) d"

text \<open>Deleting the identity's own record, the row of \<^verbatim>\<open>profiles\<close>.\<close>

definition delete_profile :: "uuid \<Rightarrow> database \<Rightarrow> database" where
  "delete_profile uid d = delete_profiles_where (\<lambda>p. pf_id p = uid) d"

section \<open>Row-level security policies\<close>

text \<open>
  \<^verbatim>\<open>auth.uid()\<close> is the caller's id, or \<^verbatim>\<open>NULL\<close> without a session, and \<^verbatim>\<open>auth.uid() = x\<close>
  holds only for a caller with that id. The four policies of \<^verbatim>\<open>projects\<close> (and of
  \<^verbatim>\<open>clients\<close>) carry the same expression; the policies of the child tables look the parent
  project up.
\<close>

definition projects_policy :: "uuid option \<Rightarrow> project \<Rightarrow> bool" where
  "projects_policy auth_uid p = (auth_uid = Some (pj_user_id p))"

definition clients_policy :: "uuid option \<Rightarrow> client \<Rightarrow> bool" where
  "clients_policy auth_uid c = (auth_uid = Some (cl_user_id c))"

definition owns_project :: "uuid option \<Rightarrow> database \<Rightarrow> uuid \<Rightarrow> bool" where
  "owns_project auth_uid d pid =
     (\<exists>p \<in> set (projects d). pj_id p = pid \<and> Some (pj_user_id p) = auth_uid)"

definition project_clients_policy :: "uuid option \<Rightarrow> database \<Rightarrow> project_client \<Rightarrow> bool" where
  "project_clients_policy auth_uid d l = owns_project auth_uid d (pc_project_id l)"

definition tasks_policy :: "uuid option \<Rightarrow> database \<Rightarrow> task \<Rightarrow> bool" where
  "tasks_policy auth_uid d t = owns_project auth_uid d (tk_project_id t)"

definition project_timeline_policy :: "uuid option \<Rightarrow> database \<Rightarrow> timeline \<Rightarrow> bool" where
  "project_timeline_policy auth_uid d e = owns_project auth_uid d (tl_project_id e)"

section \<open>Statements under row-level security\<close>

text \<open>
  A statement either fails, and then changes nothing, or yields the new store. \<open>store_after\<close>
  is the store a statement leaves behind.
\<close>

definition store_after :: "database \<Rightarrow> error + database \<Rightarrow> database" where
  "store_after d r = (case r of Inl e \<Rightarrow> d | Inr d' \<Rightarrow> d')"

subsection \<open>Reading\<close>

text \<open>A \<^verbatim>\<open>SELECT\<close> returns the rows that pass the table's policy and the query's filter.\<close>

definition select_projects :: "uuid option \<Rightarrow> (project \<Rightarrow> bool) \<Rightarrow> database \<Rightarrow> project list" where
  "select_projects auth_uid flt d = filter (\<lambda>p. projects_policy auth_uid p \<and> flt p) (projects d)"

definition select_clients :: "uuid option \<Rightarrow> (client \<Rightarrow> bool) \<Rightarrow> database \<Rightarrow> client list" where
  "select_clients auth_uid flt d = filter (\<lambda>c. clients_policy auth_uid c \<and> flt c) (clients d)"

definition select_project_clients ::
  "uuid option \<Rightarrow> (project_client \<Rightarrow> bool) \<Rightarrow> database \<Rightarrow> project_client list" where
  "select_project_clients auth_uid flt d =
     filter (\<lambda>l. project_clients_policy auth_uid d l \<and> flt l) (project_clients d)"

definition select_tasks :: "uuid option \<Rightarrow> (task \<Rightarrow> bool) \<Rightarrow> database \<Rightarrow> task list" where
  "select_tasks auth_uid flt d = filter (\<lambda>t. tasks_policy auth_uid d t \<and> flt t) (tasks d)"

definition select_project_timeline ::
  "uuid option \<Rightarrow> (timeline \<Rightarrow> bool) \<Rightarrow> database \<Rightarrow> timeline list" where
  "select_project_timeline auth_uid flt d =
     filter (\<lambda>e. project_timeline_policy auth_uid d e \<and> flt e) (project_timeline d)"

subsection \<open>Row loops of \<^verbatim>\<open>INSERT\<close> and \<^verbatim>\<open>UPDATE\<close>\<close>

text \<open>
  PostgreSQL handles the rows of a statement one after the other. For each new row it checks
  the policy (\<^verbatim>\<open>WITH CHECK\<close>, which for a policy without one is its \<^verbatim>\<open>USING\<close> expression),
  then the \<^verbatim>\<open>CHECK\<close> constraints, then the unique indexes against all other rows the table
  holds at that moment; foreign keys are checked when the statement ends. \<open>chk\<close> is the
  row's own check, \<open>conflict\<close> the unique-index test.
\<close>

fun insert_rows ::
  "('r \<Rightarrow> error option) \<Rightarrow> ('r \<Rightarrow> 'r list \<Rightarrow> bool) \<Rightarrow> 'r list \<Rightarrow> 'r list \<Rightarrow> error + 'r list" where
  "insert_rows chk conflict tbl [] = Inr tbl"
| "insert_rows chk conflict tbl (r # rs) =
     (case chk r of
        Some e \<Rightarrow> Inl e
      | None \<Rightarrow>
          if conflict r tbl then Inl (ConstraintViolation Unique)
          else insert_rows chk conflict (tbl @ [r]) rs)"

text \<open>
  \<open>update_rows\<close> walks the table: \<open>seen\<close> holds the rows already handled (in their new
  version), \<open>target\<close> selects the rows to update from their old version, \<open>new\<close> computes
  and checks the new version.
\<close>

fun update_rows ::
  "('r \<Rightarrow> bool) \<Rightarrow> ('r \<Rightarrow> error + 'r) \<Rightarrow> ('r \<Rightarrow> 'r list \<Rightarrow> bool) \<Rightarrow> 'r list \<Rightarrow> 'r list
     \<Rightarrow> error + 'r list" where
  "update_rows target new conflict seen [] = Inr seen"
| "update_rows target new conflict seen (r # rest) =
     (if target r then
        (case new r of
           Inl e \<Rightarrow> Inl e
         | Inr r' \<Rightarrow>
             if conflict r' (seen @ rest) then Inl (ConstraintViolation Unique)
             else update_rows target new conflict (seen @ [r']) rest)
      else update_rows target new conflict (seen @ [r]) rest)"

subsection \<open>Projects\<close>

text \<open>
  \<^verbatim>\<open>CHECK (progress >= 0 AND progress <= 100)\<close>: a check constraint is satisfied when its
  expression is true or \<^verbatim>\<open>NULL\<close>, and the column is nullable.
\<close>

definition progress_check :: "project \<Rightarrow> bool" where
  "progress_check p = (case pj_progress p of None \<Rightarrow> True | Some v \<Rightarrow> 0 \<le> v \<and> v \<le> 100)"

definition project_row_check :: "uuid option \<Rightarrow> project \<Rightarrow> error option" where
  "project_row_check auth_uid p =
     (if \<not> projects_policy auth_uid p then Some RlsViolation
      else if \<not> progress_check p then Some (ConstraintViolation Check)
      else None)"

definition project_key_conflict :: "project \<Rightarrow> project list \<Rightarrow> bool" where
  "project_key_conflict p tbl = (pj_id p \<in> pj_id ` set tbl)"

definition insert_projects :: "uuid option \<Rightarrow> project list \<Rightarrow> database \<Rightarrow> error + database" where
  "insert_projects auth_uid rows d =
     (case insert_rows (project_row_check auth_uid) project_key_conflict (projects d) rows of
        Inl e \<Rightarrow> Inl e
      | Inr tbl \<Rightarrow>
          if \<exists>r \<in> set rows. pj_user_id r \<notin> pf_id ` set (profiles d)
          then Inl (ConstraintViolation Foreign_key)
          else Inr (d\<lparr>projects := tbl\<rparr>))"

text \<open>
  The trigger function \<^verbatim>\<open>update_updated_at_column\<close>, bound \<^verbatim>\<open>BEFORE UPDATE ... FOR EACH ROW\<close>
  to \<^verbatim>\<open>projects\<close>, \<^verbatim>\<open>clients\<close>, \<^verbatim>\<open>tasks\<close> (and \<^verbatim>\<open>profiles\<close>): it overwrites the new row's
  \<^verbatim>\<open>updated_at\<close> with \<^verbatim>\<open>CURRENT_TIMESTAMP\<close>.
\<close>

definition update_updated_at_column_projects :: "timestamptz \<Rightarrow> project \<Rightarrow> project" where
  "update_updated_at_column_projects current_timestamp new = new\<lparr>pj_updated_at := Some current_timestamp\<rparr>"

definition update_updated_at_column_clients :: "timestamptz \<Rightarrow> client \<Rightarrow> client" where
  "update_updated_at_column_clients current_timestamp new = new\<lparr>cl_updated_at := Some current_timestamp\<rparr>"

definition update_updated_at_column_tasks :: "timestamptz \<Rightarrow> task \<Rightarrow> task" where
  "update_updated_at_column_tasks current_timestamp new = new\<lparr>tk_updated_at := Some current_timestamp\<rparr>"

text \<open>
  \<^verbatim>\<open>UPDATE projects SET ... WHERE ...\<close>: \<open>upd\<close> is the \<^verbatim>\<open>SET\<close> clause, \<open>flt\<close> the filter. Rows
  the caller's policy hides are skipped silently. The foreign key to \<^verbatim>\<open>profiles\<close> needs no
  check: the policy holds of the old and of the new row, so \<^verbatim>\<open>user_id\<close> is unchanged. The
  foreign keys of the child tables are \<^verbatim>\<open>ON UPDATE NO ACTION\<close>: the statement fails when a key
  that a child row references is gone at its end. The statement returns the new rows.
\<close>

definition referenced_project_ids :: "database \<Rightarrow> uuid list" where
  "referenced_project_ids d =
     map pc_project_id (project_clients d) @ map tk_project_id (tasks d)
       @ map tl_project_id (project_timeline d)"

definition update_projects ::
  "uuid option \<Rightarrow> timestamptz \<Rightarrow> (project \<Rightarrow> bool) \<Rightarrow> (project \<Rightarrow> project) \<Rightarrow> database
     \<Rightarrow> error + database \<times> project list" where
  "update_projects auth_uid now flt upd d =
     (let target = (\<lambda>p. projects_policy auth_uid p \<and> flt p);
          new_row = (\<lambda>p. update_updated_at_column_projects now (upd p));
          new = (\<lambda>p. case project_row_check auth_uid (new_row p) of
                        Some e \<Rightarrow> Inl e | None \<Rightarrow> Inr (new_row p))
      in case update_rows target new project_key_conflict [] (projects d) of
           Inl e \<Rightarrow> Inl e
         | Inr tbl \<Rightarrow>
             if \<exists>i \<in> set (referenced_project_ids d).
                  i \<in> pj_id ` set (filter target (projects d)) \<and> i \<notin> pj_id ` set tbl
             then Inl (ConstraintViolation Foreign_key)
             else Inr (d\<lparr>projects := tbl\<rparr>, map new_row (filter target (projects d))))"

text \<open>\<^verbatim>\<open>DELETE FROM projects WHERE ...\<close>: the visible rows that match, with the cascade.\<close>

definition delete_projects :: "uuid option \<Rightarrow> (project \<Rightarrow> bool) \<Rightarrow> database \<Rightarrow> database" where
  "delete_projects auth_uid flt d =
     delete_projects_where (\<lambda>p. projects_policy auth_uid p \<and> flt p) d"

subsection \<open>Clients\<close>

definition client_row_check :: "uuid option \<Rightarrow> client \<Rightarrow> error option" where
  "client_row_check auth_uid c =
     (if \<not> clients_policy auth_uid c then Some RlsViolation else None)"

definition client_key_conflict :: "client \<Rightarrow> client list \<Rightarrow> bool" where
  "client_key_conflict c tbl = (cl_id c \<in> cl_id ` set tbl)"

definition insert_clients :: "uuid option \<Rightarrow> client list \<Rightarrow> database \<Rightarrow> error + database" where
  "insert_clients auth_uid rows d =
     (case insert_rows (client_row_check auth_uid) client_key_conflict (clients d) rows of
        Inl e \<Rightarrow> Inl e
      | Inr tbl \<Rightarrow>
          if \<exists>r \<in> set rows. cl_user_id r \<notin> pf_id ` set (profiles d)
          then Inl (ConstraintViolation Foreign_key)
          else Inr (d\<lparr>clients := tbl\<rparr>))"

definition update_clients ::
  "uuid option \<Rightarrow> timestamptz \<Rightarrow> (client \<Rightarrow> bool) \<Rightarrow> (client \<Rightarrow> client) \<Rightarrow> database
     \<Rightarrow> error + database \<times> client list" where
  "update_clients auth_uid now flt upd d =
     (let target = (\<lambda>c. clients_policy auth_uid c \<and> flt c);
          new_row = (\<lambda>c. update_updated_at_column_clients now (upd c));
          new = (\<lambda>c. case client_row_check auth_uid (new_row c) of
                        Some e \<Rightarrow> Inl e | None \<Rightarrow> Inr (new_row c))
      in case update_rows target new client_key_conflict [] (clients d) of
           Inl e \<Rightarrow> Inl e
         | Inr tbl \<Rightarrow>
             if \<exists>i \<in> set (map pc_client_id (project_clients d)).
                  i \<in> cl_id ` set (filter target (clients d)) \<and> i \<notin> cl_id ` set tbl
             then Inl (ConstraintViolation Foreign_key)
             else Inr (d\<lparr>clients := tbl\<rparr>, map new_row (filter target (clients d))))"

definition delete_clients :: "uuid option \<Rightarrow> (client \<Rightarrow> bool) \<Rightarrow> database \<Rightarrow> database" where
  "delete_clients auth_uid flt d =
     delete_clients_where (\<lambda>c. clients_policy auth_uid c \<and> flt c) d"

subsection \<open>Project-client links\<close>

text \<open>
  The table has two unique indexes: the primary key and \<^verbatim>\<open>UNIQUE(project_id, client_id)\<close>.
  Its policy only looks at the project; the foreign keys to \<^verbatim>\<open>projects\<close> and \<^verbatim>\<open>clients\<close> are
  checked at the end of the statement, against the tables themselves.
\<close>

definition project_client_row_check :: "uuid option \<Rightarrow> database \<Rightarrow> project_client \<Rightarrow> error option" where
  "project_client_row_check auth_uid d l =
     (if \<not> project_clients_policy auth_uid d l then Some RlsViolation else None)"

definition project_client_key_conflict :: "project_client \<Rightarrow> project_client list \<Rightarrow> bool" where
  "project_client_key_conflict l tbl =
     (pc_id l \<in> pc_id ` set tbl
      \<or> (pc_project_id l, pc_client_id l) \<in> (\<lambda>x. (pc_project_id x, pc_client_id x)) ` set tbl)"

definition insert_project_clients ::
  "uuid option \<Rightarrow> project_client list \<Rightarrow> database \<Rightarrow> error + database" where
  "insert_project_clients auth_uid rows d =
     (case insert_rows (project_client_row_check auth_uid d) project_client_key_conflict
             (project_clients d) rows of
        Inl e \<Rightarrow> Inl e
      | Inr tbl \<Rightarrow>
          if \<exists>r \<in> set rows. pc_project_id r \<notin> pj_id ` set (projects d)
                            \<or> pc_client_id r \<notin> cl_id ` set (clients d)
          then Inl (ConstraintViolation Foreign_key)
          else Inr (d\<lparr>project_clients := tbl\<rparr>))"

definition delete_project_clients ::
  "uuid option \<Rightarrow> (project_client \<Rightarrow> bool) \<Rightarrow> database \<Rightarrow> database" where
  "delete_project_clients auth_uid flt d =
     d\<lparr>project_clients :=
         filter (\<lambda>l. \<not> (project_clients_policy auth_uid d l \<and> flt l)) (project_clients d)\<rparr>"

text \<open>
  \<^verbatim>\<open>UPDATE project_clients\<close>: the policy holds of the old row and of the new one, which finds
  the project; the new \<^verbatim>\<open>client_id\<close> must be the id of a client.
\<close>

definition update_project_clients ::
  "uuid option \<Rightarrow> (project_client \<Rightarrow> bool) \<Rightarrow> (project_client \<Rightarrow> project_client) \<Rightarrow> database
     \<Rightarrow> error + database \<times> project_client list" where
  "update_project_clients auth_uid flt upd d =
     (let target = (\<lambda>l. project_clients_policy auth_uid d l \<and> flt l);
          new = (\<lambda>l. case project_client_row_check auth_uid d (upd l) of
                        Some e \<Rightarrow> Inl e | None \<Rightarrow> Inr (upd l))
      in case update_rows target new project_client_key_conflict [] (project_clients d) of
           Inl e \<Rightarrow> Inl e
         | Inr tbl \<Rightarrow>
             if \<exists>l \<in> set (filter target (project_clients d)).
                  pc_client_id (upd l) \<notin> cl_id ` set (clients d)
             then Inl (ConstraintViolation Foreign_key)
             else Inr (d\<lparr>project_clients := tbl\<rparr>, map upd (filter target (project_clients d))))"

subsection \<open>Tasks\<close>

text \<open>
  \<^verbatim>\<open>CHECK (priority >= 1 AND priority <= 5)\<close> on a nullable column. The policy on the new row
  finds a project of the caller with the row's \<^verbatim>\<open>project_id\<close>, so the foreign key holds
  whenever the policy does.
\<close>

definition priority_check :: "task \<Rightarrow> bool" where
  "priority_check t = (case tk_priority t of None \<Rightarrow> True | Some v \<Rightarrow> 1 \<le> v \<and> v \<le> 5)"

definition task_row_check :: "uuid option \<Rightarrow> database \<Rightarrow> task \<Rightarrow> error option" where
  "task_row_check auth_uid d t =
     (if \<not> tasks_policy auth_uid d t then Some RlsViolation
      else if \<not> priority_check t then Some (ConstraintViolation Check)
      else None)"

definition task_key_conflict :: "task \<Rightarrow> task list \<Rightarrow> bool" where
  "task_key_conflict t tbl = (tk_id t \<in> tk_id ` set tbl)"

definition update_tasks ::
  "uuid option \<Rightarrow> timestamptz \<Rightarrow> (task \<Rightarrow> bool) \<Rightarrow> (task \<Rightarrow> task) \<Rightarrow> database
     \<Rightarrow> error + database \<times> task list" where
  "update_tasks auth_uid now flt upd d =
     (let target = (\<lambda>t. tasks_policy auth_uid d t \<and> flt t);
          new_row = (\<lambda>t. update_updated_at_column_tasks now (upd t));
          new = (\<lambda>t. case task_row_check auth_uid d (new_row t) of
                        Some e \<Rightarrow> Inl e | None \<Rightarrow> Inr (new_row t))
      in case update_rows target new task_key_conflict [] (tasks d) of
           Inl e \<Rightarrow> Inl e
         | Inr tbl \<Rightarrow> Inr (d\<lparr>tasks := tbl\<rparr>, map new_row (filter target (tasks d))))"

definition insert_tasks :: "uuid option \<Rightarrow> task list \<Rightarrow> database \<Rightarrow> error + database" where
  "insert_tasks auth_uid rows d =
     (case insert_rows (task_row_check auth_uid d) task_key_conflict (tasks d) rows of
        Inl e \<Rightarrow> Inl e
      | Inr tbl \<Rightarrow> Inr (d\<lparr>tasks := tbl\<rparr>))"

definition delete_tasks :: "uuid option \<Rightarrow> (task \<Rightarrow> bool) \<Rightarrow> database \<Rightarrow> database" where
  "delete_tasks auth_uid flt d =
     d\<lparr>tasks := filter (\<lambda>t. \<not> (tasks_policy auth_uid d t \<and> flt t)) (tasks d)\<rparr>"

subsection \<open>Timeline entries\<close>

text \<open>
  \<^verbatim>\<open>project_timeline\<close> has the primary key and the policy through the parent project; it has
  no \<^verbatim>\<open>updated_at\<close> column and no trigger.
\<close>

definition timeline_row_check :: "uuid option \<Rightarrow> database \<Rightarrow> timeline \<Rightarrow> error option" where
  "timeline_row_check auth_uid d e =
     (if \<not> project_timeline_policy auth_uid d e then Some RlsViolation else None)"

definition timeline_key_conflict :: "timeline \<Rightarrow> timeline list \<Rightarrow> bool" where
  "timeline_key_conflict e tbl = (tl_id e \<in> tl_id ` set tbl)"

definition insert_project_timeline ::
  "uuid option \<Rightarrow> timeline list \<Rightarrow> database \<Rightarrow> error + database" where
  "insert_project_timeline auth_uid rows d =
     (case insert_rows (timeline_row_check auth_uid d) timeline_key_conflict (project_timeline d)
             rows of
        Inl e \<Rightarrow> Inl e
      | Inr tbl \<Rightarrow> Inr (d\<lparr>project_timeline := tbl\<rparr>))"

definition update_project_timeline ::
  "uuid option \<Rightarrow> (timeline \<Rightarrow> bool) \<Rightarrow> (timeline \<Rightarrow> timeline) \<Rightarrow> database
     \<Rightarrow> error + database \<times> timeline list" where
  "update_project_timeline auth_uid flt upd d =
     (let target = (\<lambda>e. project_timeline_policy auth_uid d e \<and> flt e);
          new = (\<lambda>e. case timeline_row_check auth_uid d (upd e) of
                        Some err \<Rightarrow> Inl err | None \<Rightarrow> Inr (upd e))
      in case update_rows target new timeline_key_conflict [] (project_timeline d) of
           Inl err \<Rightarrow> Inl err
         | Inr tbl \<Rightarrow>
             Inr (d\<lparr>project_timeline := tbl\<rparr>, map upd (filter target (project_timeline d))))"

definition delete_project_timeline ::
  "uuid option \<Rightarrow> (timeline \<Rightarrow> bool) \<Rightarrow> database \<Rightarrow> database" where
  "delete_project_timeline auth_uid flt d =
     d\<lparr>project_timeline :=
         filter (\<lambda>e. \<not> (project_timeline_policy auth_uid d e \<and> flt e)) (project_timeline d)\<rparr>"

section \<open>The data-access functions of \<^verbatim>\<open>lib/database.ts\<close>\<close>

text \<open>
  Each function first asks the authentication provider for the caller (\<open>user\<close>, \<open>None\<close>
  without a session; the same identity is what \<^verbatim>\<open>auth.uid()\<close> yields in the policies), then
  sends one statement to the storage service. \<open>upstream\<close> is the failure the service reports
  when the call does not go through (\<open>None\<close>: it goes through). An \<^verbatim>\<open>error\<close> result and a
  thrown exception both end in the function's "no result" value.
\<close>

definition storage_call :: "error option \<Rightarrow> error + 'a \<Rightarrow> error + 'a" where
  "storage_call upstream r = (case upstream of Some e \<Rightarrow> Inl e | None \<Rightarrow> r)"

text \<open>\<^verbatim>\<open>.single()\<close>: exactly one row, or an error (and a statement that is rolled back).\<close>

fun single :: "'a list \<Rightarrow> error + 'a" where
  "single [x] = Inr x"
| "single _ = Inl NoSingleRow"

text \<open>
  The nested read \<^verbatim>\<open>*, clients:project_clients(client:clients(*)), tasks(*),
  timeline:project_timeline(*)\<close>: the project row with the rows of the child tables the caller
  may see; a link's \<^verbatim>\<open>client\<close> is \<^verbatim>\<open>null\<close> when the caller may not see the client.
\<close>

record project_with_relations =
  pr_project :: project
  pr_clients :: "client option list"
  pr_tasks :: "task list"
  pr_timeline :: "timeline list"

definition embed_project :: "uuid option \<Rightarrow> database \<Rightarrow> project \<Rightarrow> project_with_relations" where
  "embed_project auth_uid d p =
     \<lparr>pr_project = p,
      pr_clients =
        map (\<lambda>l. find (\<lambda>c. cl_id c = pc_client_id l) (select_clients auth_uid (\<lambda>c. True) d))
          (select_project_clients auth_uid (\<lambda>l. pc_project_id l = pj_id p) d),
      pr_tasks = select_tasks auth_uid (\<lambda>t. tk_project_id t = pj_id p) d,
      pr_timeline = select_project_timeline auth_uid (\<lambda>e. tl_project_id e = pj_id p) d\<rparr>"

definition getProject ::
  "error option \<Rightarrow> uuid option \<Rightarrow> uuid \<Rightarrow> database \<Rightarrow> project_with_relations option" where
  "getProject upstream user ident d =
     (case user of
        None \<Rightarrow> None
      | Some uid \<Rightarrow>
          (case storage_call upstream
                  (single (map (embed_project (Some uid) d)
                     (select_projects (Some uid) (\<lambda>p. pj_id p = ident \<and> pj_user_id p = uid) d))) of
             Inl e \<Rightarrow> None
           | Inr data \<Rightarrow> Some data))"

text \<open>
  \<^verbatim>\<open>Partial<Project>\<close>: every column may be left out. On \<^verbatim>\<open>INSERT\<close> a column left out takes
  its \<^verbatim>\<open>DEFAULT\<close> (\<^verbatim>\<open>NULL\<close> without one), on \<^verbatim>\<open>UPDATE\<close> it keeps its value.
\<close>

record project_partial =
  pp_id :: "uuid option"
  pp_user_id :: "uuid option"
  pp_title :: "string option"
  pp_description :: "string option"
  pp_type :: "project_type option"
  pp_status :: "project_status option"
  pp_payment_status :: "payment_status option"
  pp_progress :: "int option"
  pp_budget :: "money option"
  pp_paid_amount :: "money option"
  pp_start_date :: "date option"
  pp_end_date :: "date option"
  pp_deadline :: "date option"
  pp_created_at :: "timestamptz option"
  pp_updated_at :: "timestamptz option"

definition or_default :: "'a option \<Rightarrow> 'a \<Rightarrow> 'a" where
  "or_default v dflt = (case v of None \<Rightarrow> dflt | Some x \<Rightarrow> x)"

definition or_default_null :: "'a option \<Rightarrow> 'a option \<Rightarrow> 'a option" where
  "or_default_null v dflt = (case v of None \<Rightarrow> dflt | Some x \<Rightarrow> Some x)"

text \<open>
  The row an \<^verbatim>\<open>INSERT\<close> of a partial project builds: \<open>gen_random_uuid\<close> is the id the default
  draws, \<open>now\<close> the statement's \<^verbatim>\<open>NOW()\<close>. The policy is checked before \<^verbatim>\<open>NOT NULL\<close>.
\<close>

definition insert_project_partial ::
  "uuid option \<Rightarrow> uuid \<Rightarrow> timestamptz \<Rightarrow> project_partial \<Rightarrow> database
     \<Rightarrow> error + database \<times> project list" where
  "insert_project_partial auth_uid gen_random_uuid now v d =
     (case pp_user_id v of
        None \<Rightarrow> Inl RlsViolation
      | Some uid \<Rightarrow>
          if auth_uid \<noteq> Some uid then Inl RlsViolation
          else
            (case pp_title v of
               None \<Rightarrow> Inl (ConstraintViolation Not_null)
             | Some title \<Rightarrow>
                 let row =
                   \<lparr>pj_id = or_default (pp_id v) gen_random_uuid,
                    pj_user_id = uid,
                    pj_title = title,
                    pj_description = pp_description v,
                    pj_type = or_default (pp_type v) Personal,
                    pj_status = or_default (pp_status v) Pending,
                    pj_payment_status = or_default (pp_payment_status v) Unpaid,
                    pj_progress = or_default_null (pp_progress v) (Some 0),
                    pj_budget = pp_budget v,
                    pj_paid_amount = or_default_null (pp_paid_amount v) (Some 0),
                    pj_start_date = pp_start_date v,
                    pj_end_date = pp_end_date v,
                    pj_deadline = pp_deadline v,
                    pj_created_at = or_default_null (pp_created_at v) (Some now),
                    pj_updated_at = or_default_null (pp_updated_at v) (Some now)\<rparr>
                 in (case insert_projects auth_uid [row] d of
                       Inl e \<Rightarrow> Inl e
                     | Inr d' \<Rightarrow> Inr (d', [row]))))"

definition createProject ::
  "error option \<Rightarrow> uuid option \<Rightarrow> project_partial \<Rightarrow> uuid \<Rightarrow> timestamptz \<Rightarrow> timestamptz
     \<Rightarrow> database \<Rightarrow> project option \<times> database" where
  "createProject upstream user proj gen_random_uuid now current_timestamp d =
     (case user of
        None \<Rightarrow> (None, d)
      | Some uid \<Rightarrow>
          let projectData =
                proj\<lparr>pp_user_id := Some uid, pp_created_at := Some now, pp_updated_at := Some now\<rparr>
          in (case storage_call upstream
                     (insert_project_partial (Some uid) gen_random_uuid current_timestamp
                        projectData d) of
                Inl e \<Rightarrow> (None, d)
              | Inr (d', rows) \<Rightarrow>
                  (case single rows of Inl e \<Rightarrow> (None, d) | Inr data \<Rightarrow> (Some data, d'))))"

text \<open>The \<^verbatim>\<open>SET\<close> clause of an update with a partial project: the columns present.\<close>

definition apply_project_updates :: "project_partial \<Rightarrow> project \<Rightarrow> project" where
  "apply_project_updates v p =
     \<lparr>pj_id = or_default (pp_id v) (pj_id p),
      pj_user_id = or_default (pp_user_id v) (pj_user_id p),
      pj_title = or_default (pp_title v) (pj_title p),
      pj_description = or_default_null (pp_description v) (pj_description p),
      pj_type = or_default (pp_type v) (pj_type p),
      pj_status = or_default (pp_status v) (pj_status p),
      pj_payment_status = or_default (pp_payment_status v) (pj_payment_status p),
      pj_progress = or_default_null (pp_progress v) (pj_progress p),
      pj_budget = or_default_null (pp_budget v) (pj_budget p),
      pj_paid_amount = or_default_null (pp_paid_amount v) (pj_paid_amount p),
      pj_start_date = or_default_null (pp_start_date v) (pj_start_date p),
      pj_end_date = or_default_null (pp_end_date v) (pj_end_date p),
      pj_deadline = or_default_null (pp_deadline v) (pj_deadline p),
      pj_created_at = or_default_null (pp_created_at v) (pj_created_at p),
      pj_updated_at = or_default_null (pp_updated_at v) (pj_updated_at p)\<rparr>"

text \<open>
  \<open>now\<close> is the application server's clock (\<^verbatim>\<open>new Date()\<close>), \<open>current_timestamp\<close> the
  database's.
\<close>

definition updateProject ::
  "error option \<Rightarrow> uuid option \<Rightarrow> uuid \<Rightarrow> project_partial \<Rightarrow> timestamptz \<Rightarrow> timestamptz
     \<Rightarrow> database \<Rightarrow> project option \<times> database" where
  "updateProject upstream user ident updates now current_timestamp d =
     (case user of
        None \<Rightarrow> (None, d)
      | Some uid \<Rightarrow>
          let updatesWithTimestamp = updates\<lparr>pp_updated_at := Some now\<rparr>
          in (case storage_call upstream
                     (update_projects (Some uid) current_timestamp
                        (\<lambda>p. pj_id p = ident \<and> pj_user_id p = uid)
                        (apply_project_updates updatesWithTimestamp) d) of
                Inl e \<Rightarrow> (None, d)
              | Inr (d', rows) \<Rightarrow>
                  (case single rows of Inl e \<Rightarrow> (None, d) | Inr data \<Rightarrow> (Some data, d'))))"

definition deleteProject ::
  "error option \<Rightarrow> uuid option \<Rightarrow> uuid \<Rightarrow> database \<Rightarrow> bool \<times> database" where
  "deleteProject upstream user ident d =
     (case user of
        None \<Rightarrow> (False, d)
      | Some uid \<Rightarrow>
          (case storage_call upstream
                  (Inr (delete_projects (Some uid) (\<lambda>p. pj_id p = ident \<and> pj_user_id p = uid) d)) of
             Inl e \<Rightarrow> (False, d)
           | Inr d' \<Rightarrow> (True, d')))"

section \<open>Identity provisioning: \<^verbatim>\<open>handle_new_user\<close>\<close>

text \<open>
  \<^verbatim>\<open>j ->> k\<close> is the text of member \<open>k\<close> of a JSON object, \<^verbatim>\<open>NULL\<close> when \<open>j\<close> is \<^verbatim>\<open>NULL\<close>, has
  no such member or holds JSON \<^verbatim>\<open>null\<close> there. \<^verbatim>\<open>split_part(s, '@', 1)\<close> is \<open>s\<close> up to its first
  \<^verbatim>\<open>@\<close>, all of \<open>s\<close> without one, and \<^verbatim>\<open>NULL\<close> for a \<^verbatim>\<open>NULL\<close> \<open>s\<close>. \<^verbatim>\<open>COALESCE\<close> yields its first
  argument that is not \<^verbatim>\<open>NULL\<close>: \<open>coalesce\<close> when a last argument is known not to be
  \<^verbatim>\<open>NULL\<close>, \<open>coalesce_null\<close> when all may be.
\<close>

definition jsonb_get_text :: "(string \<times> string option) list option \<Rightarrow> string \<Rightarrow> string option" where
  "jsonb_get_text j k =
     (case j of
        None \<Rightarrow> None
      | Some obj \<Rightarrow> (case map_of obj k of Some (Some v) \<Rightarrow> Some v | _ \<Rightarrow> None))"

definition split_part_1 :: "string \<Rightarrow> char \<Rightarrow> string" where
  "split_part_1 s delim = takeWhile (\<lambda>c. c \<noteq> delim) s"

fun coalesce :: "'a option list \<Rightarrow> 'a \<Rightarrow> 'a" where
  "coalesce [] final = final"
| "coalesce (None # xs) final = coalesce xs final"
| "coalesce (Some v # xs) final = v"

fun coalesce_null :: "'a option list \<Rightarrow> 'a option" where
  "coalesce_null [] = None"
| "coalesce_null (None # xs) = coalesce_null xs"
| "coalesce_null (Some v # xs) = Some v"

text \<open>
  The function is \<^verbatim>\<open>SECURITY DEFINER\<close>, so no policy applies to its \<^verbatim>\<open>INSERT\<close>; \<^verbatim>\<open>NOT NULL\<close>
  on \<^verbatim>\<open>email\<close>, the primary key, \<^verbatim>\<open>UNIQUE\<close> on \<^verbatim>\<open>email\<close> and the foreign key to \<^verbatim>\<open>auth.users\<close>
  do, in this order. The statement has no \<^verbatim>\<open>ON CONFLICT\<close> clause and the function no
  exception handler.
\<close>

definition profile_key_conflict :: "profile \<Rightarrow> profile list \<Rightarrow> bool" where
  "profile_key_conflict p tbl = (pf_id p \<in> pf_id ` set tbl \<or> pf_email p \<in> pf_email ` set tbl)"

definition handle_new_user :: "timestamptz \<Rightarrow> auth_user \<Rightarrow> database \<Rightarrow> error + database" where
  "handle_new_user now new d =
     (let full_name =
            coalesce_null [jsonb_get_text (au_raw_user_meta_data new) ''full_name'',
                           jsonb_get_text (au_raw_user_meta_data new) ''name'',
                           map_option (\<lambda>e. split_part_1 e CHR ''@'') (au_email new)]
      in case au_email new of
           None \<Rightarrow> Inl (ConstraintViolation Not_null)
         | Some email \<Rightarrow>
             let row =
                   \<lparr>pf_id = au_id new,
                    pf_email = email,
                    pf_full_name = full_name,
                    pf_avatar_url = None,
                    pf_created_at = Some now,
                    pf_updated_at = Some now\<rparr>
             in if profile_key_conflict row (profiles d) then Inl (ConstraintViolation Unique)
                else if au_id new \<notin> au_id ` set (auth_users d)
                then Inl (ConstraintViolation Foreign_key)
                else Inr (d\<lparr>profiles := profiles d @ [row]\<rparr>))"

text \<open>
  The trigger \<^verbatim>\<open>on_auth_user_created\<close>: the authentication provider inserts the new row into
  \<^verbatim>\<open>auth.users\<close>, and \<^verbatim>\<open>handle_new_user\<close> runs \<^verbatim>\<open>AFTER INSERT\<close> in the same statement; when it
  fails the insert fails with it.
\<close>

definition on_auth_user_created :: "timestamptz \<Rightarrow> auth_user \<Rightarrow> database \<Rightarrow> error + database" where
  "on_auth_user_created now new d =
     (if au_id new \<in> au_id ` set (auth_users d) then Inl (ConstraintViolation Unique)
      else handle_new_user now new (d\<lparr>auth_users := auth_users d @ [new]\<rparr>))"

text \<open>
  \<^verbatim>\<open>on_auth_user_created\<close> is the only trigger the schema binds to \<^verbatim>\<open>auth.users\<close>, and it is
  bound to \<^verbatim>\<open>INSERT\<close>. An \<^verbatim>\<open>UPDATE\<close> of that table, which is all that a later sign-in of a
  registered identity does to its row, runs no function of the schema. The foreign key of
  \<^verbatim>\<open>profiles\<close> has no \<^verbatim>\<open>ON UPDATE\<close> action: the statement fails when it takes away an id that
  a profile refers to.
\<close>

definition auth_user_key_conflict :: "auth_user \<Rightarrow> auth_user list \<Rightarrow> bool" where
  "auth_user_key_conflict u tbl = (au_id u \<in> au_id ` set tbl)"

definition update_auth_users ::
  "(auth_user \<Rightarrow> bool) \<Rightarrow> (auth_user \<Rightarrow> auth_user) \<Rightarrow> database \<Rightarrow> error + database" where
  "update_auth_users flt upd d =
     (case update_rows flt (\<lambda>u. Inr (upd u)) auth_user_key_conflict [] (auth_users d) of
        Inl e \<Rightarrow> Inl e
      | Inr tbl \<Rightarrow>
          if \<exists>i \<in> set (map pf_id (profiles d)).
               i \<in> au_id ` set (filter flt (auth_users d)) \<and> i \<notin> au_id ` set tbl
          then Inl (ConstraintViolation Foreign_key)
          else Inr (d\<lparr>auth_users := tbl\<rparr>))"

section \<open>Aggregate statistics\<close>

text \<open>
  SQL aggregates skip \<^verbatim>\<open>NULL\<close> inputs; \<^verbatim>\<open>SUM\<close> and \<^verbatim>\<open>AVG\<close> are \<^verbatim>\<open>NULL\<close> when no input is left.
  \<^verbatim>\<open>AVG\<close> of integers is the \<^verbatim>\<open>numeric\<close> quotient of their sum by their number.
\<close>

definition non_null :: "'a option list \<Rightarrow> 'a list" where
  "non_null xs = List.map_filter (\<lambda>x. x) xs"

definition sql_sum :: "int option list \<Rightarrow> int option" where
  "sql_sum xs = (case non_null xs of [] \<Rightarrow> None | v # vs \<Rightarrow> Some (sum_list (v # vs)))"

definition sql_avg :: "int option list \<Rightarrow> numeric option" where
  "sql_avg xs =
     (case non_null xs of
        [] \<Rightarrow> None
      | v # vs \<Rightarrow> Some (numeric_div_int (sum_list (v # vs)) (int (length (v # vs)))))"

record project_stats_row =
  ps_user_id :: uuid
  total_projects :: nat
  active_projects :: nat
  completed_projects :: nat
  delivered_projects :: nat
  total_budget :: money
  total_revenue :: money
  average_progress :: numeric

text \<open>One group of the view \<^verbatim>\<open>project_stats\<close>: the rows of \<^verbatim>\<open>projects\<close> with one \<^verbatim>\<open>user_id\<close>.\<close>

definition project_stats_group :: "uuid \<Rightarrow> project list \<Rightarrow> project_stats_row" where
  "project_stats_group uid grp =
     \<lparr>ps_user_id = uid,
      total_projects = length grp,
      active_projects = length (filter (\<lambda>p. pj_status p = In_progress) grp),
      completed_projects = length (filter (\<lambda>p. pj_status p = Completed) grp),
      delivered_projects = length (filter (\<lambda>p. pj_status p = Delivered) grp),
      total_budget = coalesce [sql_sum (map pj_budget grp)] 0,
      total_revenue = coalesce [sql_sum (map pj_paid_amount grp)] 0,
      average_progress = coalesce [sql_avg (map pj_progress grp)] (Numeric 0 0)\<rparr>"

text \<open>
  The view over the rows of \<^verbatim>\<open>projects\<close> it reads: \<^verbatim>\<open>GROUP BY user_id\<close> yields one row for each
  \<^verbatim>\<open>user_id\<close> that occurs.
\<close>

definition project_stats :: "project list \<Rightarrow> project_stats_row list" where
  "project_stats tbl =
     map (\<lambda>uid. project_stats_group uid (filter (\<lambda>p. pj_user_id p = uid) tbl))
       (remdups (map pj_user_id tbl))"

text \<open>\<^verbatim>\<open>SELECT * FROM project_stats WHERE user_id = uid\<close>.\<close>

definition project_stats_of :: "uuid \<Rightarrow> project list \<Rightarrow> project_stats_row list" where
  "project_stats_of uid tbl = filter (\<lambda>r. ps_user_id r = uid) (project_stats tbl)"



section \<open>Invariants of the store\<close>

text \<open>Every project's progress, when it has one, lies in \<open>[0, 100]\<close>.\<close>

definition progress_in_range :: "database \<Rightarrow> bool" where
  "progress_in_range d =
     (\<forall>p \<in> set (projects d). \<forall>v. pj_progress p = Some v \<longrightarrow> 0 \<le> v \<and> v \<le> 100)"

text \<open>
  Timestamps of \<^verbatim>\<open>updated_at\<close>: \<open>not_after v t\<close> says that the stored value \<open>v\<close> is not
  ahead of the instant \<open>t\<close>, and \<open>advances old new\<close> that \<open>new\<close> is not below \<open>old\<close>; a
  \<^verbatim>\<open>NULL\<close> is ahead of nothing and below every instant.
\<close>

definition not_after :: "timestamptz option \<Rightarrow> timestamptz \<Rightarrow> bool" where
  "not_after v t = (case v of None \<Rightarrow> True | Some s \<Rightarrow> s \<le> t)"

definition advances :: "timestamptz option \<Rightarrow> timestamptz option \<Rightarrow> bool" where
  "advances old new =
     (case old of
        None \<Rightarrow> True
      | Some s \<Rightarrow> (case new of None \<Rightarrow> False | Some s' \<Rightarrow> s \<le> s'))"

section \<open>Reading through the views\<close>

text \<open>
  \<^verbatim>\<open>projects_with_clients\<close> joins each project with the clients it is linked to and
  aggregates their \<^verbatim>\<open>id\<close>, \<^verbatim>\<open>name\<close>, \<^verbatim>\<open>email\<close> and \<^verbatim>\<open>company\<close> (\<^verbatim>\<open>GROUP BY p.id\<close>, the primary
  key: one row for each project, \<^verbatim>\<open>[]\<close> without a client).
\<close>

record client_info =
  ci_id :: uuid
  ci_name :: string
  ci_email :: "string option"
  ci_company :: "string option"

record project_with_clients =
  pw_project :: project
  pw_clients :: "client_info list"

definition projects_with_clients :: "database \<Rightarrow> project_with_clients list" where
  "projects_with_clients d =
     map (\<lambda>p.
            \<lparr>pw_project = p,
             pw_clients =
               concat (map (\<lambda>l. map (\<lambda>c. \<lparr>ci_id = cl_id c, ci_name = cl_name c,
                                              ci_email = cl_email c, ci_company = cl_company c\<rparr>)
                                    (filter (\<lambda>c. cl_id c = pc_client_id l) (clients d)))
                           (filter (\<lambda>l. pc_project_id l = pj_id p) (project_clients d)))\<rparr>)
       (projects d)"

text \<open>
  Neither view is created \<^verbatim>\<open>WITH (security_invoker = true)\<close>. Such a view reads its tables
  with the rights of its owner, who owns the tables as well, and the policies of a table do
  not apply to its owner: whoever reads the view reads the rows of every identity, and
  \<^verbatim>\<open>auth.uid()\<close> plays no part.
\<close>

definition select_projects_with_clients ::
  "uuid option \<Rightarrow> (project_with_clients \<Rightarrow> bool) \<Rightarrow> database \<Rightarrow> project_with_clients list" where
  "select_projects_with_clients auth_uid flt d = filter flt (projects_with_clients d)"

definition select_project_stats ::
  "uuid option \<Rightarrow> (project_stats_row \<Rightarrow> bool) \<Rightarrow> database \<Rightarrow> project_stats_row list" where
  "select_project_stats auth_uid flt d = filter flt (project_stats (projects d))"

section \<open>The operations of a caller\<close>

text \<open>
  What a caller can send to the storage service: a \<^verbatim>\<open>SELECT\<close>, \<^verbatim>\<open>INSERT\<close>, \<^verbatim>\<open>UPDATE\<close> or
  \<^verbatim>\<open>DELETE\<close> on one of the five tables, with a filter and a \<^verbatim>\<open>SET\<close> clause of their choice, or a
  call of one of the data-access functions. \<open>run\<close> performs an operation for the caller
  \<open>auth_uid\<close> at the database time \<open>now\<close> and yields what the caller gets to see and the
  store it leaves; a failed statement leaves the store as it was.
\<close>

datatype operation =
    Select_projects "project \<Rightarrow> bool"
  | Select_clients "client \<Rightarrow> bool"
  | Select_project_clients "project_client \<Rightarrow> bool"
  | Select_tasks "task \<Rightarrow> bool"
  | Select_project_timeline "timeline \<Rightarrow> bool"
  | Insert_projects "project list"
  | Update_projects "project \<Rightarrow> bool" "project \<Rightarrow> project"
  | Delete_projects "project \<Rightarrow> bool"
  | Insert_clients "client list"
  | Update_clients "client \<Rightarrow> bool" "client \<Rightarrow> client"
  | Delete_clients "client \<Rightarrow> bool"
  | Insert_project_clients "project_client list"
  | Update_project_clients "project_client \<Rightarrow> bool" "project_client \<Rightarrow> project_client"
  | Delete_project_clients "project_client \<Rightarrow> bool"
  | Insert_tasks "task list"
  | Update_tasks "task \<Rightarrow> bool" "task \<Rightarrow> task"
  | Delete_tasks "task \<Rightarrow> bool"
  | Insert_project_timeline "timeline list"
  | Update_project_timeline "timeline \<Rightarrow> bool" "timeline \<Rightarrow> timeline"
  | Delete_project_timeline "timeline \<Rightarrow> bool"
  | Get_project "error option" uuid
  | Create_project "error option" project_partial uuid timestamptz
  | Update_project "error option" uuid project_partial timestamptz
  | Delete_project "error option" uuid

datatype outcome =
    Failed error
  | Done
  | Project_rows "project list"
  | Client_rows "client list"
  | Link_rows "project_client list"
  | Task_rows "task list"
  | Timeline_rows "timeline list"
  | Project_detail "project_with_relations option"
  | Project_row "project option"
  | Flag bool

definition after_insert :: "database \<Rightarrow> error + database \<Rightarrow> outcome \<times> database" where
  "after_insert d r = (case r of Inl e \<Rightarrow> (Failed e, d) | Inr d' \<Rightarrow> (Done, d'))"

definition after_update ::
  "('r list \<Rightarrow> outcome) \<Rightarrow> database \<Rightarrow> error + database \<times> 'r list \<Rightarrow> outcome \<times> database" where
  "after_update rows d r = (case r of Inl e \<Rightarrow> (Failed e, d) | Inr (d', out) \<Rightarrow> (rows out, d'))"

fun run :: "uuid option \<Rightarrow> timestamptz \<Rightarrow> operation \<Rightarrow> database \<Rightarrow> outcome \<times> database" where
  "run auth_uid now (Select_projects flt) d = (Project_rows (select_projects auth_uid flt d), d)"
| "run auth_uid now (Select_clients flt) d = (Client_rows (select_clients auth_uid flt d), d)"
| "run auth_uid now (Select_project_clients flt) d =
     (Link_rows (select_project_clients auth_uid flt d), d)"
| "run auth_uid now (Select_tasks flt) d = (Task_rows (select_tasks auth_uid flt d), d)"
| "run auth_uid now (Select_project_timeline flt) d =
     (Timeline_rows (select_project_timeline auth_uid flt d), d)"
| "run auth_uid now (Insert_projects rows) d = after_insert d (insert_projects auth_uid rows d)"
| "run auth_uid now (Update_projects flt upd) d =
     after_update Project_rows d (update_projects auth_uid now flt upd d)"
| "run auth_uid now (Delete_projects flt) d = (Done, delete_projects auth_uid flt d)"
| "run auth_uid now (Insert_clients rows) d = after_insert d (insert_clients auth_uid rows d)"
| "run auth_uid now (Update_clients flt upd) d =
     after_update Client_rows d (update_clients auth_uid now flt upd d)"
| "run auth_uid now (Delete_clients flt) d = (Done, delete_clients auth_uid flt d)"
| "run auth_uid now (Insert_project_clients rows) d =
     after_insert d (insert_project_clients auth_uid rows d)"
| "run auth_uid now (Update_project_clients flt upd) d =
     after_update Link_rows d (update_project_clients auth_uid flt upd d)"
| "run auth_uid now (Delete_project_clients flt) d = (Done, delete_project_clients auth_uid flt d)"
| "run auth_uid now (Insert_tasks rows) d = after_insert d (insert_tasks auth_uid rows d)"
| "run auth_uid now (Update_tasks flt upd) d =
     after_update Task_rows d (update_tasks auth_uid now flt upd d)"
| "run auth_uid now (Delete_tasks flt) d = (Done, delete_tasks auth_uid flt d)"
| "run auth_uid now (Insert_project_timeline rows) d =
     after_insert d (insert_project_timeline auth_uid rows d)"
| "run auth_uid now (Update_project_timeline flt upd) d =
     after_update Timeline_rows d (update_project_timeline auth_uid flt upd d)"
| "run auth_uid now (Delete_project_timeline flt) d =
     (Done, delete_project_timeline auth_uid flt d)"
| "run auth_uid now (Get_project upstream ident) d =
     (Project_detail (getProject upstream auth_uid ident d), d)"
| "run auth_uid now (Create_project upstream proj gen_random_uuid js_now) d =
     (case createProject upstream auth_uid proj gen_random_uuid js_now now d of
        (r, d') \<Rightarrow> (Project_row r, d'))"
| "run auth_uid now (Update_project upstream ident updates js_now) d =
     (case updateProject upstream auth_uid ident updates js_now now d of
        (r, d') \<Rightarrow> (Project_row r, d'))"
| "run auth_uid now (Delete_project upstream ident) d =
     (case deleteProject upstream auth_uid ident d of (b, d') \<Rightarrow> (Flag b, d'))"

section \<open>The store without a record\<close>

text \<open>
  \<open>hide_project pid d\<close> is the store \<open>d\<close> as it would be if no project had the id \<open>pid\<close>:
  without that row and, as the foreign keys demand, without the links, tasks and timeline
  entries that refer to it. \<open>hide_client\<close> is the same for a client and the links to it.
  What a caller may learn about a record is measured against it.
\<close>

definition hide_project :: "uuid \<Rightarrow> database \<Rightarrow> database" where
  "hide_project pid d = delete_projects_where (\<lambda>p. pj_id p = pid) d"

definition hide_client :: "uuid \<Rightarrow> database \<Rightarrow> database" where
  "hide_client cid d = delete_clients_where (\<lambda>c. cl_id c = cid) d"

text \<open>The rows that depend on a project, and on a client.\<close>

definition links_of_project :: "uuid \<Rightarrow> database \<Rightarrow> project_client list" where
  "links_of_project pid d = filter (\<lambda>l. pc_project_id l = pid) (project_clients d)"

definition timeline_of_project :: "uuid \<Rightarrow> database \<Rightarrow> timeline list" where
  "timeline_of_project pid d = filter (\<lambda>e. tl_project_id e = pid) (project_timeline d)"

definition links_of_client :: "uuid \<Rightarrow> database \<Rightarrow> project_client list" where
  "links_of_client cid d = filter (\<lambda>l. pc_client_id l = cid) (project_clients d)"

text \<open>
  \<open>same_project_rows r d d'\<close>: the project \<open>r\<close> is a row of \<open>d'\<close>, and its tasks and timeline
  entries are in \<open>d'\<close> what they are in \<open>d\<close>.
\<close>

definition same_project_rows :: "project \<Rightarrow> database \<Rightarrow> database \<Rightarrow> bool" where
  "same_project_rows r d d' =
     (r \<in> set (projects d')
      \<and> project_tasks (tasks d') (pj_id r) = project_tasks (tasks d) (pj_id r)
      \<and> timeline_of_project (pj_id r) d' = timeline_of_project (pj_id r) d)"

text \<open>
  An operation can meet a record it cannot see through the keys it writes: primary keys,
  unique indexes and foreign keys are enforced on the whole table. \<open>avoids_project\<close> holds of
  an operation that writes none of the ids of the project \<open>pid\<close> and of its dependent rows
  into a primary key, and that changes the id of no client the project is linked to.
\<close>

fun avoids_project :: "uuid option \<Rightarrow> uuid \<Rightarrow> database \<Rightarrow> operation \<Rightarrow> bool" where
  "avoids_project auth_uid pid d (Insert_projects rows) = (\<forall>x \<in> set rows. pj_id x \<noteq> pid)"
| "avoids_project auth_uid pid d (Update_projects flt upd) =
     (\<forall>p \<in> set (projects d). projects_policy auth_uid p \<and> flt p \<longrightarrow> pj_id (upd p) \<noteq> pid)"
| "avoids_project auth_uid pid d (Create_project upstream proj gen_random_uuid js_now) =
     (or_default (pp_id proj) gen_random_uuid \<noteq> pid)"
| "avoids_project auth_uid pid d (Update_project upstream ident updates js_now) =
     (pp_id updates \<noteq> Some pid)"
| "avoids_project auth_uid pid d (Update_clients flt upd) =
     (\<forall>c \<in> set (clients d). clients_policy auth_uid c \<and> flt c
         \<and> cl_id c \<in> pc_client_id ` set (links_of_project pid d) \<longrightarrow> cl_id (upd c) = cl_id c)"
| "avoids_project auth_uid pid d (Insert_project_clients rows) =
     (\<forall>x \<in> set rows. pc_id x \<notin> pc_id ` set (links_of_project pid d))"
| "avoids_project auth_uid pid d (Update_project_clients flt upd) =
     (\<forall>l \<in> set (project_clients d). project_clients_policy auth_uid d l \<and> flt l \<longrightarrow>
         pc_id (upd l) \<notin> pc_id ` set (links_of_project pid d))"
| "avoids_project auth_uid pid d (Insert_tasks rows) =
     (\<forall>x \<in> set rows. tk_id x \<notin> tk_id ` set (project_tasks (tasks d) pid))"
| "avoids_project auth_uid pid d (Update_tasks flt upd) =
     (\<forall>t \<in> set (tasks d). tasks_policy auth_uid d t \<and> flt t \<longrightarrow>
         tk_id (upd t) \<notin> tk_id ` set (project_tasks (tasks d) pid))"
| "avoids_project auth_uid pid d (Insert_project_timeline rows) =
     (\<forall>x \<in> set rows. tl_id x \<notin> tl_id ` set (timeline_of_project pid d))"
| "avoids_project auth_uid pid d (Update_project_timeline flt upd) =
     (\<forall>e \<in> set (project_timeline d). project_timeline_policy auth_uid d e \<and> flt e \<longrightarrow>
         tl_id (upd e) \<notin> tl_id ` set (timeline_of_project pid d))"
| "avoids_project auth_uid pid d _ = True"

text \<open>
  \<open>avoids_client\<close> holds of an operation that writes the id of the client \<open>cid\<close> into no
  primary key and into no \<^verbatim>\<open>client_id\<close>, and the id of no link to it into a primary key.
\<close>

fun avoids_client :: "uuid option \<Rightarrow> uuid \<Rightarrow> database \<Rightarrow> operation \<Rightarrow> bool" where
  "avoids_client auth_uid cid d (Insert_clients rows) = (\<forall>x \<in> set rows. cl_id x \<noteq> cid)"
| "avoids_client auth_uid cid d (Update_clients flt upd) =
     (\<forall>c \<in> set (clients d). clients_policy auth_uid c \<and> flt c \<longrightarrow> cl_id (upd c) \<noteq> cid)"
| "avoids_client auth_uid cid d (Insert_project_clients rows) =
     (\<forall>x \<in> set rows. pc_client_id x \<noteq> cid \<and> pc_id x \<notin> pc_id ` set (links_of_client cid d))"
| "avoids_client auth_uid cid d (Update_project_clients flt upd) =
     (\<forall>l \<in> set (project_clients d). project_clients_policy auth_uid d l \<and> flt l \<longrightarrow>
         pc_client_id (upd l) \<noteq> cid \<and> pc_id (upd l) \<notin> pc_id ` set (links_of_client cid d))"
| "avoids_client auth_uid cid d _ = True"

text \<open>
  The rows of a table that a row filter takes away, table by table: the comparison of a store
  with the store without a record is made for every such choice of rows at once.
\<close>

record row_filter =
  keep_project :: "project \<Rightarrow> bool"
  keep_client :: "client \<Rightarrow> bool"
  keep_link :: "project_client \<Rightarrow> bool"
  keep_task :: "task \<Rightarrow> bool"
  keep_milestone :: "timeline \<Rightarrow> bool"

definition restrict_db :: "row_filter \<Rightarrow> database \<Rightarrow> database" where
  "restrict_db k d =
     d\<lparr>projects := filter (keep_project k) (projects d),
       clients := filter (keep_client k) (clients d),
       project_clients := filter (keep_link k) (project_clients d),
       tasks := filter (keep_task k) (tasks d),
       project_timeline := filter (keep_milestone k) (project_timeline d)\<rparr>"

definition without_project :: "uuid \<Rightarrow> row_filter" where
  "without_project pid =
     \<lparr>keep_project = (\<lambda>p. pj_id p \<noteq> pid), keep_client = (\<lambda>c. True),
      keep_link = (\<lambda>l. pc_project_id l \<noteq> pid), keep_task = (\<lambda>t. tk_project_id t \<noteq> pid),
      keep_milestone = (\<lambda>e. tl_project_id e \<noteq> pid)\<rparr>"

definition without_client :: "uuid \<Rightarrow> row_filter" where
  "without_client cid =
     \<lparr>keep_project = (\<lambda>p. True), keep_client = (\<lambda>c. cl_id c \<noteq> cid),
      keep_link = (\<lambda>l. pc_client_id l \<noteq> cid), keep_task = (\<lambda>t. True),
      keep_milestone = (\<lambda>e. True)\<rparr>"

text \<open>
  \<open>unseen auth_uid k d\<close>: every row the filter takes away is one the caller cannot see, and
  no row of the caller's shares the id of a project or client taken away.
\<close>

definition unseen :: "uuid option \<Rightarrow> row_filter \<Rightarrow> database \<Rightarrow> bool" where
  "unseen auth_uid k d =
     ((\<forall>p \<in> set (projects d). \<not> keep_project k p \<longrightarrow> \<not> owns_project auth_uid d (pj_id p))
    \<and> (\<forall>c \<in> set (clients d). \<not> keep_client k c \<longrightarrow>
          (\<forall>c' \<in> set (clients d). cl_id c' = cl_id c \<longrightarrow> \<not> clients_policy auth_uid c'))
    \<and> (\<forall>l \<in> set (project_clients d). \<not> keep_link k l \<longrightarrow>
          \<not> owns_project auth_uid d (pc_project_id l))
    \<and> (\<forall>t \<in> set (tasks d). \<not> keep_task k t \<longrightarrow> \<not> owns_project auth_uid d (tk_project_id t))
    \<and> (\<forall>e \<in> set (project_timeline d). \<not> keep_milestone k e \<longrightarrow>
          \<not> owns_project auth_uid d (tl_project_id e)))"

section \<open>Concrete rows for the evaluated instances\<close>

definition example_task :: "uuid \<Rightarrow> uuid \<Rightarrow> bool option \<Rightarrow> task" where
  "example_task i pid c =
     \<lparr>tk_id = i, tk_project_id = pid, tk_title = ''task'', tk_description = None,
      tk_completed = c, tk_priority = Some 1, tk_due_date = None,
      tk_created_at = Some 0, tk_updated_at = Some 0\<rparr>"

definition example_user :: "uuid \<Rightarrow> string \<Rightarrow> auth_user" where
  "example_user i e = \<lparr>au_id = i, au_email = Some e, au_raw_user_meta_data = None\<rparr>"

definition example_profile :: "uuid \<Rightarrow> string \<Rightarrow> profile" where
  "example_profile i e =
     \<lparr>pf_id = i, pf_email = e, pf_full_name = None, pf_avatar_url = None,
      pf_created_at = Some 0, pf_updated_at = Some 0\<rparr>"

definition example_project :: "uuid \<Rightarrow> uuid \<Rightarrow> project" where
  "example_project i uid =
     \<lparr>pj_id = i, pj_user_id = uid, pj_title = ''site'', pj_description = None,
      pj_type = Personal, pj_status = Pending, pj_payment_status = Unpaid,
      pj_progress = Some 0, pj_budget = None, pj_paid_amount = Some 0,
      pj_start_date = None, pj_end_date = None, pj_deadline = None,
      pj_created_at = Some 0, pj_updated_at = Some 0\<rparr>"

definition example_client :: "uuid \<Rightarrow> uuid \<Rightarrow> client" where
  "example_client i uid =
     \<lparr>cl_id = i, cl_user_id = uid, cl_name = ''acme'', cl_email = None, cl_phone = None,
      cl_company = None, cl_notes = None, cl_created_at = Some 0, cl_updated_at = Some 0\<rparr>"

definition example_link :: "uuid \<Rightarrow> uuid \<Rightarrow> uuid \<Rightarrow> project_client" where
  "example_link i pid cid =
     \<lparr>pc_id = i, pc_project_id = pid, pc_client_id = cid, pc_reference_note = None,
      pc_created_at = Some 0\<rparr>"

definition example_milestone :: "uuid \<Rightarrow> uuid \<Rightarrow> timeline" where
  "example_milestone i pid =
     \<lparr>tl_id = i, tl_project_id = pid, tl_milestone = ''launch'', tl_description = None,
      tl_completed = Some False, tl_completed_at = None, tl_order_index = 1,
      tl_created_at = Some 0\<rparr>"

text \<open>
  Two identities, 1 and 2. Identity 1 owns project 10 and client 100, identity 2 owns project
  20 and client 200; project 20 is linked to both clients.
\<close>

definition example_db :: database where
  "example_db =
     \<lparr>auth_users = [example_user 1 ''a@x.io'', example_user 2 ''b@x.io''],
      profiles = [example_profile 1 ''a@x.io'', example_profile 2 ''b@x.io''],
      projects = [example_project 10 1, example_project 20 2],
      clients = [example_client 100 1, example_client 200 2],
      project_clients = [example_link 1000 10 100, example_link 1001 20 100, example_link 1002 20 200],
      tasks = [example_task 1 10 (Some True), example_task 2 20 (Some False)],
      project_timeline = [example_milestone 1 10, example_milestone 2 20]\<rparr>"


definition all_zero_stats :: "uuid \<Rightarrow> project_stats_row" where
  "all_zero_stats uid =
     \<lparr>ps_user_id = uid, total_projects = 0, active_projects = 0, completed_projects = 0,
      delivered_projects = 0, total_budget = 0, total_revenue = 0,
      average_progress = Numeric 0 0\<rparr>"

text \<open>A partial project that leaves every column out.\<close>

definition no_updates :: project_partial where
  "no_updates =
     \<lparr>pp_id = None, pp_user_id = None, pp_title = None, pp_description = None, pp_type = None,
      pp_status = None, pp_payment_status = None, pp_progress = None, pp_budget = None,
      pp_paid_amount = None, pp_start_date = None, pp_end_date = None, pp_deadline = None,
      pp_created_at = None, pp_updated_at = None\<rparr>"

section \<open>What successful statements have done\<close>

lemma insert_rows_Inr:
  assumes "insert_rows chk conflict tbl rows = Inr tbl'"
  shows "tbl' = tbl @ rows \<and> (\<forall>r \<in> set rows. chk r = None)"
  using assms
proof (induction rows arbitrary: tbl)
  case Nil
  then show ?case by simp
next
  case (Cons r rs)
  from Cons.prems have c: "chk r = None"
    and rest: "insert_rows chk conflict (tbl @ [r]) rs = Inr tbl'"
    by (auto split: option.splits if_splits)
  from Cons.IH[OF rest] c show ?case by simp
qed

lemma update_rows_Inr:
  assumes "update_rows target new conflict seen rest = Inr tbl"
  shows "(\<forall>r \<in> set rest. target r \<longrightarrow> (\<exists>r'. new r = Inr r'))
       \<and> tbl = seen @ map (\<lambda>r. if target r then projr (new r) else r) rest"
  using assms
proof (induction rest arbitrary: seen)
  case Nil
  then show ?case by simp
next
  case (Cons r rest)
  show ?case
  proof (cases "target r")
    case True
    with Cons.prems obtain r' where n: "new r = Inr r'"
      and rest: "update_rows target new conflict (seen @ [r']) rest = Inr tbl"
      by (auto split: sum.splits if_splits)
    from Cons.IH[OF rest] n True show ?thesis by simp
  next
    case False
    with Cons.prems have "update_rows target new conflict (seen @ [r]) rest = Inr tbl" by simp
    from Cons.IH[OF this] False show ?thesis by simp
  qed
qed

lemma update_projects_Inr:
  assumes "update_projects auth_uid now flt upd d = Inr (d', out)"
  shows "projects d' = map (\<lambda>p. if projects_policy auth_uid p \<and> flt p
                                 then (upd p)\<lparr>pj_updated_at := Some now\<rparr> else p) (projects d)"
    and "out = map (\<lambda>p. (upd p)\<lparr>pj_updated_at := Some now\<rparr>)
                 (filter (\<lambda>p. projects_policy auth_uid p \<and> flt p) (projects d))"
    and "\<forall>p \<in> set (projects d). projects_policy auth_uid p \<and> flt p \<longrightarrow>
           project_row_check auth_uid ((upd p)\<lparr>pj_updated_at := Some now\<rparr>) = None"
    and "d' = d\<lparr>projects := projects d'\<rparr>"
proof -
  let ?target = "\<lambda>p. projects_policy auth_uid p \<and> flt p"
  let ?new_row = "\<lambda>p. update_updated_at_column_projects now (upd p)"
  let ?new = "\<lambda>p. case project_row_check auth_uid (?new_row p) of
                        Some e \<Rightarrow> Inl e | None \<Rightarrow> Inr (?new_row p)"
  from assms obtain tbl where
    u: "update_rows ?target ?new project_key_conflict [] (projects d) = Inr tbl"
    and d': "d' = d\<lparr>projects := tbl\<rparr>" and out: "out = map ?new_row (filter ?target (projects d))"
    by (auto simp: update_projects_def Let_def split: sum.splits if_splits)
  from update_rows_Inr[OF u]
  have ok: "\<forall>r \<in> set (projects d). ?target r \<longrightarrow> (\<exists>r'. ?new r = Inr r')"
    and tbl: "tbl = map (\<lambda>r. if ?target r then projr (?new r) else r) (projects d)"
    by simp_all
  from ok show chk: "\<forall>p \<in> set (projects d). projects_policy auth_uid p \<and> flt p \<longrightarrow>
           project_row_check auth_uid ((upd p)\<lparr>pj_updated_at := Some now\<rparr>) = None"
    by (auto simp: update_updated_at_column_projects_def split: option.splits)
  have "tbl = map (\<lambda>p. if ?target p then (upd p)\<lparr>pj_updated_at := Some now\<rparr> else p) (projects d)"
    unfolding tbl using chk
    by (intro map_cong) (auto simp: update_updated_at_column_projects_def)
  then show "projects d' = map (\<lambda>p. if projects_policy auth_uid p \<and> flt p
                                 then (upd p)\<lparr>pj_updated_at := Some now\<rparr> else p) (projects d)"
    by (simp add: d')
  show "out = map (\<lambda>p. (upd p)\<lparr>pj_updated_at := Some now\<rparr>)
                 (filter (\<lambda>p. projects_policy auth_uid p \<and> flt p) (projects d))"
    by (simp add: out update_updated_at_column_projects_def)
  show "d' = d\<lparr>projects := projects d'\<rparr>" by (simp add: d')
qed

lemma update_clients_Inr:
  assumes "update_clients auth_uid now flt upd d = Inr (d', out)"
  shows "clients d' = map (\<lambda>c. if clients_policy auth_uid c \<and> flt c
                                 then (upd c)\<lparr>cl_updated_at := Some now\<rparr> else c) (clients d)"
    and "out = map (\<lambda>c. (upd c)\<lparr>cl_updated_at := Some now\<rparr>)
                 (filter (\<lambda>c. clients_policy auth_uid c \<and> flt c) (clients d))"
proof -
  let ?target = "\<lambda>c. clients_policy auth_uid c \<and> flt c"
  let ?new_row = "\<lambda>c. update_updated_at_column_clients now (upd c)"
  let ?new = "\<lambda>c. case client_row_check auth_uid (?new_row c) of
                        Some e \<Rightarrow> Inl e | None \<Rightarrow> Inr (?new_row c)"
  from assms obtain tbl where
    u: "update_rows ?target ?new client_key_conflict [] (clients d) = Inr tbl"
    and d': "d' = d\<lparr>clients := tbl\<rparr>" and out: "out = map ?new_row (filter ?target (clients d))"
    by (auto simp: update_clients_def Let_def split: sum.splits if_splits)
  from update_rows_Inr[OF u]
  have ok: "\<forall>r \<in> set (clients d). ?target r \<longrightarrow> (\<exists>r'. ?new r = Inr r')"
    and tbl: "tbl = map (\<lambda>r. if ?target r then projr (?new r) else r) (clients d)"
    by simp_all
  have "tbl = map (\<lambda>c. if ?target c then (upd c)\<lparr>cl_updated_at := Some now\<rparr> else c) (clients d)"
    unfolding tbl using ok
    by (intro map_cong) (auto simp: update_updated_at_column_clients_def split: option.splits)
  then show "clients d' = map (\<lambda>c. if clients_policy auth_uid c \<and> flt c
                                 then (upd c)\<lparr>cl_updated_at := Some now\<rparr> else c) (clients d)"
    by (simp add: d')
  show "out = map (\<lambda>c. (upd c)\<lparr>cl_updated_at := Some now\<rparr>)
                 (filter (\<lambda>c. clients_policy auth_uid c \<and> flt c) (clients d))"
    by (simp add: out update_updated_at_column_clients_def)
qed

lemma update_tasks_Inr:
  assumes "update_tasks auth_uid now flt upd d = Inr (d', out)"
  shows "tasks d' = map (\<lambda>t. if tasks_policy auth_uid d t \<and> flt t
                                 then (upd t)\<lparr>tk_updated_at := Some now\<rparr> else t) (tasks d)"
    and "out = map (\<lambda>t. (upd t)\<lparr>tk_updated_at := Some now\<rparr>)
                 (filter (\<lambda>t. tasks_policy auth_uid d t \<and> flt t) (tasks d))"
proof -
  let ?target = "\<lambda>t. tasks_policy auth_uid d t \<and> flt t"
  let ?new_row = "\<lambda>t. update_updated_at_column_tasks now (upd t)"
  let ?new = "\<lambda>t. case task_row_check auth_uid d (?new_row t) of
                        Some e \<Rightarrow> Inl e | None \<Rightarrow> Inr (?new_row t)"
  from assms obtain tbl where
    u: "update_rows ?target ?new task_key_conflict [] (tasks d) = Inr tbl"
    and d': "d' = d\<lparr>tasks := tbl\<rparr>" and out: "out = map ?new_row (filter ?target (tasks d))"
    by (auto simp: update_tasks_def Let_def split: sum.splits if_splits)
  from update_rows_Inr[OF u]
  have ok: "\<forall>r \<in> set (tasks d). ?target r \<longrightarrow> (\<exists>r'. ?new r = Inr r')"
    and tbl: "tbl = map (\<lambda>r. if ?target r then projr (?new r) else r) (tasks d)"
    by simp_all
  have "tbl = map (\<lambda>t. if ?target t then (upd t)\<lparr>tk_updated_at := Some now\<rparr> else t) (tasks d)"
    unfolding tbl using ok
    by (intro map_cong) (auto simp: update_updated_at_column_tasks_def split: option.splits)
  then show "tasks d' = map (\<lambda>t. if tasks_policy auth_uid d t \<and> flt t
                                 then (upd t)\<lparr>tk_updated_at := Some now\<rparr> else t) (tasks d)"
    by (simp add: d')
  show "out = map (\<lambda>t. (upd t)\<lparr>tk_updated_at := Some now\<rparr>)
                 (filter (\<lambda>t. tasks_policy auth_uid d t \<and> flt t) (tasks d))"
    by (simp add: out update_updated_at_column_tasks_def)
qed

lemma single_Inr: "single rows = Inr r \<longleftrightarrow> rows = [r]"
  by (cases rows rule: single.cases) auto

lemma updateProject_Some:
  assumes "updateProject upstream user ident updates js_now now d = (Some r, d')"
  shows "\<exists>uid. user = Some uid
           \<and> update_projects (Some uid) now (\<lambda>p. pj_id p = ident \<and> pj_user_id p = uid)
                 (apply_project_updates (updates\<lparr>pp_updated_at := Some js_now\<rparr>)) d
               = Inr (d', [r])"
proof -
  from assms obtain uid where u: "user = Some uid"
    by (cases user) (simp_all add: updateProject_def)
  let ?st = "update_projects (Some uid) now (\<lambda>p. pj_id p = ident \<and> pj_user_id p = uid)
                 (apply_project_updates (updates\<lparr>pp_updated_at := Some js_now\<rparr>)) d"
  have up: "(case storage_call upstream ?st of
               Inl e \<Rightarrow> (None, d)
             | Inr (d', rows) \<Rightarrow>
                 (case single rows of Inl e \<Rightarrow> (None, d) | Inr data \<Rightarrow> (Some data, d')))
            = (Some r, d')"
    using assms unfolding u updateProject_def Let_def by simp
  then obtain d1 rows where st: "storage_call upstream ?st = Inr (d1, rows)"
    by (cases "storage_call upstream ?st") auto
  with up have "single rows = Inr r" "d1 = d'"
    by (cases "single rows"; simp)+
  moreover from st have "?st = Inr (d1, rows)"
    by (cases upstream) (simp_all add: storage_call_def)
  ultimately show ?thesis using u by (simp add: single_Inr)
qed

lemmas example_defs = example_db_def example_user_def example_profile_def example_project_def
  example_client_def example_link_def example_task_def example_milestone_def

text \<open>
  An update that leaves the key of every row it changes succeeds row by row when the keys of
  the table are distinct: no new row meets its key in another row.
\<close>

lemma update_rows_keep_key:
  assumes ok: "\<forall>r \<in> set rest. target r \<longrightarrow> (\<exists>r'. new r = Inr r' \<and> key r' = key r)"
    and dist: "distinct (map key (seen @ rest))"
    and C: "\<And>x t. conflict x t = (key x \<in> key ` set t)"
  shows "update_rows target new conflict seen rest
         = Inr (seen @ map (\<lambda>r. if target r then projr (new r) else r) rest)"
  using ok dist
proof (induction rest arbitrary: seen)
  case Nil
  then show ?case by simp
next
  case (Cons r rest)
  from Cons.prems(1) have ok': "\<forall>r \<in> set rest. target r \<longrightarrow> (\<exists>r'. new r = Inr r' \<and> key r' = key r)"
    by simp
  show ?case
  proof (cases "target r")
    case True
    with Cons.prems(1) obtain r' where r': "new r = Inr r'" "key r' = key r" by auto
    have nc: "\<not> conflict r' (seen @ rest)"
      using Cons.prems(2) unfolding C r'(2) by auto
    have d: "distinct (map key ((seen @ [r']) @ rest))"
      using Cons.prems(2) by (simp add: r'(2))
    from Cons.IH[OF ok' d] True r' nc show ?thesis by simp
  next
    case False
    have d: "distinct (map key ((seen @ [r]) @ rest))" using Cons.prems(2) by simp
    from Cons.IH[OF ok' d] False show ?thesis by simp
  qed
qed

lemma map_key_unchanged:
  assumes "\<forall>r \<in> set xs. key (f r) = key r"
  shows "map key (map f xs) = map key xs"
  using assms by (induction xs) simp_all

lemma update_projects_succeeds:
  assumes dist: "distinct (map pj_id (projects d))"
    and keep: "\<forall>p \<in> set (projects d). projects_policy auth_uid p \<and> flt p \<longrightarrow>
                 pj_id (upd p) = pj_id p \<and> pj_user_id (upd p) = pj_user_id p \<and> progress_check (upd p)"
  shows "update_projects auth_uid now flt upd d
         = Inr (d\<lparr>projects := map (\<lambda>p. if projects_policy auth_uid p \<and> flt p
                                         then (upd p)\<lparr>pj_updated_at := Some now\<rparr> else p) (projects d)\<rparr>,
                map (\<lambda>p. (upd p)\<lparr>pj_updated_at := Some now\<rparr>)
                  (filter (\<lambda>p. projects_policy auth_uid p \<and> flt p) (projects d)))"
proof -
  let ?target = "\<lambda>p. projects_policy auth_uid p \<and> flt p"
  let ?new_row = "\<lambda>p. update_updated_at_column_projects now (upd p)"
  let ?new = "\<lambda>p. case project_row_check auth_uid (?new_row p) of
                        Some e \<Rightarrow> Inl e | None \<Rightarrow> Inr (?new_row p)"
  let ?f = "\<lambda>p. if ?target p then (upd p)\<lparr>pj_updated_at := Some now\<rparr> else p"
  have n: "?new p = Inr ((upd p)\<lparr>pj_updated_at := Some now\<rparr>)"
    if "p \<in> set (projects d)" "?target p" for p
    using keep that
    by (simp add: project_row_check_def projects_policy_def progress_check_def
        update_updated_at_column_projects_def)
  have ok: "\<forall>p \<in> set (projects d). ?target p \<longrightarrow> (\<exists>r'. ?new p = Inr r' \<and> pj_id r' = pj_id p)"
    using n keep by simp
  have "update_rows ?target ?new project_key_conflict [] (projects d)
        = Inr ([] @ map (\<lambda>p. if ?target p then projr (?new p) else p) (projects d))"
    using dist by (intro update_rows_keep_key[where key = pj_id] ok) (simp_all add: project_key_conflict_def)
  also have "map (\<lambda>p. if ?target p then projr (?new p) else p) (projects d) = map ?f (projects d)"
    by (intro map_cong refl) (simp add: n)
  finally have u: "update_rows ?target ?new project_key_conflict [] (projects d)
                   = Inr (map ?f (projects d))" by simp
  have "map pj_id (map ?f (projects d)) = map pj_id (projects d)"
    using keep by (intro map_key_unchanged) simp
  then have ids: "pj_id ` set (map ?f (projects d)) = pj_id ` set (projects d)"
    by (metis set_map)
  have fk: "\<not> (\<exists>i \<in> set (referenced_project_ids d).
                i \<in> pj_id ` set (filter ?target (projects d)) \<and> i \<notin> pj_id ` set (map ?f (projects d)))"
    unfolding ids by auto
  show ?thesis
    unfolding update_projects_def Let_def u sum.case using fk
    by (simp add: update_updated_at_column_projects_def)
qed

lemma update_clients_succeeds:
  assumes dist: "distinct (map cl_id (clients d))"
    and keep: "\<forall>c \<in> set (clients d). clients_policy auth_uid c \<and> flt c \<longrightarrow>
                 cl_id (upd c) = cl_id c \<and> cl_user_id (upd c) = cl_user_id c"
  shows "update_clients auth_uid now flt upd d
         = Inr (d\<lparr>clients := map (\<lambda>c. if clients_policy auth_uid c \<and> flt c
                                        then (upd c)\<lparr>cl_updated_at := Some now\<rparr> else c) (clients d)\<rparr>,
                map (\<lambda>c. (upd c)\<lparr>cl_updated_at := Some now\<rparr>)
                  (filter (\<lambda>c. clients_policy auth_uid c \<and> flt c) (clients d)))"
proof -
  let ?target = "\<lambda>c. clients_policy auth_uid c \<and> flt c"
  let ?new_row = "\<lambda>c. update_updated_at_column_clients now (upd c)"
  let ?new = "\<lambda>c. case client_row_check auth_uid (?new_row c) of
                        Some e \<Rightarrow> Inl e | None \<Rightarrow> Inr (?new_row c)"
  let ?f = "\<lambda>c. if ?target c then (upd c)\<lparr>cl_updated_at := Some now\<rparr> else c"
  have n: "?new c = Inr ((upd c)\<lparr>cl_updated_at := Some now\<rparr>)"
    if "c \<in> set (clients d)" "?target c" for c
    using keep that
    by (simp add: client_row_check_def clients_policy_def update_updated_at_column_clients_def)
  have ok: "\<forall>c \<in> set (clients d). ?target c \<longrightarrow> (\<exists>r'. ?new c = Inr r' \<and> cl_id r' = cl_id c)"
    using n keep by simp
  have "update_rows ?target ?new client_key_conflict [] (clients d)
        = Inr ([] @ map (\<lambda>c. if ?target c then projr (?new c) else c) (clients d))"
    using dist by (intro update_rows_keep_key[where key = cl_id] ok) (simp_all add: client_key_conflict_def)
  also have "map (\<lambda>c. if ?target c then projr (?new c) else c) (clients d) = map ?f (clients d)"
    by (intro map_cong refl) (simp add: n)
  finally have u: "update_rows ?target ?new client_key_conflict [] (clients d)
                   = Inr (map ?f (clients d))" by simp
  have "map cl_id (map ?f (clients d)) = map cl_id (clients d)"
    using keep by (intro map_key_unchanged) simp
  then have ids: "cl_id ` set (map ?f (clients d)) = cl_id ` set (clients d)"
    by (metis set_map)
  have fk: "\<not> (\<exists>i \<in> set (map pc_client_id (project_clients d)).
                i \<in> cl_id ` set (filter ?target (clients d)) \<and> i \<notin> cl_id ` set (map ?f (clients d)))"
    unfolding ids by auto
  show ?thesis
    unfolding update_clients_def Let_def u sum.case using fk
    by (simp add: update_updated_at_column_clients_def)
qed

lemma update_tasks_succeeds:
  assumes dist: "distinct (map tk_id (tasks d))"
    and keep: "\<forall>t \<in> set (tasks d). tasks_policy auth_uid d t \<and> flt t \<longrightarrow>
                 tk_id (upd t) = tk_id t \<and> tk_project_id (upd t) = tk_project_id t
                 \<and> priority_check (upd t)"
  shows "update_tasks auth_uid now flt upd d
         = Inr (d\<lparr>tasks := map (\<lambda>t. if tasks_policy auth_uid d t \<and> flt t
                                      then (upd t)\<lparr>tk_updated_at := Some now\<rparr> else t) (tasks d)\<rparr>,
                map (\<lambda>t. (upd t)\<lparr>tk_updated_at := Some now\<rparr>)
                  (filter (\<lambda>t. tasks_policy auth_uid d t \<and> flt t) (tasks d)))"
proof -
  let ?target = "\<lambda>t. tasks_policy auth_uid d t \<and> flt t"
  let ?new_row = "\<lambda>t. update_updated_at_column_tasks now (upd t)"
  let ?new = "\<lambda>t. case task_row_check auth_uid d (?new_row t) of
                        Some e \<Rightarrow> Inl e | None \<Rightarrow> Inr (?new_row t)"
  let ?f = "\<lambda>t. if ?target t then (upd t)\<lparr>tk_updated_at := Some now\<rparr> else t"
  have n: "?new t = Inr ((upd t)\<lparr>tk_updated_at := Some now\<rparr>)"
    if "t \<in> set (tasks d)" "?target t" for t
    using keep that
    by (simp add: task_row_check_def tasks_policy_def priority_check_def
        update_updated_at_column_tasks_def)
  have ok: "\<forall>t \<in> set (tasks d). ?target t \<longrightarrow> (\<exists>r'. ?new t = Inr r' \<and> tk_id r' = tk_id t)"
    using n keep by simp
  have "update_rows ?target ?new task_key_conflict [] (tasks d)
        = Inr ([] @ map (\<lambda>t. if ?target t then projr (?new t) else t) (tasks d))"
    using dist by (intro update_rows_keep_key[where key = tk_id] ok) (simp_all add: task_key_conflict_def)
  also have "map (\<lambda>t. if ?target t then projr (?new t) else t) (tasks d) = map ?f (tasks d)"
    by (intro map_cong refl) (simp add: n)
  finally have u: "update_rows ?target ?new task_key_conflict [] (tasks d)
                   = Inr (map ?f (tasks d))" by simp
  show ?thesis
    unfolding update_tasks_def Let_def u sum.case
    by (simp add: update_updated_at_column_tasks_def)
qed

section \<open>Numeric arithmetic: scale and rounding\<close>

declare weight.simps [simp del] firstdigit.simps [simp del]

lemma weight_mono: "a \<le> b \<Longrightarrow> weight a \<le> weight b"
proof (induction b arbitrary: a rule: weight.induct)
  case (1 n)
  show ?case
  proof (cases "n < 10000")
    case True
    with 1 show ?thesis by (simp add: weight.simps)
  next
    case False
    show ?thesis
    proof (cases "a < 10000")
      case True
      then show ?thesis by (simp add: weight.simps[of a])
    next
      case F2: False
      have "a div 10000 \<le> n div 10000" using "1.prems" by (simp add: div_le_mono)
      from "1.IH"[OF False this] show ?thesis using False F2
        by (simp add: weight.simps[of a] weight.simps[of n])
    qed
  qed
qed

lemma firstdigit_mono:
  "a \<le> b \<Longrightarrow> weight a = weight b \<Longrightarrow> firstdigit a \<le> firstdigit b"
proof (induction b arbitrary: a rule: weight.induct)
  case (1 n)
  show ?case
  proof (cases "n < 10000")
    case True
    with 1 show ?thesis by (simp add: firstdigit.simps)
  next
    case False
    show ?thesis
    proof (cases "a < 10000")
      case True
      then show ?thesis using "1.prems" False by (simp add: weight.simps[of a] weight.simps[of n])
    next
      case F2: False
      have le: "a div 10000 \<le> n div 10000" using "1.prems" by (simp add: div_le_mono)
      have w: "weight (a div 10000) = weight (n div 10000)"
        using "1.prems" False F2 by (simp add: weight.simps[of a] weight.simps[of n])
      from "1.IH"[OF False le w] show ?thesis using False F2
        by (simp add: firstdigit.simps[of a] firstdigit.simps[of n])
    qed
  qed
qed

lemma select_div_scale_ge:
  assumes "0 \<le> a" "a \<le> b"
  shows "20 \<le> select_div_scale a b"
proof -
  have le: "nat \<bar>a\<bar> \<le> nat \<bar>b\<bar>" using assms by simp
  have wm: "weight (nat \<bar>a\<bar>) \<le> weight (nat \<bar>b\<bar>)" by (rule weight_mono[OF le])
  define q where "q = int (weight (nat \<bar>a\<bar>)) - int (weight (nat \<bar>b\<bar>))
                    - (if firstdigit (nat \<bar>a\<bar>) \<le> firstdigit (nat \<bar>b\<bar>) then 1 else 0)"
  have "q \<le> -1"
  proof (cases "weight (nat \<bar>a\<bar>) = weight (nat \<bar>b\<bar>)")
    case True
    then show ?thesis using firstdigit_mono[OF le True] by (simp add: q_def)
  next
    case False
    then show ?thesis using wm by (simp add: q_def)
  qed
  then have "20 \<le> min (max (16 - q * 4) 0) 1000" by simp
  then have "20 \<le> nat (min (max (16 - q * 4) 0) 1000)" by simp
  then show ?thesis
    unfolding select_div_scale_def Let_def q_def .
qed

lemma round_div_nonneg: "0 \<le> a \<Longrightarrow> 0 < b \<Longrightarrow> round_div a b = (2 * a + b) div (2 * b)"
  by (cases "a = 0") (simp_all add: round_div_def)

lemma int_div_bounds:
  fixes a b :: int
  assumes "0 < b"
  shows "b * (a div b) \<le> a" and "a < b * (a div b) + b"
proof -
  have e: "a = b * (a div b) + a mod b" by simp
  have "0 \<le> a mod b" "a mod b < b" using assms by simp_all
  then show "b * (a div b) \<le> a" and "a < b * (a div b) + b" using e by linarith+
qed

lemma int_div_eqI:
  fixes a b q :: int
  assumes "0 < b" "b * q \<le> a" "a < b * q + b"
  shows "a div b = q"
proof -
  have "a = b * q + (a - b * q)" by simp
  moreover have "0 \<le> a - b * q" using assms by simp
  moreover have "a - b * q < b" using assms by simp
  ultimately show ?thesis using int_div_pos_eq by blast
qed

lemma round_twice:
  fixes c t E :: int
  assumes c: "0 \<le> c" and t: "0 < t" and E: "100 * t < E" and d: "200 dvd E"
  shows "(200 * ((2 * (c * E) + t) div (2 * t)) + E) div (2 * E) = (200 * c + t) div (2 * t)"
proof -
  define R where "R = (200 * c + t) div (2 * t)"
  define N where "N = (2 * (c * E) + t) div (2 * t)"
  have Epos: "0 < E" using t E by linarith
  have t2: "0 < 2 * t" using t by simp
  have A1: "2 * t * R \<le> 200 * c + t" and A2: "200 * c + t < 2 * t * R + 2 * t"
    unfolding R_def using int_div_bounds[OF t2, of "200 * c + t"] by simp_all
  have B1: "2 * t * N \<le> 2 * (c * E) + t" and B2: "2 * (c * E) + t < 2 * t * N + 2 * t"
    unfolding N_def using int_div_bounds[OF t2, of "2 * (c * E) + t"] by simp_all
  \<comment> \<open>upper bound\<close>
  have "(200 * c) * E \<le> (2 * t * R + t - 1) * E"
    using A2 Epos by (intro mult_right_mono) simp_all
  then have U0: "200 * (c * E) \<le> 2 * (t * (R * E)) + t * E - E"
    by (simp add: algebra_simps)
  have U1: "200 * (t * N) \<le> 200 * (c * E) + 100 * t" using B1 by simp
  have upper: "t * (200 * N + E) < t * (2 * E * R + 2 * E)"
    using U0 U1 E by (simp add: algebra_simps)
  \<comment> \<open>lower bound\<close>
  have lower: "t * (2 * E * R) \<le> t * (200 * N + E)"
  proof (cases "200 * c + t = 2 * t * R")
    case True
    obtain k where k: "E = 200 * k" using d by (auto simp: dvd_def)
    have "t * (2 * R - 1) = 200 * c" using True by (simp add: algebra_simps)
    then have "c * E = t * ((2 * R - 1) * k)" by (simp add: k mult.assoc [symmetric]) 
    then have "2 * (c * E) + t = 2 * t * ((2 * R - 1) * k) + t" by simp
    then have "N = (2 * R - 1) * k"
      unfolding N_def using t by (intro int_div_eqI) simp_all
    then have "200 * N + E = 2 * E * R" by (simp add: k algebra_simps)
    then show ?thesis by simp
  next
    case False
    with A1 have "2 * t * R - t + 1 \<le> 200 * c" by simp
    then have "(2 * t * R - t + 1) * E \<le> (200 * c) * E"
      using Epos by (intro mult_right_mono) simp_all
    then have L0: "2 * (t * (R * E)) - t * E + E \<le> 200 * (c * E)"
      by (simp add: algebra_simps)
    have L1: "200 * (c * E) - 100 * t + 100 \<le> 200 * (t * N)" using B2 by simp
    show ?thesis using L0 L1 E by (simp add: algebra_simps)
  qed
  have lo: "2 * E * R \<le> 200 * N + E" using lower t by simp
  have up: "200 * N + E < 2 * E * R + 2 * E" using upper t by simp
  have "(200 * N + E) div (2 * E) = R"
    using Epos lo up by (intro int_div_eqI) simp_all
  then show ?thesis by (simp add: N_def R_def)
qed

lemma computeProgress_spec_div:
  assumes "0 < t"
  shows "computeProgress_spec c t = (200 * int c + int t) div (2 * int t)"
proof -
  have "100 * (of_nat c / of_nat t :: rat) + 1 / 2 = of_int (200 * int c + int t) / of_int (2 * int t)"
    using assms by (simp add: field_simps)
  then show ?thesis
    using assms by (simp add: computeProgress_spec_def floor_divide_of_int_eq del: of_int_add of_int_mult)
qed

lemma progress_expression:
  fixes c t :: int
  assumes c: "0 \<le> c" and ct: "c \<le> t" and t: "0 < t" and tmax: "t \<le> int4_max"
  shows "numeric_round (numeric_mul_int (numeric_div_int c t) 100) = (200 * c + t) div (2 * t)"
proof -
  define s where "s = select_div_scale c t"
  define E :: int where "E = 10 ^ s"
  have s20: "20 \<le> s" unfolding s_def by (rule select_div_scale_ge[OF c ct])
  have "(10::int) ^ 20 \<le> 10 ^ s" using s20 by (intro power_increasing) simp_all
  then have big: "100 * t < E" using tmax by (simp add: E_def int4_max_def)
  have "(10::int) ^ 3 dvd 10 ^ s" using s20 by (intro le_imp_power_dvd) simp
  moreover have "(200::int) dvd 10 ^ 3" by simp
  ultimately have d: "200 dvd E" unfolding E_def by (rule dvd_trans[rotated])
  have Epos: "0 < E" by (simp add: E_def)
  have n0: "0 \<le> (2 * (c * E) + t) div (2 * t)"
    using c t Epos by (intro pos_imp_zdiv_nonneg_iff[THEN iffD2]) simp_all
  have "numeric_round (numeric_mul_int (numeric_div_int c t) 100)
        = round_div (round_div (c * E) t * 100) E"
    by (simp add: numeric_round_def numeric_mul_int_def numeric_div_int_def Let_def s_def E_def)
  also have "round_div (c * E) t = (2 * (c * E) + t) div (2 * t)"
    using c t Epos by (intro round_div_nonneg) simp_all
  also have "round_div ((2 * (c * E) + t) div (2 * t) * 100) E
             = (200 * ((2 * (c * E) + t) div (2 * t)) + E) div (2 * E)"
    using n0 Epos by (simp add: round_div_nonneg)
  also have "\<dots> = (200 * c + t) div (2 * t)"
    by (rule round_twice[OF c t big d])
  finally show ?thesis .
qed

lemma half_up_bounds:
  fixes c t :: int
  assumes "0 \<le> c" "c \<le> t" "0 < t"
  shows "0 \<le> (200 * c + t) div (2 * t)" and "(200 * c + t) div (2 * t) \<le> 100"
proof -
  show "0 \<le> (200 * c + t) div (2 * t)"
    using assms by (intro pos_imp_zdiv_nonneg_iff[THEN iffD2]) simp_all
  have "(200 * c + t) div (2 * t) \<le> (200 * t + t) div (2 * t)"
    using assms by (intro zdiv_mono1) simp_all
  also have "(200 * t + t) div (2 * t) = 100"
    using assms by (intro int_div_eqI) simp_all
  finally show "(200 * c + t) div (2 * t) \<le> 100" .
qed

lemma calculate_project_progress_eq:
  assumes "length (project_tasks tasks_tbl pid) \<le> 2147483647"
  shows "calculate_project_progress tasks_tbl pid =
         Inr (computeProgress_spec (length (completed_tasks_of tasks_tbl pid))
                (length (project_tasks tasks_tbl pid)))"
proof (cases "project_tasks tasks_tbl pid = []")
  case True
  then show ?thesis
    by (simp add: calculate_project_progress_def computeProgress_spec_def project_tasks_def int4_max_def)
next
  case False
  define t where "t = length (project_tasks tasks_tbl pid)"
  define c where "c = length (completed_tasks_of tasks_tbl pid)"
  have tpos: "0 < t" using False by (simp add: t_def)
  have cf: "filter (\<lambda>t. tk_project_id t = pid \<and> tk_completed t = Some True) tasks_tbl
            = completed_tasks_of tasks_tbl pid"
    by (simp add: completed_tasks_of_def project_tasks_def conj_commute)
  have ct: "c \<le> t" by (simp add: c_def t_def completed_tasks_of_def)
  have "numeric_round (numeric_mul_int (numeric_div_int (int c) (int t)) 100)
        = (200 * int c + int t) div (2 * int t)"
    using assms ct tpos by (intro progress_expression) (simp_all add: int4_max_def t_def)
  then show ?thesis
    using assms tpos
    by (simp add: calculate_project_progress_def Let_def cf computeProgress_spec_div int4_max_def
        flip: t_def c_def project_tasks_def)
qed

section \<open>C3: the derived progress is the rounded completion ratio\<close>

text \<open>
  Claim C3. For every project and its task set (of at most \<open>2\<^sup>3\<^sup>1 - 1\<close> tasks, the range of
  the function's \<^verbatim>\<open>INTEGER\<close> counters), \<^verbatim>\<open>calculate_project_progress\<close> returns 0 when the
  project has no task and otherwise \<open>100 * completed / total\<close> rounded half up; it returns 75
  for 4 tasks with 3 done and 33 for 3 tasks with 1 done, and the result lies in \<open>[0, 100]\<close>.
  The quotient is a \<^verbatim>\<open>numeric\<close> rounded to at least 20 decimal places before it is multiplied
  and rounded again; within the counter range the two roundings agree with a single one.
\<close>

theorem calculate_project_progress_correct:
  assumes "length (project_tasks tasks_tbl pid) \<le> 2147483647"
  shows "calculate_project_progress tasks_tbl pid =
           Inr (computeProgress_spec (length (completed_tasks_of tasks_tbl pid))
                  (length (project_tasks tasks_tbl pid)))
       \<and> (project_tasks tasks_tbl pid = [] \<longrightarrow> calculate_project_progress tasks_tbl pid = Inr 0)
       \<and> (length (project_tasks tasks_tbl pid) = 4 \<and> length (completed_tasks_of tasks_tbl pid) = 3
            \<longrightarrow> calculate_project_progress tasks_tbl pid = Inr 75)
       \<and> (length (project_tasks tasks_tbl pid) = 3 \<and> length (completed_tasks_of tasks_tbl pid) = 1
            \<longrightarrow> calculate_project_progress tasks_tbl pid = Inr 33)
       \<and> (\<exists>v. calculate_project_progress tasks_tbl pid = Inr v \<and> 0 \<le> v \<and> v \<le> 100)"
proof -
  let ?t = "length (project_tasks tasks_tbl pid)"
  let ?c = "length (completed_tasks_of tasks_tbl pid)"
  note eq = calculate_project_progress_eq[OF assms]
  have ct: "?c \<le> ?t" by (simp add: completed_tasks_of_def)
  have zero: "project_tasks tasks_tbl pid = [] \<longrightarrow> calculate_project_progress tasks_tbl pid = Inr 0"
    by (simp add: eq computeProgress_spec_def)
  have c75: "?t = 4 \<and> ?c = 3 \<longrightarrow> calculate_project_progress tasks_tbl pid = Inr 75"
    by (simp add: eq computeProgress_spec_div)
  have c33: "?t = 3 \<and> ?c = 1 \<longrightarrow> calculate_project_progress tasks_tbl pid = Inr 33"
    by (simp add: eq computeProgress_spec_div)
  have rng: "0 \<le> computeProgress_spec ?c ?t \<and> computeProgress_spec ?c ?t \<le> 100"
  proof (cases "?t = 0")
    case True
    then show ?thesis by (simp add: computeProgress_spec_def)
  next
    case False
    then show ?thesis
      using half_up_bounds[of "int ?c" "int ?t"] ct by (simp add: computeProgress_spec_div)
  qed
  show ?thesis using eq zero c75 c33 rng by blast
qed

theorem calculate_project_progress_correct_witness:
  "calculate_project_progress
     [example_task 1 7 (Some True), example_task 2 7 (Some False), example_task 3 8 (Some True),
      example_task 4 7 None] 7 = Inr 33"
proof -
  let ?tbl = "[example_task 1 7 (Some True), example_task 2 7 (Some False),
               example_task 3 8 (Some True), example_task 4 7 None]"
  have len: "length (project_tasks ?tbl 7) \<le> 2147483647"
    by (simp add: project_tasks_def example_task_def)
  have "length (project_tasks ?tbl 7) = 3 \<and> length (completed_tasks_of ?tbl 7) = 1"
    by (simp add: project_tasks_def completed_tasks_of_def example_task_def)
  with calculate_project_progress_correct[OF len] show ?thesis by blast
qed

section \<open>C2: deleting an identity removes all it owns\<close>

lemma projects_delete_profiles_where:
  "projects (delete_profiles_where P d) =
     filter (\<lambda>p. pj_user_id p \<notin> pf_id ` {q \<in> set (profiles d). P q}) (projects d)"
  by (simp add: delete_profiles_where_def cascade_profiles_def delete_clients_where_def
      delete_projects_where_def cascade_clients_def cascade_projects_def)

lemma clients_delete_profiles_where:
  "clients (delete_profiles_where P d) =
     filter (\<lambda>c. cl_user_id c \<notin> pf_id ` {q \<in> set (profiles d). P q}) (clients d)"
  by (simp add: delete_profiles_where_def cascade_profiles_def delete_clients_where_def
      delete_projects_where_def cascade_clients_def cascade_projects_def)

lemma profiles_delete_profiles_where:
  "profiles (delete_profiles_where P d) = filter (\<lambda>p. \<not> P p) (profiles d)"
  by (simp add: delete_profiles_where_def cascade_profiles_def delete_clients_where_def
      delete_projects_where_def cascade_clients_def cascade_projects_def)

lemma tasks_delete_profiles_where:
  "tasks (delete_profiles_where P d) =
     filter (\<lambda>t. tk_project_id t \<notin>
        pj_id ` {p \<in> set (projects d). pj_user_id p \<in> pf_id ` {q \<in> set (profiles d). P q}}) (tasks d)"
  by (simp add: delete_profiles_where_def cascade_profiles_def delete_clients_where_def
      delete_projects_where_def cascade_clients_def cascade_projects_def)

lemma timeline_delete_profiles_where:
  "project_timeline (delete_profiles_where P d) =
     filter (\<lambda>t. tl_project_id t \<notin>
        pj_id ` {p \<in> set (projects d). pj_user_id p \<in> pf_id ` {q \<in> set (profiles d). P q}}) (project_timeline d)"
  by (simp add: delete_profiles_where_def cascade_profiles_def delete_clients_where_def
      delete_projects_where_def cascade_clients_def cascade_projects_def)

lemma links_delete_profiles_where:
  "project_clients (delete_profiles_where P d) =
     filter (\<lambda>l. pc_client_id l \<notin>
        cl_id ` {c \<in> set (clients d). cl_user_id c \<in> pf_id ` {q \<in> set (profiles d). P q}})
     (filter (\<lambda>l. pc_project_id l \<notin>
        pj_id ` {p \<in> set (projects d). pj_user_id p \<in> pf_id ` {q \<in> set (profiles d). P q}}) (project_clients d))"
  by (simp add: delete_profiles_where_def cascade_profiles_def delete_clients_where_def
      delete_projects_where_def cascade_clients_def cascade_projects_def)

lemma image_owner_eq:
  "uid \<in> pf_id ` set (profiles d) \<Longrightarrow> pf_id ` {q \<in> set (profiles d). pf_id q = uid} = {uid}"
  by auto

lemma delete_identity_tables:
  assumes "uid \<in> au_id ` set (auth_users d)"
  shows "profiles (delete_identity uid d) = profiles (delete_profile uid d)"
    and "projects (delete_identity uid d) = projects (delete_profile uid d)"
    and "clients (delete_identity uid d) = clients (delete_profile uid d)"
    and "tasks (delete_identity uid d) = tasks (delete_profile uid d)"
    and "project_timeline (delete_identity uid d) = project_timeline (delete_profile uid d)"
    and "project_clients (delete_identity uid d) = project_clients (delete_profile uid d)"
proof -
  have "set (map au_id (filter (\<lambda>u. au_id u = uid) (auth_users d))) = {uid}"
    using assms by auto
  then have P: "(\<lambda>p. pf_id p \<in> set (map au_id (filter (\<lambda>u. au_id u = uid) (auth_users d))))
                = (\<lambda>p. pf_id p = uid)"
    by simp
  show "profiles (delete_identity uid d) = profiles (delete_profile uid d)"
    and "projects (delete_identity uid d) = projects (delete_profile uid d)"
    and "clients (delete_identity uid d) = clients (delete_profile uid d)"
    and "tasks (delete_identity uid d) = tasks (delete_profile uid d)"
    and "project_timeline (delete_identity uid d) = project_timeline (delete_profile uid d)"
    and "project_clients (delete_identity uid d) = project_clients (delete_profile uid d)"
    unfolding delete_identity_def delete_auth_users_where_def Let_def P delete_profile_def
    by (simp_all add: profiles_delete_profiles_where projects_delete_profiles_where
        clients_delete_profiles_where tasks_delete_profiles_where timeline_delete_profiles_where
        links_delete_profiles_where)
qed

lemma delete_profile_tables:
  assumes ex: "uid \<in> pf_id ` set (profiles d)"
  shows "profiles (delete_profile uid d) = filter (\<lambda>p. pf_id p \<noteq> uid) (profiles d)"
    and "projects (delete_profile uid d) = filter (\<lambda>p. pj_user_id p \<noteq> uid) (projects d)"
    and "clients (delete_profile uid d) = filter (\<lambda>c. cl_user_id c \<noteq> uid) (clients d)"
    and "tasks (delete_profile uid d) =
           filter (\<lambda>t. \<not> (\<exists>p \<in> set (projects d). pj_user_id p = uid \<and> pj_id p = tk_project_id t))
             (tasks d)"
    and "project_timeline (delete_profile uid d) =
           filter (\<lambda>e. \<not> (\<exists>p \<in> set (projects d). pj_user_id p = uid \<and> pj_id p = tl_project_id e))
             (project_timeline d)"
    and "project_clients (delete_profile uid d) =
           filter (\<lambda>l. \<not> (\<exists>p \<in> set (projects d). pj_user_id p = uid \<and> pj_id p = pc_project_id l)
                     \<and> \<not> (\<exists>c \<in> set (clients d). cl_user_id c = uid \<and> cl_id c = pc_client_id l))
             (project_clients d)"
proof -
  note o = image_owner_eq[OF ex]
  show "profiles (delete_profile uid d) = filter (\<lambda>p. pf_id p \<noteq> uid) (profiles d)"
    by (simp add: delete_profile_def profiles_delete_profiles_where)
  show "projects (delete_profile uid d) = filter (\<lambda>p. pj_user_id p \<noteq> uid) (projects d)"
    unfolding delete_profile_def projects_delete_profiles_where o by simp
  show "clients (delete_profile uid d) = filter (\<lambda>c. cl_user_id c \<noteq> uid) (clients d)"
    unfolding delete_profile_def clients_delete_profiles_where o by simp
  show "tasks (delete_profile uid d) =
           filter (\<lambda>t. \<not> (\<exists>p \<in> set (projects d). pj_user_id p = uid \<and> pj_id p = tk_project_id t))
             (tasks d)"
    unfolding delete_profile_def tasks_delete_profiles_where o
    by (rule filter_cong) (auto simp: image_iff)
  show "project_timeline (delete_profile uid d) =
           filter (\<lambda>e. \<not> (\<exists>p \<in> set (projects d). pj_user_id p = uid \<and> pj_id p = tl_project_id e))
             (project_timeline d)"
    unfolding delete_profile_def timeline_delete_profiles_where o
    by (rule filter_cong) (auto simp: image_iff)
  show "project_clients (delete_profile uid d) =
           filter (\<lambda>l. \<not> (\<exists>p \<in> set (projects d). pj_user_id p = uid \<and> pj_id p = pc_project_id l)
                     \<and> \<not> (\<exists>c \<in> set (clients d). cl_user_id c = uid \<and> cl_id c = pc_client_id l))
             (project_clients d)"
    unfolding delete_profile_def links_delete_profiles_where o filter_filter
    by (rule filter_cong) (auto simp: image_iff)
qed

text \<open>
  Claim C2. Deleting an existing identity (its \<^verbatim>\<open>profiles\<close> row, directly or through the
  cascade from its \<^verbatim>\<open>auth.users\<close> row) deletes every client and every project it owns, every
  task, timeline entry and project-client link of those projects, and every link of those
  clients: afterwards no row refers to the identity, directly or through a project or client
  it owned. The projects and clients that remain are exactly those of the other identities.
\<close>

theorem delete_identity_cascade_complete:
  assumes ex: "uid \<in> pf_id ` set (profiles d)"
      and del: "d' = delete_profile uid d
                \<or> (uid \<in> au_id ` set (auth_users d) \<and> d' = delete_identity uid d)"
  shows "(\<forall>p \<in> set (profiles d'). pf_id p \<noteq> uid)
       \<and> (\<forall>p \<in> set (projects d'). pj_user_id p \<noteq> uid)
       \<and> (\<forall>c \<in> set (clients d'). cl_user_id c \<noteq> uid)
       \<and> (\<forall>p \<in> set (projects d). pj_user_id p = uid \<longrightarrow>
             (\<forall>t \<in> set (tasks d'). tk_project_id t \<noteq> pj_id p)
           \<and> (\<forall>e \<in> set (project_timeline d'). tl_project_id e \<noteq> pj_id p)
           \<and> (\<forall>l \<in> set (project_clients d'). pc_project_id l \<noteq> pj_id p))
       \<and> (\<forall>c \<in> set (clients d). cl_user_id c = uid \<longrightarrow>
             (\<forall>l \<in> set (project_clients d'). pc_client_id l \<noteq> cl_id c))
       \<and> projects d' = filter (\<lambda>p. pj_user_id p \<noteq> uid) (projects d)
       \<and> clients d' = filter (\<lambda>c. cl_user_id c \<noteq> uid) (clients d)"
proof -
  have t: "profiles d' = profiles (delete_profile uid d)"
          "projects d' = projects (delete_profile uid d)"
          "clients d' = clients (delete_profile uid d)"
          "tasks d' = tasks (delete_profile uid d)"
          "project_timeline d' = project_timeline (delete_profile uid d)"
          "project_clients d' = project_clients (delete_profile uid d)"
    using del delete_identity_tables[of uid d] by auto
  show ?thesis
    unfolding t delete_profile_tables[OF ex] by auto
qed

theorem delete_identity_cascade_complete_witness:
  "1 \<in> pf_id ` set (profiles example_db)
   \<and> 1 \<in> au_id ` set (auth_users example_db)
   \<and> projects (delete_identity 1 example_db) = [example_project 20 2]
   \<and> clients (delete_identity 1 example_db) = [example_client 200 2]
   \<and> project_clients (delete_identity 1 example_db) = [example_link 1002 20 200]
   \<and> tasks (delete_identity 1 example_db) = [example_task 2 20 (Some False)]"
proof -
  have ex: "1 \<in> pf_id ` set (profiles example_db)"
    by (simp add: example_db_def example_profile_def)
  have au: "1 \<in> au_id ` set (auth_users example_db)"
    by (simp add: example_db_def example_user_def)
  have ev: "project_clients (delete_identity 1 example_db) = [example_link 1002 20 200]"
    "tasks (delete_identity 1 example_db) = [example_task 2 20 (Some False)]"
    by (simp_all add: delete_identity_def delete_auth_users_where_def delete_profiles_where_def
        cascade_profiles_def delete_clients_where_def delete_projects_where_def cascade_clients_def
        cascade_projects_def example_db_def example_user_def example_profile_def
        example_project_def example_client_def example_link_def example_task_def
        example_milestone_def Let_def)
  from delete_identity_cascade_complete[of 1 example_db "delete_identity 1 example_db"] ex au
  have r: "projects (delete_identity 1 example_db) = filter (\<lambda>p. pj_user_id p \<noteq> 1) (projects example_db)"
    "clients (delete_identity 1 example_db) = filter (\<lambda>c. cl_user_id c \<noteq> 1) (clients example_db)"
    by blast+
  have "projects (delete_identity 1 example_db) = [example_project 20 2]"
    unfolding r(1) by (simp add: example_db_def example_project_def)
  moreover have "clients (delete_identity 1 example_db) = [example_client 200 2]"
    unfolding r(2) by (simp add: example_db_def example_client_def)
  ultimately show ?thesis using ex au ev by blast
qed

section \<open>C7: one link per project and client\<close>

lemma insert_rows_Inr_no_conflict:
  assumes "insert_rows chk conflict tbl rows = Inr tbl'"
    and mono: "\<And>r xs ys. conflict r xs \<Longrightarrow> conflict r (xs @ ys)"
  shows "\<forall>r \<in> set rows. \<not> conflict r tbl"
  using assms(1)
proof (induction rows arbitrary: tbl)
  case Nil
  then show ?case by simp
next
  case (Cons r rs)
  from Cons.prems have c: "chk r = None" "\<not> conflict r tbl"
    and rest: "insert_rows chk conflict (tbl @ [r]) rs = Inr tbl'"
    by (auto split: option.splits if_splits)
  from Cons.IH[OF rest] have "\<forall>x \<in> set rs. \<not> conflict x (tbl @ [r])" .
  with mono have "\<forall>x \<in> set rs. \<not> conflict x tbl" by blast
  with c show ?case by simp
qed

lemma pair_conflictI:
  assumes "l \<in> set tbl" "pc_project_id l = pc_project_id r" "pc_client_id l = pc_client_id r"
  shows "project_client_key_conflict r tbl"
proof -
  have "(pc_project_id r, pc_client_id r) \<in> (\<lambda>x. (pc_project_id x, pc_client_id x)) ` set tbl"
    using assms by (intro image_eqI[where x = l]) simp_all
  then show ?thesis by (simp add: project_client_key_conflict_def)
qed

lemma owns_project_exists:
  "owns_project auth_uid d pid \<Longrightarrow> pid \<in> pj_id ` set (projects d)"
  unfolding owns_project_def by (auto intro: image_eqI[rotated])

lemma project_client_key_conflict_mono:
  "project_client_key_conflict r xs \<Longrightarrow> project_client_key_conflict r (xs @ ys)"
  by (auto simp: project_client_key_conflict_def)

lemma insert_project_clients_duplicate_fails:
  assumes "r \<in> set rows"
    and "\<exists>l \<in> set (project_clients d). pc_project_id l = pc_project_id r \<and> pc_client_id l = pc_client_id r"
  shows "isl (insert_project_clients auth_uid rows d)"
proof (rule ccontr)
  assume "\<not> isl (insert_project_clients auth_uid rows d)"
  then obtain tbl where
    "insert_rows (project_client_row_check auth_uid d) project_client_key_conflict
       (project_clients d) rows = Inr tbl"
    by (auto simp: insert_project_clients_def split: sum.splits if_splits)
  from insert_rows_Inr_no_conflict[OF this project_client_key_conflict_mono] assms(1)
  have "\<not> project_client_key_conflict r (project_clients d)" by blast
  with assms(2) show False
    by (blast intro: pair_conflictI)
qed

lemma insert_project_clients_single_duplicate:
  assumes "owns_project auth_uid d (pc_project_id new)"
    and "\<exists>l \<in> set (project_clients d). pc_project_id l = pc_project_id new \<and> pc_client_id l = pc_client_id new"
  shows "insert_project_clients auth_uid [new] d = Inl (ConstraintViolation Unique)"
proof -
  have "project_client_key_conflict new (project_clients d)"
    using assms(2) by (blast intro: pair_conflictI)
  then show ?thesis
    using assms(1)
    by (simp add: insert_project_clients_def project_client_row_check_def
        project_clients_policy_def)
qed

lemma insert_after_delete:
  assumes own: "owns_project auth_uid d (pc_project_id new)"
    and cl: "pc_client_id new \<in> cl_id ` set (clients d)"
    and fresh: "pc_id new \<notin> pc_id ` set (project_clients d)"
  shows "insert_project_clients auth_uid [new]
           (delete_project_clients auth_uid
              (\<lambda>l. pc_project_id l = pc_project_id new \<and> pc_client_id l = pc_client_id new) d)
         = Inr (d\<lparr>project_clients :=
                   filter (\<lambda>l. \<not> (pc_project_id l = pc_project_id new \<and> pc_client_id l = pc_client_id new))
                     (project_clients d) @ [new]\<rparr>)"
proof -
  let ?flt = "\<lambda>l. pc_project_id l = pc_project_id new \<and> pc_client_id l = pc_client_id new"
  let ?d1 = "delete_project_clients auth_uid ?flt d"
  have own1: "owns_project auth_uid ?d1 (pc_project_id new)"
    using own by (simp add: owns_project_def delete_project_clients_def)
  have tbl: "project_clients ?d1 = filter (\<lambda>l. \<not> ?flt l) (project_clients d)"
    unfolding delete_project_clients_def
    using own by (auto simp: project_clients_policy_def intro!: filter_cong)
  have nc: "\<not> project_client_key_conflict new (project_clients ?d1)"
    unfolding tbl project_client_key_conflict_def using fresh by auto
  have pj: "pc_project_id new \<in> pj_id ` set (projects ?d1)"
    using owns_project_exists[OF own] by (simp add: delete_project_clients_def)
  have cl1: "pc_client_id new \<in> cl_id ` set (clients ?d1)"
    using cl by (simp add: delete_project_clients_def)
  show ?thesis
    using own1 nc pj cl1
    by (simp add: insert_project_clients_def project_client_row_check_def
        project_clients_policy_def tbl) (simp add: delete_project_clients_def)
qed

text \<open>
  Claim C7. While a link with a pair \<open>(project_id, client_id)\<close> exists, a caller who owns the
  project cannot insert a second link with that pair: the statement fails with a unique
  violation and the store stays as it was, also when the duplicate is one row of a larger
  \<^verbatim>\<open>INSERT\<close> (no row of a failed statement is written). Once the links with that pair are
  deleted, inserting the pair under a fresh id succeeds, provided the client still exists.
\<close>

theorem project_client_pair_unique:
  assumes own: "owns_project auth_uid d (pc_project_id new)"
  shows "((\<exists>l \<in> set (project_clients d).
             pc_project_id l = pc_project_id new \<and> pc_client_id l = pc_client_id new) \<longrightarrow>
            insert_project_clients auth_uid [new] d = Inl (ConstraintViolation Unique)
          \<and> store_after d (insert_project_clients auth_uid [new] d) = d
          \<and> (\<forall>rows. new \<in> set rows \<longrightarrow>
                 isl (insert_project_clients auth_uid rows d)
               \<and> store_after d (insert_project_clients auth_uid rows d) = d))
       \<and> (pc_client_id new \<in> cl_id ` set (clients d)
             \<and> pc_id new \<notin> pc_id ` set (project_clients d) \<longrightarrow>
            insert_project_clients auth_uid [new]
              (delete_project_clients auth_uid
                 (\<lambda>l. pc_project_id l = pc_project_id new \<and> pc_client_id l = pc_client_id new) d)
            = Inr (d\<lparr>project_clients :=
                      filter (\<lambda>l. \<not> (pc_project_id l = pc_project_id new
                                       \<and> pc_client_id l = pc_client_id new))
                        (project_clients d) @ [new]\<rparr>))"
proof (intro conjI impI allI)
  assume dup: "\<exists>l \<in> set (project_clients d).
                 pc_project_id l = pc_project_id new \<and> pc_client_id l = pc_client_id new"
  show one: "insert_project_clients auth_uid [new] d = Inl (ConstraintViolation Unique)"
    by (rule insert_project_clients_single_duplicate[OF own dup])
  show "store_after d (insert_project_clients auth_uid [new] d) = d"
    by (simp add: one store_after_def)
  fix rows
  assume "new \<in> set rows"
  then show many: "isl (insert_project_clients auth_uid rows d)"
    using dup by (rule insert_project_clients_duplicate_fails)
  then show "store_after d (insert_project_clients auth_uid rows d) = d"
    by (auto simp: store_after_def split: sum.splits)
next
  assume "pc_client_id new \<in> cl_id ` set (clients d)
          \<and> pc_id new \<notin> pc_id ` set (project_clients d)"
  then show "insert_project_clients auth_uid [new]
              (delete_project_clients auth_uid
                 (\<lambda>l. pc_project_id l = pc_project_id new \<and> pc_client_id l = pc_client_id new) d)
            = Inr (d\<lparr>project_clients :=
                      filter (\<lambda>l. \<not> (pc_project_id l = pc_project_id new
                                       \<and> pc_client_id l = pc_client_id new))
                        (project_clients d) @ [new]\<rparr>)"
    using insert_after_delete[OF own] by blast
qed

theorem project_client_pair_unique_witness:
  "owns_project (Some 2) example_db (pc_project_id (example_link 2000 20 200))
   \<and> insert_project_clients (Some 2) [example_link 2000 20 200] example_db
       = Inl (ConstraintViolation Unique)
   \<and> store_after example_db
         (insert_project_clients (Some 2) [example_link 2001 20 100, example_link 2000 20 200]
            example_db) = example_db
   \<and> project_clients (store_after example_db
         (insert_project_clients (Some 2) [example_link 2000 20 200]
            (delete_project_clients (Some 2)
               (\<lambda>l. pc_project_id l = 20 \<and> pc_client_id l = 200) example_db)))
       = [example_link 1000 10 100, example_link 1001 20 100, example_link 2000 20 200]"
proof -
  let ?new = "example_link 2000 20 200"
  have sel: "pc_project_id ?new = 20" "pc_client_id ?new = 200" "pc_id ?new = 2000"
    by (simp_all add: example_link_def)
  have own: "owns_project (Some 2) example_db (pc_project_id ?new)"
    by (simp add: owns_project_def example_db_def example_project_def example_link_def)
  have dup: "\<exists>l \<in> set (project_clients example_db).
               pc_project_id l = pc_project_id ?new \<and> pc_client_id l = pc_client_id ?new"
    by (simp add: example_db_def example_link_def)
  have cl: "pc_client_id ?new \<in> cl_id ` set (clients example_db)
            \<and> pc_id ?new \<notin> pc_id ` set (project_clients example_db)"
    by (simp add: example_db_def example_link_def example_client_def)
  have mem: "?new \<in> set [example_link 2001 20 100, ?new]" by simp
  note t = project_client_pair_unique[OF own]
  from t dup have a: "insert_project_clients (Some 2) [?new] example_db
       = Inl (ConstraintViolation Unique)" by blast
  from t dup mem have b: "store_after example_db
         (insert_project_clients (Some 2) [example_link 2001 20 100, ?new] example_db) = example_db"
    by blast
  from t cl have c: "insert_project_clients (Some 2) [?new]
              (delete_project_clients (Some 2)
                 (\<lambda>l. pc_project_id l = pc_project_id ?new \<and> pc_client_id l = pc_client_id ?new)
                 example_db)
            = Inr (example_db\<lparr>project_clients :=
                      filter (\<lambda>l. \<not> (pc_project_id l = pc_project_id ?new
                                       \<and> pc_client_id l = pc_client_id ?new))
                        (project_clients example_db) @ [?new]\<rparr>)"
    by blast
  have d: "project_clients (store_after example_db
         (insert_project_clients (Some 2) [?new]
            (delete_project_clients (Some 2)
               (\<lambda>l. pc_project_id l = 20 \<and> pc_client_id l = 200) example_db)))
       = [example_link 1000 10 100, example_link 1001 20 100, ?new]"
    using c unfolding sel by (simp add: store_after_def example_db_def example_link_def)
  show ?thesis using own a b d by blast
qed

section \<open>C10: what \<^verbatim>\<open>deleteProject\<close> reports\<close>

lemma delete_projects_where_none:
  assumes "\<forall>p \<in> set (projects d). \<not> P p"
  shows "delete_projects_where P d = d"
proof -
  have "filter P (projects d) = []" using assms by (simp add: filter_empty_conv)
  moreover have "filter (\<lambda>p. \<not> P p) (projects d) = projects d" using assms by simp
  ultimately show ?thesis by (simp add: delete_projects_where_def cascade_projects_def)
qed

text \<open>
  Claim C10. For an authenticated caller and any id, \<^verbatim>\<open>deleteProject\<close> returns \<open>true\<close> whenever
  the storage call reports no error: when the caller owns a project with that id (which is
  then deleted with its children), and also when no project has that id or it belongs to
  someone else (then nothing is deleted). The result does not tell these cases apart. It is
  \<open>false\<close> only without a session or when the storage call fails.
\<close>

theorem deleteProject_true_without_error:
  "deleteProject None (Some uid) ident d
     = (True, delete_projects (Some uid) (\<lambda>p. pj_id p = ident \<and> pj_user_id p = uid) d)
   \<and> ((\<forall>p \<in> set (projects d). pj_id p = ident \<longrightarrow> pj_user_id p \<noteq> uid) \<longrightarrow>
        deleteProject None (Some uid) ident d = (True, d))
   \<and> deleteProject (Some e) (Some uid) ident d = (False, d)
   \<and> deleteProject upstream None ident d = (False, d)"
proof (intro conjI impI)
  show "deleteProject None (Some uid) ident d
     = (True, delete_projects (Some uid) (\<lambda>p. pj_id p = ident \<and> pj_user_id p = uid) d)"
    by (simp add: deleteProject_def storage_call_def)
  show "deleteProject (Some e) (Some uid) ident d = (False, d)"
    by (simp add: deleteProject_def storage_call_def)
  show "deleteProject upstream None ident d = (False, d)"
    by (simp add: deleteProject_def)
  assume "\<forall>p \<in> set (projects d). pj_id p = ident \<longrightarrow> pj_user_id p \<noteq> uid"
  then have "delete_projects (Some uid) (\<lambda>p. pj_id p = ident \<and> pj_user_id p = uid) d = d"
    unfolding delete_projects_def by (intro delete_projects_where_none) auto
  then show "deleteProject None (Some uid) ident d = (True, d)"
    by (simp add: deleteProject_def storage_call_def)
qed

theorem deleteProject_true_without_error_witness:
  "deleteProject None (Some 1) 20 example_db = (True, example_db)
   \<and> deleteProject None (Some 1) 999 example_db = (True, example_db)
   \<and> fst (deleteProject None (Some 1) 10 example_db) = True
   \<and> map pj_id (projects (snd (deleteProject None (Some 1) 10 example_db))) = [20]"
proof -
  have f: "\<forall>p \<in> set (projects example_db). pj_id p = 20 \<longrightarrow> pj_user_id p \<noteq> 1"
    by (simp add: example_db_def example_project_def)
  have n: "\<forall>p \<in> set (projects example_db). pj_id p = 999 \<longrightarrow> pj_user_id p \<noteq> 1"
    by (simp add: example_db_def example_project_def)
  have a: "deleteProject None (Some 1) 20 example_db = (True, example_db)"
    using deleteProject_true_without_error[of 1 20 example_db] f by blast
  have b: "deleteProject None (Some 1) 999 example_db = (True, example_db)"
    using deleteProject_true_without_error[of 1 999 example_db] n by blast
  have c: "deleteProject None (Some 1) 10 example_db
     = (True, delete_projects (Some 1) (\<lambda>p. pj_id p = 10 \<and> pj_user_id p = 1) example_db)"
    using deleteProject_true_without_error[of 1 10 example_db] by blast
  have d: "map pj_id (projects (snd (deleteProject None (Some 1) 10 example_db))) = [20]"
    unfolding c
    by (simp add: delete_projects_def delete_projects_where_def cascade_projects_def
        projects_policy_def example_db_def example_project_def)
  show ?thesis using a b c d by simp
qed

section \<open>C6: provisioning an identity\<close>

lemma coalesce_null_three:
  "coalesce_null [a, b, Some c]
   = Some (case a of Some n \<Rightarrow> n | None \<Rightarrow> (case b of Some n \<Rightarrow> n | None \<Rightarrow> c))"
  by (cases a; cases b) simp_all

lemma update_auth_users_succeeds:
  assumes dist: "distinct (map au_id (auth_users d))"
    and keep: "\<forall>u \<in> set (auth_users d). flt u \<longrightarrow> au_id (upd u) = au_id u"
  shows "update_auth_users flt upd d
         = Inr (d\<lparr>auth_users := map (\<lambda>u. if flt u then upd u else u) (auth_users d)\<rparr>)"
proof -
  let ?f = "\<lambda>u. if flt u then upd u else u"
  have ok: "\<forall>u \<in> set (auth_users d). flt u \<longrightarrow>
              (\<exists>r'. (Inr (upd u) :: error + auth_user) = Inr r' \<and> au_id r' = au_id u)"
    using keep by simp
  have "update_rows flt (\<lambda>u. Inr (upd u)) auth_user_key_conflict [] (auth_users d)
        = (Inr ([] @ map (\<lambda>u. if flt u then projr (Inr (upd u) :: error + auth_user) else u)
                        (auth_users d)) :: error + auth_user list)"
    using dist
    by (intro update_rows_keep_key[where key = au_id] ok) (simp_all add: auth_user_key_conflict_def)
  then have u: "update_rows flt (\<lambda>u. Inr (upd u)) auth_user_key_conflict [] (auth_users d)
                = (Inr (map ?f (auth_users d)) :: error + auth_user list)"
    by simp
  have "map au_id (map ?f (auth_users d)) = map au_id (auth_users d)"
    using keep by (intro map_key_unchanged) simp
  then have ids: "au_id ` set (map ?f (auth_users d)) = au_id ` set (auth_users d)"
    by (metis set_map)
  have fk: "\<not> (\<exists>i \<in> set (map pf_id (profiles d)).
                i \<in> au_id ` set (filter flt (auth_users d)) \<and> i \<notin> au_id ` set (map ?f (auth_users d)))"
    unfolding ids by auto
  show ?thesis
    unfolding update_auth_users_def u sum.case using fk by simp
qed

lemma update_auth_users_profiles:
  assumes "update_auth_users flt upd d = Inr d'"
  shows "profiles d' = profiles d"
  using assms by (auto simp: update_auth_users_def split: sum.splits if_splits)

lemma on_auth_user_created_profiles:
  assumes "on_auth_user_created now new d = Inr d'"
  shows "\<exists>row. profiles d' = profiles d @ [row] \<and> pf_id row = au_id new
               \<and> au_id new \<notin> pf_id ` set (profiles d)"
  using assms
  by (auto simp: on_auth_user_created_def handle_new_user_def Let_def profile_key_conflict_def
      split: if_splits option.splits)

text \<open>
  Claim C6, as amended. When an identity that is new (no row of \<^verbatim>\<open>auth.users\<close> or \<^verbatim>\<open>profiles\<close>
  has its id), that has an email address, and whose address no profile carries, is
  authenticated for the first time, exactly one profile is created with its id and email,
  and its display name is the \<^verbatim>\<open>full_name\<close> of the metadata if present, else the \<^verbatim>\<open>name\<close> if
  present, else the email up to its first \<^verbatim>\<open>@\<close>. A new identity without an email address,
  or with an address that a profile carries already, is refused (\<^verbatim>\<open>NOT NULL\<close>, unique
  violation) and gets no profile. The provisioning runs only with the insertion of the
  identity's row into \<^verbatim>\<open>auth.users\<close>: a later authentication of an identity that has its
  record updates that row at most, which succeeds and leaves the profiles as they are, so no
  duplicate arises and no error; and no run of the provisioning ever leaves two profiles
  with one id.
\<close>

theorem handle_new_user_provisions_once:
  "(au_id new \<notin> au_id ` set (auth_users d) \<and> au_id new \<notin> pf_id ` set (profiles d)
      \<and> au_email new = Some e \<and> e \<notin> pf_email ` set (profiles d) \<longrightarrow>
     (\<exists>row d'.
           on_auth_user_created now new d = Inr d'
         \<and> d' = d\<lparr>auth_users := auth_users d @ [new], profiles := profiles d @ [row]\<rparr>
         \<and> pf_id row = au_id new
         \<and> pf_email row = e
         \<and> pf_full_name row =
             Some (case jsonb_get_text (au_raw_user_meta_data new) ''full_name'' of
                     Some n \<Rightarrow> n
                   | None \<Rightarrow>
                       (case jsonb_get_text (au_raw_user_meta_data new) ''name'' of
                          Some n \<Rightarrow> n
                        | None \<Rightarrow> takeWhile (\<lambda>c. c \<noteq> CHR ''@'') e))
         \<and> filter (\<lambda>p. pf_id p = au_id new) (profiles d') = [row]))
 \<and> (au_id new \<notin> au_id ` set (auth_users d) \<and> au_email new = None \<longrightarrow>
       on_auth_user_created now new d = Inl (ConstraintViolation Not_null))
 \<and> (au_id new \<notin> au_id ` set (auth_users d) \<and> au_email new = Some e
      \<and> e \<in> pf_email ` set (profiles d) \<longrightarrow>
       on_auth_user_created now new d = Inl (ConstraintViolation Unique))
 \<and> (distinct (map au_id (auth_users d)) \<and> (\<forall>u \<in> set (auth_users d). flt u \<longrightarrow> au_id (upd u) = au_id u) \<longrightarrow>
       (\<exists>d'. update_auth_users flt upd d = Inr d' \<and> profiles d' = profiles d))
 \<and> (distinct (map pf_id (profiles d)) \<longrightarrow>
       distinct (map pf_id (profiles (store_after d (on_auth_user_created now new d)))))"
  (is "(?A \<longrightarrow> ?P) \<and> ?N \<and> ?U \<and> ?S \<and> ?D")
proof -
  have p: ?P if a: ?A
  proof -
    from a have unseen: "au_id new \<notin> au_id ` set (auth_users d)"
      and no_profile: "au_id new \<notin> pf_id ` set (profiles d)"
      and email: "au_email new = Some e"
      and email_free: "e \<notin> pf_email ` set (profiles d)"
      by simp_all
    define row where "row =
      \<lparr>pf_id = au_id new, pf_email = e,
       pf_full_name =
         coalesce_null [jsonb_get_text (au_raw_user_meta_data new) ''full_name'',
                        jsonb_get_text (au_raw_user_meta_data new) ''name'',
                        Some (split_part_1 e CHR ''@'')],
       pf_avatar_url = None, pf_created_at = Some now, pf_updated_at = Some now\<rparr>"
    define d' where "d' = d\<lparr>auth_users := auth_users d @ [new], profiles := profiles d @ [row]\<rparr>"
    have nc: "\<not> profile_key_conflict row (profiles d)"
      using no_profile email_free by (simp add: profile_key_conflict_def row_def)
    have run: "on_auth_user_created now new d = Inr d'"
      using unseen nc
      by (simp add: on_auth_user_created_def handle_new_user_def Let_def d'_def email flip: row_def)
    have name: "pf_full_name row =
               Some (case jsonb_get_text (au_raw_user_meta_data new) ''full_name'' of
                       Some n \<Rightarrow> n
                     | None \<Rightarrow>
                         (case jsonb_get_text (au_raw_user_meta_data new) ''name'' of
                            Some n \<Rightarrow> n
                          | None \<Rightarrow> takeWhile (\<lambda>c. c \<noteq> CHR ''@'') e))"
      by (simp add: row_def coalesce_null_three split_part_1_def)
    have "filter (\<lambda>p. pf_id p = au_id new) (profiles d) = []"
      using no_profile by (auto simp: filter_empty_conv image_iff)
    then have one: "filter (\<lambda>p. pf_id p = au_id new) (profiles d') = [row]"
      by (simp add: d'_def row_def)
    have "pf_id row = au_id new" "pf_email row = e" by (simp_all add: row_def)
    with run d'_def name one show ?thesis by blast
  qed
  have n: ?N
    by (simp add: on_auth_user_created_def handle_new_user_def)
  have u: ?U
    by (auto simp: on_auth_user_created_def handle_new_user_def Let_def profile_key_conflict_def)
  have s: ?S
  proof
    assume h: "distinct (map au_id (auth_users d)) \<and> (\<forall>u \<in> set (auth_users d). flt u \<longrightarrow> au_id (upd u) = au_id u)"
    then have "update_auth_users flt upd d
               = Inr (d\<lparr>auth_users := map (\<lambda>u. if flt u then upd u else u) (auth_users d)\<rparr>)"
      by (intro update_auth_users_succeeds) simp_all
    then show "\<exists>d'. update_auth_users flt upd d = Inr d' \<and> profiles d' = profiles d"
      by simp
  qed
  have d: ?D
  proof
    assume dist: "distinct (map pf_id (profiles d))"
    show "distinct (map pf_id (profiles (store_after d (on_auth_user_created now new d))))"
    proof (cases "on_auth_user_created now new d")
      case (Inl err)
      then show ?thesis using dist by (simp add: store_after_def)
    next
      case (Inr d')
      from on_auth_user_created_profiles[OF Inr] obtain row where
        "profiles d' = profiles d @ [row]" "pf_id row = au_id new"
        "au_id new \<notin> pf_id ` set (profiles d)" by blast
      then show ?thesis using dist by (simp add: store_after_def Inr)
    qed
  qed
  show ?thesis
    apply (rule conjI, rule impI, erule p)
    apply (rule conjI, rule n)
    apply (rule conjI, rule u)
    apply (rule conjI, rule s)
    apply (rule d)
    done
qed

theorem handle_new_user_provisions_once_witness:
  "map pf_full_name
        (profiles (store_after example_db
                     (on_auth_user_created 5 (example_user 3 ''carol@x.io'') example_db)))
      = [None, None, Some ''carol'']
   \<and> map_sum (\<lambda>e. e) (\<lambda>d'. map pf_id (profiles d'))
       (update_auth_users (\<lambda>u. au_id u = 1) (\<lambda>u. u\<lparr>au_raw_user_meta_data := Some []\<rparr>) example_db)
     = Inr [1, 2]"
proof -
  let ?new = "example_user 3 ''carol@x.io''"
  have h: "au_id ?new \<notin> au_id ` set (auth_users example_db)
      \<and> au_id ?new \<notin> pf_id ` set (profiles example_db)
      \<and> au_email ?new = Some ''carol@x.io'' \<and> ''carol@x.io'' \<notin> pf_email ` set (profiles example_db)"
    by (simp add: example_db_def example_user_def example_profile_def)
  note P = handle_new_user_provisions_once[where new = ?new and d = example_db and now = 5
      and e = "''carol@x.io''", THEN conjunct1, THEN mp, OF h]
  from P obtain row d' where r: "on_auth_user_created 5 ?new example_db = Inr d'"
    "d' = example_db\<lparr>auth_users := auth_users example_db @ [?new],
                     profiles := profiles example_db @ [row]\<rparr>"
    "pf_full_name row =
             Some (case jsonb_get_text (au_raw_user_meta_data ?new) ''full_name'' of
                     Some n \<Rightarrow> n
                   | None \<Rightarrow>
                       (case jsonb_get_text (au_raw_user_meta_data ?new) ''name'' of
                          Some n \<Rightarrow> n
                        | None \<Rightarrow> takeWhile (\<lambda>c. c \<noteq> CHR ''@'') ''carol@x.io''))"
    by blast
  have "pf_full_name row = Some ''carol''"
    unfolding r(3) by (simp add: example_user_def jsonb_get_text_def)
  moreover have "store_after example_db (on_auth_user_created 5 ?new example_db) = d'"
    by (simp add: r(1) store_after_def)
  moreover have "map pf_full_name (profiles example_db) = [None, None]"
    by (simp add: example_db_def example_profile_def)
  ultimately have w1: "map pf_full_name
        (profiles (store_after example_db (on_auth_user_created 5 ?new example_db)))
      = [None, None, Some ''carol'']"
    by (simp add: r(2))
  have hs: "distinct (map au_id (auth_users example_db))
      \<and> (\<forall>u \<in> set (auth_users example_db). au_id u = 1 \<longrightarrow>
            au_id (u\<lparr>au_raw_user_meta_data := Some []\<rparr>) = au_id u)"
    by (simp add: example_db_def example_user_def)
  note S = handle_new_user_provisions_once[where d = example_db and flt = "\<lambda>u. au_id u = 1"
      and upd = "\<lambda>u. u\<lparr>au_raw_user_meta_data := Some []\<rparr>",
      THEN conjunct2, THEN conjunct2, THEN conjunct2, THEN conjunct1, THEN mp, OF hs]
  from S obtain d1 where
    s: "update_auth_users (\<lambda>u. au_id u = 1) (\<lambda>u. u\<lparr>au_raw_user_meta_data := Some []\<rparr>) example_db
        = Inr d1" "profiles d1 = profiles example_db"
    by blast
  have w2: "map_sum (\<lambda>e. e) (\<lambda>d'. map pf_id (profiles d'))
       (update_auth_users (\<lambda>u. au_id u = 1) (\<lambda>u. u\<lparr>au_raw_user_meta_data := Some []\<rparr>) example_db)
     = Inr [1, 2]"
    unfolding s(1) by (simp add: s(2) example_db_def example_profile_def)
  show ?thesis by (intro conjI w1 w2)
qed

text \<open>
  The claim as stated fails: a first authentication can end without a record. When
  identity 1 has put the address \<^verbatim>\<open>c@x.io\<close> into its profile (the settings form writes
  \<^verbatim>\<open>profiles.email\<close>), the unseen identity 3 with that address is refused with a unique
  violation; and an unseen identity without an email address is refused by \<^verbatim>\<open>NOT NULL\<close>.
  Either way the store holds no profile for identity 3.
\<close>

theorem provisioning_refused_counterexample:
  "on_auth_user_created 5 (example_user 3 ''c@x.io'')
         (example_db\<lparr>profiles := [example_profile 1 ''c@x.io'', example_profile 2 ''b@x.io'']\<rparr>)
       = Inl (ConstraintViolation Unique)
   \<and> on_auth_user_created 5 \<lparr>au_id = 3, au_email = None, au_raw_user_meta_data = None\<rparr> example_db
       = Inl (ConstraintViolation Not_null)
   \<and> filter (\<lambda>p. pf_id p = 3)
       (profiles (store_after example_db
          (on_auth_user_created 5 \<lparr>au_id = 3, au_email = None, au_raw_user_meta_data = None\<rparr>
             example_db)))
     = []"
  by (simp add: handle_new_user_def on_auth_user_created_def profile_key_conflict_def Let_def
      store_after_def example_db_def example_user_def example_profile_def)

section \<open>C8 and C9: the aggregate view\<close>

lemma project_stats_of_eq:
  "project_stats_of uid tbl =
     (if uid \<in> pj_user_id ` set tbl
      then [project_stats_group uid (filter (\<lambda>p. pj_user_id p = uid) tbl)] else [])"
proof -
  have g: "ps_user_id (project_stats_group u grp) = u" for u grp
    by (simp add: project_stats_group_def)
  have "filter (\<lambda>r. ps_user_id r = uid) (map (\<lambda>u. project_stats_group u (f u)) us)
        = map (\<lambda>u. project_stats_group u (f u)) (filter (\<lambda>u. u = uid) us)" for f us
    by (induction us) (simp_all add: g)
  moreover have "filter (\<lambda>u. u = uid) us = (if uid \<in> set us then [uid] else [])"
    if "distinct us" for us :: "uuid list"
    using that by (induction us) auto
  ultimately show ?thesis
    by (simp add: project_stats_of_def project_stats_def)
qed
















text \<open>
  Claim C8, as amended. For an identity that owns no project the \<^verbatim>\<open>project_stats\<close> view holds
  no row: the per-identity query returns the empty result, not an all-zero record. Every row
  the view does hold counts at least one project, and its sums and average are never
  \<^verbatim>\<open>NULL\<close> (they are 0 when no value is there to add up).
\<close>

theorem project_stats_of_no_projects:
  "((\<forall>p \<in> set tbl. pj_user_id p \<noteq> uid) \<longrightarrow> project_stats_of uid tbl = [])
   \<and> (\<forall>r \<in> set (project_stats tbl). 0 < total_projects r)
   \<and> (\<forall>r \<in> set (project_stats tbl).
         (sql_sum (map pj_budget (filter (\<lambda>p. pj_user_id p = ps_user_id r) tbl)) = None
            \<longrightarrow> total_budget r = 0)
       \<and> (sql_sum (map pj_paid_amount (filter (\<lambda>p. pj_user_id p = ps_user_id r) tbl)) = None
            \<longrightarrow> total_revenue r = 0)
       \<and> (sql_avg (map pj_progress (filter (\<lambda>p. pj_user_id p = ps_user_id r) tbl)) = None
            \<longrightarrow> average_progress r = Numeric 0 0))"
proof (intro conjI impI ballI)
  assume "\<forall>p \<in> set tbl. pj_user_id p \<noteq> uid"
  then have "uid \<notin> pj_user_id ` set tbl" by auto
  then show "project_stats_of uid tbl = []" by (simp add: project_stats_of_eq)
next
  fix r assume "r \<in> set (project_stats tbl)"
  then obtain u where u: "u \<in> pj_user_id ` set tbl"
    and r: "r = project_stats_group u (filter (\<lambda>p. pj_user_id p = u) tbl)"
    by (auto simp: project_stats_def)
  from u obtain p where "p \<in> set tbl" "pj_user_id p = u" by auto
  then have "filter (\<lambda>p. pj_user_id p = u) tbl \<noteq> []" by (auto simp: filter_empty_conv)
  then show "0 < total_projects r" by (simp add: r project_stats_group_def)
  have id: "ps_user_id r = u" by (simp add: r project_stats_group_def)
  show "total_budget r = 0"
    if "sql_sum (map pj_budget (filter (\<lambda>p. pj_user_id p = ps_user_id r) tbl)) = None"
    using that unfolding id by (simp add: r project_stats_group_def)
  show "total_revenue r = 0"
    if "sql_sum (map pj_paid_amount (filter (\<lambda>p. pj_user_id p = ps_user_id r) tbl)) = None"
    using that unfolding id by (simp add: r project_stats_group_def)
  show "average_progress r = Numeric 0 0"
    if "sql_avg (map pj_progress (filter (\<lambda>p. pj_user_id p = ps_user_id r) tbl)) = None"
    using that unfolding id by (simp add: r project_stats_group_def)
qed

theorem project_stats_of_no_projects_witness:
  "project_stats_of 3 (projects example_db) = [] \<and> project_stats_of 3 [] = []"
proof -
  have "\<forall>p \<in> set (projects example_db). pj_user_id p \<noteq> 3"
    by (simp add: example_db_def example_project_def)
  then have "project_stats_of 3 (projects example_db) = []"
    using project_stats_of_no_projects[of "projects example_db" 3] by blast
  moreover have "project_stats_of 3 [] = []"
    using project_stats_of_no_projects[of "[]" 3] by simp
  ultimately show ?thesis by simp
qed

text \<open>
  The claim as stated fails: identity 3 owns no project, and the query yields no row for it
  instead of the all-zero record.
\<close>

theorem project_stats_zero_projects_counterexample:
  "project_stats_of 3 (projects example_db) \<noteq> [all_zero_stats 3]
   \<and> project_stats_of 3 (projects example_db) = []"
  by (simp add: project_stats_of_def project_stats_def example_db_def example_project_def
      project_stats_group_def)

section \<open>C4: the update trigger\<close>

lemma createProject_Some:
  assumes "createProject upstream user proj gen js_now now d = (Some r, d')"
  shows "pj_updated_at r = Some js_now \<and> r \<in> set (projects d')"
proof -
  from assms obtain uid where u: "user = Some uid"
    by (cases user) (simp_all add: createProject_def)
  let ?pd = "proj\<lparr>pp_user_id := Some uid, pp_created_at := Some js_now, pp_updated_at := Some js_now\<rparr>"
  let ?st = "insert_project_partial (Some uid) gen now ?pd d"
  have up: "(case storage_call upstream ?st of
               Inl e \<Rightarrow> (None, d)
             | Inr (d', rows) \<Rightarrow>
                 (case single rows of Inl e \<Rightarrow> (None, d) | Inr data \<Rightarrow> (Some data, d')))
            = (Some r, d')"
    using assms unfolding u createProject_def Let_def by simp
  then obtain d1 rows where st: "storage_call upstream ?st = Inr (d1, rows)"
    by (cases "storage_call upstream ?st") auto
  with up have s: "single rows = Inr r" "d1 = d'"
    by (cases "single rows"; simp)+
  from st have i: "?st = Inr (d', rows)"
    by (cases upstream) (simp_all add: storage_call_def s(2))
  from s(1) have rows: "rows = [r]" by (simp add: single_Inr)
  from i obtain title where t: "pp_title proj = Some title"
    by (cases "pp_title proj") (simp_all add: insert_project_partial_def)
  define row where "row =
                   \<lparr>pj_id = or_default (pp_id ?pd) gen,
                    pj_user_id = uid,
                    pj_title = title,
                    pj_description = pp_description ?pd,
                    pj_type = or_default (pp_type ?pd) Personal,
                    pj_status = or_default (pp_status ?pd) Pending,
                    pj_payment_status = or_default (pp_payment_status ?pd) Unpaid,
                    pj_progress = or_default_null (pp_progress ?pd) (Some 0),
                    pj_budget = pp_budget ?pd,
                    pj_paid_amount = or_default_null (pp_paid_amount ?pd) (Some 0),
                    pj_start_date = pp_start_date ?pd,
                    pj_end_date = pp_end_date ?pd,
                    pj_deadline = pp_deadline ?pd,
                    pj_created_at = or_default_null (pp_created_at ?pd) (Some now),
                    pj_updated_at = or_default_null (pp_updated_at ?pd) (Some now)\<rparr>"
  have e: "?st = (case insert_projects (Some uid) [row] d of
                    Inl e \<Rightarrow> Inl e | Inr d' \<Rightarrow> Inr (d', [row]))"
    unfolding insert_project_partial_def row_def Let_def using t by simp
  from i[unfolded e] have ins: "insert_projects (Some uid) [row] d = Inr d'" and rr: "r = row"
    unfolding rows by (cases "insert_projects (Some uid) [row] d"; simp)+
  have "pj_updated_at row = Some js_now" by (simp add: row_def or_default_null_def)
  moreover have "row \<in> set (projects d')"
    using insert_rows_Inr[of "project_row_check (Some uid)" project_key_conflict "projects d" "[row]"] ins
    by (auto simp: insert_projects_def split: sum.splits if_splits)
  ultimately show ?thesis by (simp add: rr)
qed

lemma advances_map:
  assumes "\<forall>x \<in> set xs. not_after (ts x) now"
    and "\<forall>x \<in> set xs. target x \<longrightarrow> ts (f x) = Some now"
  shows "list_all2 (\<lambda>x y. advances (ts x) (ts y)) xs (map (\<lambda>x. if target x then f x else x) xs)"
    and "\<forall>now2. now \<le> now2 \<longrightarrow>
           (\<forall>y \<in> set (map (\<lambda>x. if target x then f x else x) xs). not_after (ts y) now2)"
proof -
  have a: "advances (ts x) (ts (if target x then f x else x))" if "x \<in> set xs" for x
    using assms that by (auto simp: advances_def not_after_def split: option.splits)
  show "list_all2 (\<lambda>x y. advances (ts x) (ts y)) xs (map (\<lambda>x. if target x then f x else x) xs)"
    unfolding list.rel_map by (rule list.rel_refl_strong) (rule a)
  show "\<forall>now2. now \<le> now2 \<longrightarrow>
           (\<forall>y \<in> set (map (\<lambda>x. if target x then f x else x) xs). not_after (ts y) now2)"
  proof (intro allI impI ballI)
    fix now2 y assume le: "now \<le> now2"
      and y: "y \<in> set (map (\<lambda>x. if target x then f x else x) xs)"
    then obtain x where x: "x \<in> set xs" "y = (if target x then f x else x)" by auto
    show "not_after (ts y) now2"
      using assms x le by (auto simp: not_after_def split: option.splits)
  qed
qed

text \<open>
  Claim C4, as amended. Whatever an update of projects, clients or tasks writes, also an
  \<^verbatim>\<open>updated_at\<close> of the caller's (older than the stored one or not), the rows it changes are
  stored and returned with \<^verbatim>\<open>updated_at\<close> equal to the statement's \<^verbatim>\<open>CURRENT_TIMESTAMP\<close>, the
  database's clock; so it is for \<^verbatim>\<open>updateProject\<close>, whose own timestamp from the application's
  clock the trigger overwrites. Such an update succeeds at least whenever it leaves the key
  columns of its rows as they are and respects the check constraint. Hence \<^verbatim>\<open>updated_at\<close>
  does not decrease over updates as long as no stored value is ahead of the database's
  clock: then no row's value goes down in the update, and none is ahead of the clock
  afterwards either. No trigger runs on \<^verbatim>\<open>INSERT\<close>: \<^verbatim>\<open>createProject\<close> stores the time of the
  application's clock, and when that is ahead of the database's, the next update lowers it.
\<close>

theorem update_sets_updated_at:
  "(update_projects auth_uid now flt upd d = Inr (d', out) \<longrightarrow>
      projects d' = map (\<lambda>p. if projects_policy auth_uid p \<and> flt p
                              then (upd p)\<lparr>pj_updated_at := Some now\<rparr> else p) (projects d)
    \<and> (\<forall>r \<in> set out. pj_updated_at r = Some now)
    \<and> ((\<forall>p \<in> set (projects d). not_after (pj_updated_at p) now) \<longrightarrow>
         list_all2 (\<lambda>p p'. advances (pj_updated_at p) (pj_updated_at p')) (projects d) (projects d')
       \<and> (\<forall>now2. now \<le> now2 \<longrightarrow> (\<forall>p \<in> set (projects d'). not_after (pj_updated_at p) now2))))
 \<and> (distinct (map pj_id (projects d))
    \<and> (\<forall>p \<in> set (projects d). projects_policy auth_uid p \<and> flt p \<longrightarrow>
          pj_id (upd p) = pj_id p \<and> pj_user_id (upd p) = pj_user_id p \<and> progress_check (upd p)) \<longrightarrow>
      (\<exists>d' out. update_projects auth_uid now flt upd d = Inr (d', out)))
 \<and> (update_clients auth_uid now fltc updc d = Inr (dc, outc) \<longrightarrow>
      clients dc = map (\<lambda>c. if clients_policy auth_uid c \<and> fltc c
                              then (updc c)\<lparr>cl_updated_at := Some now\<rparr> else c) (clients d)
    \<and> (\<forall>r \<in> set outc. cl_updated_at r = Some now)
    \<and> ((\<forall>c \<in> set (clients d). not_after (cl_updated_at c) now) \<longrightarrow>
         list_all2 (\<lambda>c c'. advances (cl_updated_at c) (cl_updated_at c')) (clients d) (clients dc)
       \<and> (\<forall>now2. now \<le> now2 \<longrightarrow> (\<forall>c \<in> set (clients dc). not_after (cl_updated_at c) now2))))
 \<and> (distinct (map cl_id (clients d))
    \<and> (\<forall>c \<in> set (clients d). clients_policy auth_uid c \<and> fltc c \<longrightarrow>
          cl_id (updc c) = cl_id c \<and> cl_user_id (updc c) = cl_user_id c) \<longrightarrow>
      (\<exists>dc outc. update_clients auth_uid now fltc updc d = Inr (dc, outc)))
 \<and> (update_tasks auth_uid now fltt updt d = Inr (dt, outt) \<longrightarrow>
      tasks dt = map (\<lambda>t. if tasks_policy auth_uid d t \<and> fltt t
                            then (updt t)\<lparr>tk_updated_at := Some now\<rparr> else t) (tasks d)
    \<and> (\<forall>r \<in> set outt. tk_updated_at r = Some now)
    \<and> ((\<forall>t \<in> set (tasks d). not_after (tk_updated_at t) now) \<longrightarrow>
         list_all2 (\<lambda>t t'. advances (tk_updated_at t) (tk_updated_at t')) (tasks d) (tasks dt)
       \<and> (\<forall>now2. now \<le> now2 \<longrightarrow> (\<forall>t \<in> set (tasks dt). not_after (tk_updated_at t) now2))))
 \<and> (distinct (map tk_id (tasks d))
    \<and> (\<forall>t \<in> set (tasks d). tasks_policy auth_uid d t \<and> fltt t \<longrightarrow>
          tk_id (updt t) = tk_id t \<and> tk_project_id (updt t) = tk_project_id t
          \<and> priority_check (updt t)) \<longrightarrow>
      (\<exists>dt outt. update_tasks auth_uid now fltt updt d = Inr (dt, outt)))
 \<and> (updateProject upstream user ident updates js_now now d = (Some r, du) \<longrightarrow>
      pj_updated_at r = Some now \<and> r \<in> set (projects du))
 \<and> (createProject upstream user proj gen js_now now d = (Some rc, dn) \<longrightarrow>
      pj_updated_at rc = Some js_now \<and> rc \<in> set (projects dn))"
  (is "?P \<and> ?PS \<and> ?C \<and> ?CS \<and> ?T \<and> ?TS \<and> ?U \<and> ?N")
proof -
  have p: ?P
  proof (intro impI)
    assume a: "update_projects auth_uid now flt upd d = Inr (d', out)"
    note t = update_projects_Inr(1)[OF a]
    have o: "\<forall>r \<in> set out. pj_updated_at r = Some now"
      unfolding update_projects_Inr(2)[OF a] by simp
    have m: "list_all2 (\<lambda>p p'. advances (pj_updated_at p) (pj_updated_at p')) (projects d) (projects d')
       \<and> (\<forall>now2. now \<le> now2 \<longrightarrow> (\<forall>p \<in> set (projects d'). not_after (pj_updated_at p) now2))"
      if h: "\<forall>p \<in> set (projects d). not_after (pj_updated_at p) now"
    proof -
      have s: "\<forall>p \<in> set (projects d). projects_policy auth_uid p \<and> flt p \<longrightarrow>
                 pj_updated_at ((upd p)\<lparr>pj_updated_at := Some now\<rparr>) = Some now"
        by simp
      note am = advances_map[where ts = pj_updated_at, OF h s]
      show ?thesis unfolding t by (rule conjI[OF am])
    qed
    from t o m show "projects d' = map (\<lambda>p. if projects_policy auth_uid p \<and> flt p
                              then (upd p)\<lparr>pj_updated_at := Some now\<rparr> else p) (projects d)
    \<and> (\<forall>r \<in> set out. pj_updated_at r = Some now)
    \<and> ((\<forall>p \<in> set (projects d). not_after (pj_updated_at p) now) \<longrightarrow>
         list_all2 (\<lambda>p p'. advances (pj_updated_at p) (pj_updated_at p')) (projects d) (projects d')
       \<and> (\<forall>now2. now \<le> now2 \<longrightarrow> (\<forall>p \<in> set (projects d'). not_after (pj_updated_at p) now2)))"
      by blast
  qed
  have ps: ?PS
    using update_projects_succeeds[of d auth_uid flt upd now] by blast
  have c: ?C
  proof (intro impI)
    assume a: "update_clients auth_uid now fltc updc d = Inr (dc, outc)"
    note t = update_clients_Inr(1)[OF a]
    have o: "\<forall>r \<in> set outc. cl_updated_at r = Some now"
      unfolding update_clients_Inr(2)[OF a] by simp
    have m: "list_all2 (\<lambda>c c'. advances (cl_updated_at c) (cl_updated_at c')) (clients d) (clients dc)
       \<and> (\<forall>now2. now \<le> now2 \<longrightarrow> (\<forall>c \<in> set (clients dc). not_after (cl_updated_at c) now2))"
      if h: "\<forall>c \<in> set (clients d). not_after (cl_updated_at c) now"
    proof -
      have s: "\<forall>c \<in> set (clients d). clients_policy auth_uid c \<and> fltc c \<longrightarrow>
                 cl_updated_at ((updc c)\<lparr>cl_updated_at := Some now\<rparr>) = Some now"
        by simp
      note am = advances_map[where ts = cl_updated_at, OF h s]
      show ?thesis unfolding t by (rule conjI[OF am])
    qed
    from t o m show "clients dc = map (\<lambda>c. if clients_policy auth_uid c \<and> fltc c
                              then (updc c)\<lparr>cl_updated_at := Some now\<rparr> else c) (clients d)
    \<and> (\<forall>r \<in> set outc. cl_updated_at r = Some now)
    \<and> ((\<forall>c \<in> set (clients d). not_after (cl_updated_at c) now) \<longrightarrow>
         list_all2 (\<lambda>c c'. advances (cl_updated_at c) (cl_updated_at c')) (clients d) (clients dc)
       \<and> (\<forall>now2. now \<le> now2 \<longrightarrow> (\<forall>c \<in> set (clients dc). not_after (cl_updated_at c) now2)))"
      by blast
  qed
  have cs: ?CS
    using update_clients_succeeds[of d auth_uid fltc updc now] by blast
  have t: ?T
  proof (intro impI)
    assume a: "update_tasks auth_uid now fltt updt d = Inr (dt, outt)"
    note t = update_tasks_Inr(1)[OF a]
    have o: "\<forall>r \<in> set outt. tk_updated_at r = Some now"
      unfolding update_tasks_Inr(2)[OF a] by simp
    have m: "list_all2 (\<lambda>t t'. advances (tk_updated_at t) (tk_updated_at t')) (tasks d) (tasks dt)
       \<and> (\<forall>now2. now \<le> now2 \<longrightarrow> (\<forall>t \<in> set (tasks dt). not_after (tk_updated_at t) now2))"
      if h: "\<forall>t \<in> set (tasks d). not_after (tk_updated_at t) now"
    proof -
      have s: "\<forall>t \<in> set (tasks d). tasks_policy auth_uid d t \<and> fltt t \<longrightarrow>
                 tk_updated_at ((updt t)\<lparr>tk_updated_at := Some now\<rparr>) = Some now"
        by simp
      note am = advances_map[where ts = tk_updated_at, OF h s]
      show ?thesis unfolding t by (rule conjI[OF am])
    qed
    from t o m show "tasks dt = map (\<lambda>t. if tasks_policy auth_uid d t \<and> fltt t
                            then (updt t)\<lparr>tk_updated_at := Some now\<rparr> else t) (tasks d)
    \<and> (\<forall>r \<in> set outt. tk_updated_at r = Some now)
    \<and> ((\<forall>t \<in> set (tasks d). not_after (tk_updated_at t) now) \<longrightarrow>
         list_all2 (\<lambda>t t'. advances (tk_updated_at t) (tk_updated_at t')) (tasks d) (tasks dt)
       \<and> (\<forall>now2. now \<le> now2 \<longrightarrow> (\<forall>t \<in> set (tasks dt). not_after (tk_updated_at t) now2)))"
      by blast
  qed
  have ts: ?TS
    using update_tasks_succeeds[of d auth_uid fltt updt now] by blast
  have u: ?U
  proof (intro impI)
    assume a: "updateProject upstream user ident updates js_now now d = (Some r, du)"
    from updateProject_Some[OF a] obtain uid where
      u: "update_projects (Some uid) now (\<lambda>p. pj_id p = ident \<and> pj_user_id p = uid)
            (apply_project_updates (updates\<lparr>pp_updated_at := Some js_now\<rparr>)) d = Inr (du, [r])"
      by blast
    note o = update_projects_Inr(2)[OF u] and t = update_projects_Inr(1)[OF u]
    let ?f = "\<lambda>p. (apply_project_updates (updates\<lparr>pp_updated_at := Some js_now\<rparr>) p)
                     \<lparr>pj_updated_at := Some now\<rparr>"
    let ?target = "\<lambda>p. projects_policy (Some uid) p \<and> pj_id p = ident \<and> pj_user_id p = uid"
    have "r \<in> set (map ?f (filter ?target (projects d)))"
      unfolding o[symmetric] by simp
    then obtain p where p: "p \<in> set (projects d)" "?target p" "r = ?f p"
      by auto
    from p(3) have 1: "pj_updated_at r = Some now" by simp
    have "?f p \<in> set (map (\<lambda>p. if ?target p then ?f p else p) (projects d))"
      unfolding set_map using p(1,2) by (intro image_eqI[where x = p]) simp_all
    then have "r \<in> set (projects du)" unfolding t p(3) .
    with 1 show "pj_updated_at r = Some now \<and> r \<in> set (projects du)" by simp
  qed
  have n: ?N using createProject_Some by blast
  show ?thesis
    apply (rule conjI, rule p)
    apply (rule conjI, rule ps)
    apply (rule conjI, rule c)
    apply (rule conjI, rule cs)
    apply (rule conjI, rule t)
    apply (rule conjI, rule ts)
    apply (rule conjI, rule u)
    apply (rule n)
    done
qed

theorem update_sets_updated_at_witness:
  "map_option pj_updated_at
     (fst (updateProject None (Some 1) 10
             (no_updates\<lparr>pp_updated_at := Some (- 100), pp_progress := Some 40\<rparr>) 7 9 example_db))
   = Some (Some 9)
   \<and> map_sum (\<lambda>e. e) (\<lambda>(dc, outc). (map cl_updated_at (clients dc), map cl_updated_at outc))
       (update_clients (Some 1) 9 (\<lambda>c. True) (\<lambda>c. c\<lparr>cl_name := ''new'', cl_updated_at := Some (- 5)\<rparr>)
          example_db)
     = Inr ([Some 9, Some 0], [Some 9])
   \<and> map_sum (\<lambda>e. e) (\<lambda>(dt, outt). (map tk_updated_at (tasks dt), map tk_updated_at outt))
       (update_tasks (Some 2) 9 (\<lambda>t. True) (\<lambda>t. t\<lparr>tk_completed := Some True, tk_updated_at := None\<rparr>)
          example_db)
     = Inr ([Some 0, Some 9], [Some 9])
   \<and> map_sum (\<lambda>e. e) (\<lambda>(d', out). map pj_updated_at (projects d'))
       (update_projects (Some 2) 9 (\<lambda>p. True) (\<lambda>p. p\<lparr>pj_updated_at := Some 3\<rparr>) example_db)
     = Inr [Some 0, Some 9]
   \<and> map_sum (\<lambda>e. e)
       (\<lambda>(d', out). list_all2 (\<lambda>p p'. advances (pj_updated_at p) (pj_updated_at p'))
                        (projects example_db) (projects d'))
       (update_projects (Some 2) 9 (\<lambda>p. True) (\<lambda>p. p\<lparr>pj_updated_at := Some 3\<rparr>) example_db)
     = Inr True"
proof -
  let ?u = "no_updates\<lparr>pp_updated_at := Some (- 100), pp_progress := Some 40\<rparr>"
  let ?updc = "\<lambda>c. c\<lparr>cl_name := ''new'', cl_updated_at := Some (- 5)\<rparr>"
  let ?updt = "\<lambda>t. t\<lparr>tk_completed := Some True, tk_updated_at := None\<rparr>"
  let ?upd = "\<lambda>p. p\<lparr>pj_updated_at := Some 3\<rparr>"
  have "fst (updateProject None (Some 1) 10 ?u 7 9 example_db) \<noteq> None"
    by (simp add: updateProject_def update_projects_def storage_call_def Let_def
        projects_policy_def project_row_check_def progress_check_def project_key_conflict_def
        update_updated_at_column_projects_def apply_project_updates_def no_updates_def
        or_default_def or_default_null_def referenced_project_ids_def example_defs)
  then obtain r du where e: "updateProject None (Some 1) 10 ?u 7 9 example_db = (Some r, du)"
    by (cases "updateProject None (Some 1) 10 ?u 7 9 example_db") auto
  note U = update_sets_updated_at[where now = 9 and d = example_db and upstream = None
      and user = "Some 1" and ident = 10 and updates = ?u and js_now = 7 and r = r and du = du,
      THEN conjunct2, THEN conjunct2, THEN conjunct2, THEN conjunct2, THEN conjunct2,
      THEN conjunct2, THEN conjunct1, THEN mp, OF e]
  from U have "pj_updated_at r = Some 9" by (rule conjunct1)
  then have w1: "map_option pj_updated_at (fst (updateProject None (Some 1) 10 ?u 7 9 example_db))
                 = Some (Some 9)"
    unfolding e by simp
  have hc: "distinct (map cl_id (clients example_db))
    \<and> (\<forall>c \<in> set (clients example_db). clients_policy (Some 1) c \<and> True \<longrightarrow>
          cl_id (?updc c) = cl_id c \<and> cl_user_id (?updc c) = cl_user_id c)"
    by (simp add: example_defs)
  note CS = update_sets_updated_at[where now = 9 and d = example_db and auth_uid = "Some 1"
      and fltc = "\<lambda>c. True" and updc = ?updc,
      THEN conjunct2, THEN conjunct2, THEN conjunct2, THEN conjunct1, THEN mp, OF hc]
  from CS obtain dc outc where
    ec: "update_clients (Some 1) 9 (\<lambda>c. True) ?updc example_db = Inr (dc, outc)" by (elim exE)
  note C = update_sets_updated_at[where now = 9 and d = example_db and auth_uid = "Some 1"
      and fltc = "\<lambda>c. True" and updc = ?updc and dc = dc and outc = outc,
      THEN conjunct2, THEN conjunct2, THEN conjunct1, THEN mp, OF ec]
  have c1: "clients dc = map (\<lambda>c. if clients_policy (Some 1) c \<and> True
                              then (?updc c)\<lparr>cl_updated_at := Some 9\<rparr> else c) (clients example_db)"
    by (rule C[THEN conjunct1])
  have c2: "\<forall>r \<in> set outc. cl_updated_at r = Some 9"
    by (rule C[THEN conjunct2, THEN conjunct1])
  have c3: "length outc = 1"
    using update_clients_Inr(2)[OF ec] by (simp add: clients_policy_def example_defs)
  have c4: "map cl_updated_at outc = [Some 9]"
    using c2 c3 by (cases outc) simp_all
  have c5: "map cl_updated_at (clients dc) = [Some 9, Some 0]"
    unfolding c1 by (simp add: clients_policy_def example_defs)
  have w2: "map_sum (\<lambda>e. e) (\<lambda>(dc, outc). (map cl_updated_at (clients dc), map cl_updated_at outc))
              (update_clients (Some 1) 9 (\<lambda>c. True) ?updc example_db)
            = Inr ([Some 9, Some 0], [Some 9])"
    unfolding ec by (simp add: c4 c5)
  have ht: "distinct (map tk_id (tasks example_db))
    \<and> (\<forall>t \<in> set (tasks example_db). tasks_policy (Some 2) example_db t \<and> True \<longrightarrow>
          tk_id (?updt t) = tk_id t \<and> tk_project_id (?updt t) = tk_project_id t
          \<and> priority_check (?updt t))"
    by (simp add: example_defs priority_check_def)
  note TS = update_sets_updated_at[where now = 9 and d = example_db and auth_uid = "Some 2"
      and fltt = "\<lambda>t. True" and updt = ?updt,
      THEN conjunct2, THEN conjunct2, THEN conjunct2, THEN conjunct2, THEN conjunct2,
      THEN conjunct1, THEN mp, OF ht]
  from TS obtain dt outt where
    et: "update_tasks (Some 2) 9 (\<lambda>t. True) ?updt example_db = Inr (dt, outt)" by (elim exE)
  note T = update_sets_updated_at[where now = 9 and d = example_db and auth_uid = "Some 2"
      and fltt = "\<lambda>t. True" and updt = ?updt and dt = dt and outt = outt,
      THEN conjunct2, THEN conjunct2, THEN conjunct2, THEN conjunct2, THEN conjunct1,
      THEN mp, OF et]
  have t1: "tasks dt = map (\<lambda>t. if tasks_policy (Some 2) example_db t \<and> True
                            then (?updt t)\<lparr>tk_updated_at := Some 9\<rparr> else t) (tasks example_db)"
    by (rule T[THEN conjunct1])
  have t2: "\<forall>r \<in> set outt. tk_updated_at r = Some 9"
    by (rule T[THEN conjunct2, THEN conjunct1])
  have t3: "length outt = 1"
    using update_tasks_Inr(2)[OF et]
    by (simp add: tasks_policy_def owns_project_def example_defs)
  have t4: "map tk_updated_at outt = [Some 9]"
    using t2 t3 by (cases outt) simp_all
  have t5: "map tk_updated_at (tasks dt) = [Some 0, Some 9]"
    unfolding t1 by (simp add: tasks_policy_def owns_project_def example_defs)
  have w3: "map_sum (\<lambda>e. e) (\<lambda>(dt, outt). (map tk_updated_at (tasks dt), map tk_updated_at outt))
              (update_tasks (Some 2) 9 (\<lambda>t. True) ?updt example_db)
            = Inr ([Some 0, Some 9], [Some 9])"
    unfolding et by (simp add: t4 t5)
  have hp: "distinct (map pj_id (projects example_db))
    \<and> (\<forall>p \<in> set (projects example_db). projects_policy (Some 2) p \<and> True \<longrightarrow>
          pj_id (?upd p) = pj_id p \<and> pj_user_id (?upd p) = pj_user_id p \<and> progress_check (?upd p))"
    by (simp add: example_defs progress_check_def)
  note PS = update_sets_updated_at[where now = 9 and d = example_db and auth_uid = "Some 2"
      and flt = "\<lambda>p. True" and upd = ?upd,
      THEN conjunct2, THEN conjunct1, THEN mp, OF hp]
  from PS obtain d' out where
    ep: "update_projects (Some 2) 9 (\<lambda>p. True) ?upd example_db = Inr (d', out)" by (elim exE)
  note P = update_sets_updated_at[where now = 9 and d = example_db and auth_uid = "Some 2"
      and flt = "\<lambda>p. True" and upd = ?upd and d' = d' and out = out,
      THEN conjunct1, THEN mp, OF ep]
  have p1: "projects d' = map (\<lambda>p. if projects_policy (Some 2) p \<and> True
                              then (?upd p)\<lparr>pj_updated_at := Some 9\<rparr> else p) (projects example_db)"
    by (rule P[THEN conjunct1])
  have p5: "map pj_updated_at (projects d') = [Some 0, Some 9]"
    unfolding p1 by (simp add: projects_policy_def example_defs)
  have w4: "map_sum (\<lambda>e. e) (\<lambda>(d', out). map pj_updated_at (projects d'))
              (update_projects (Some 2) 9 (\<lambda>p. True) ?upd example_db)
            = Inr [Some 0, Some 9]"
    unfolding ep by (simp add: p5)
  have inv: "\<forall>p \<in> set (projects example_db). not_after (pj_updated_at p) 9"
    by (simp add: not_after_def example_defs)
  have p6: "list_all2 (\<lambda>p p'. advances (pj_updated_at p) (pj_updated_at p'))
              (projects example_db) (projects d')"
    by (rule P[THEN conjunct2, THEN conjunct2, THEN mp, OF inv, THEN conjunct1])
  have w5: "map_sum (\<lambda>e. e)
              (\<lambda>(d', out). list_all2 (\<lambda>p p'. advances (pj_updated_at p) (pj_updated_at p'))
                               (projects example_db) (projects d'))
              (update_projects (Some 2) 9 (\<lambda>p. True) ?upd example_db)
            = Inr True"
    unfolding ep using p6 by simp
  show ?thesis by (intro conjI w1 w2 w3 w4 w5)
qed

text \<open>
  The claim as stated fails: \<^verbatim>\<open>updated_at\<close> can decrease. Identity 1 creates project 30 while
  the application's clock shows 100 and the database's 10, so the row is stored with
  \<^verbatim>\<open>updated_at\<close> 100; the update that follows, when the database's clock shows 11, sets it to
  11.
\<close>

theorem update_lowers_updated_at_counterexample:
  "map_option pj_updated_at
     (fst (createProject None (Some 1) (no_updates\<lparr>pp_id := Some 30, pp_title := Some ''late''\<rparr>)
             30 100 10 example_db))
   = Some (Some 100)
   \<and> map pj_updated_at
       (filter (\<lambda>p. pj_id p = 30)
          (projects (snd (createProject None (Some 1)
                            (no_updates\<lparr>pp_id := Some 30, pp_title := Some ''late''\<rparr>)
                            30 100 10 example_db))))
     = [Some 100]
   \<and> map pj_updated_at
       (filter (\<lambda>p. pj_id p = 30)
          (projects (snd (updateProject None (Some 1) 30 no_updates 101 11
             (snd (createProject None (Some 1)
                     (no_updates\<lparr>pp_id := Some 30, pp_title := Some ''late''\<rparr>)
                     30 100 10 example_db))))))
     = [Some 11]"
proof -
  let ?c = "createProject None (Some 1) (no_updates\<lparr>pp_id := Some 30, pp_title := Some ''late''\<rparr>)
              30 100 10 example_db"
  define row where "row = (example_project 30 1)\<lparr>pj_title := ''late'', pj_created_at := Some 100,
                                                 pj_updated_at := Some 100\<rparr>"
  have c: "?c = (Some row, example_db\<lparr>projects := projects example_db @ [row]\<rparr>)"
    by (simp add: createProject_def insert_project_partial_def insert_projects_def storage_call_def
        Let_def projects_policy_def project_row_check_def progress_check_def
        project_key_conflict_def no_updates_def or_default_def or_default_null_def row_def
        example_defs)
  have u: "map pj_updated_at
       (filter (\<lambda>p. pj_id p = 30)
          (projects (snd (updateProject None (Some 1) 30 no_updates 101 11
             (example_db\<lparr>projects := projects example_db @ [row]\<rparr>)))))
     = [Some 11]"
    by (simp add: updateProject_def update_projects_def storage_call_def Let_def
        projects_policy_def project_row_check_def progress_check_def project_key_conflict_def
        update_updated_at_column_projects_def apply_project_updates_def no_updates_def
        or_default_def or_default_null_def referenced_project_ids_def row_def example_defs)
  show ?thesis unfolding c using u by (simp add: row_def example_defs)
qed

section \<open>C5: the range of progress\<close>

lemma progress_check_iff:
  "progress_check p \<longleftrightarrow> (\<forall>v. pj_progress p = Some v \<longrightarrow> 0 \<le> v \<and> v \<le> 100)"
  by (simp add: progress_check_def split: option.splits)

lemma project_row_check_None:
  "project_row_check auth_uid p = None \<longleftrightarrow> projects_policy auth_uid p \<and> progress_check p"
  by (simp add: project_row_check_def)

lemma insert_projects_Inr:
  assumes "insert_projects auth_uid rows d = Inr d'"
  shows "d' = d\<lparr>projects := projects d @ rows\<rparr>"
    and "\<forall>r \<in> set rows. projects_policy auth_uid r \<and> progress_check r"
proof -
  from assms obtain tbl where
    i: "insert_rows (project_row_check auth_uid) project_key_conflict (projects d) rows = Inr tbl"
    and d': "d' = d\<lparr>projects := tbl\<rparr>"
    by (auto simp: insert_projects_def split: sum.splits if_splits)
  from insert_rows_Inr[OF i] show "d' = d\<lparr>projects := projects d @ rows\<rparr>"
    and "\<forall>r \<in> set rows. projects_policy auth_uid r \<and> progress_check r"
    by (simp_all add: d' project_row_check_None)
qed

lemma insert_projects_keeps_range:
  assumes "insert_projects auth_uid rows d = Inr d'" "progress_in_range d"
  shows "progress_in_range d'"
  using insert_projects_Inr[OF assms(1)] assms(2)
  by (auto simp: progress_in_range_def progress_check_iff)

lemma update_projects_keeps_range:
  assumes "update_projects auth_uid now flt upd d = Inr (d', out)" "progress_in_range d"
  shows "progress_in_range d'"
proof -
  note t = update_projects_Inr(1)[OF assms(1)] and c = update_projects_Inr(3)[OF assms(1)]
  have "progress_check q" if "q \<in> set (projects d')" for q
  proof -
    from that obtain p where p: "p \<in> set (projects d)"
      "q = (if projects_policy auth_uid p \<and> flt p then (upd p)\<lparr>pj_updated_at := Some now\<rparr> else p)"
      unfolding t by auto
    show ?thesis
    proof (cases "projects_policy auth_uid p \<and> flt p")
      case True
      with c p show ?thesis by (simp add: project_row_check_None)
    next
      case False
      with p assms(2) show ?thesis by (simp add: progress_in_range_def progress_check_iff)
    qed
  qed
  then show ?thesis by (simp add: progress_in_range_def progress_check_iff)
qed

lemma insert_project_partial_Inr:
  assumes "insert_project_partial auth_uid gen now v d = Inr (d', rows)"
  shows "\<exists>row. rows = [row] \<and> insert_projects auth_uid [row] d = Inr d'
               \<and> pj_progress row = or_default_null (pp_progress v) (Some 0)"
  using assms unfolding insert_project_partial_def Let_def
  by (auto split: option.splits if_splits sum.splits)

lemma createProject_cases:
  "createProject upstream user proj gen js_now now d = (None, d)
   \<or> (\<exists>uid row d'. user = Some uid
         \<and> createProject upstream user proj gen js_now now d = (Some row, d')
         \<and> insert_projects (Some uid) [row] d = Inr d'
         \<and> pj_progress row = or_default_null (pp_progress proj) (Some 0))"
proof (cases user)
  case None
  then show ?thesis by (simp add: createProject_def)
next
  case (Some uid)
  let ?pd = "proj\<lparr>pp_user_id := Some uid, pp_created_at := Some js_now, pp_updated_at := Some js_now\<rparr>"
  let ?st = "storage_call upstream (insert_project_partial (Some uid) gen now ?pd d)"
  show ?thesis
  proof (cases ?st)
    case (Inl e)
    then show ?thesis by (simp add: createProject_def Some Let_def)
  next
    case (Inr res)
    obtain d' rows where res: "res = (d', rows)" by (cases res)
    from Inr have "insert_project_partial (Some uid) gen now ?pd d = Inr (d', rows)"
      by (cases upstream) (simp_all add: storage_call_def res)
    from insert_project_partial_Inr[OF this] obtain row where
      row: "rows = [row]" "insert_projects (Some uid) [row] d = Inr d'"
      "pj_progress row = or_default_null (pp_progress proj) (Some 0)"
      by auto
    have "createProject upstream user proj gen js_now now d = (Some row, d')"
      using Inr by (simp add: createProject_def Some Let_def res row(1))
    with row Some show ?thesis by blast
  qed
qed

lemma updateProject_cases:
  "updateProject upstream user ident updates js_now now d = (None, d)
   \<or> (\<exists>r d'. updateProject upstream user ident updates js_now now d = (Some r, d'))"
proof (cases user)
  case None
  then show ?thesis by (simp add: updateProject_def)
next
  case (Some uid)
  show ?thesis
    unfolding updateProject_def Some Let_def
    by (auto split: sum.splits prod.splits)
qed

text \<open>
  Claim C5, as amended. After every successful creation or update of projects, through the
  statements or through \<^verbatim>\<open>createProject\<close> and \<^verbatim>\<open>updateProject\<close>, every project's progress is
  \<^verbatim>\<open>NULL\<close> or lies in \<open>[0, 100]\<close>, provided that held before; and a mutation that would store
  a progress below 0 or above 100 is rejected and leaves the store unchanged.
\<close>

theorem progress_stays_in_range:
  "(insert_projects auth_uid rows d = Inr d' \<and> progress_in_range d \<longrightarrow> progress_in_range d')
 \<and> (update_projects auth_uid now flt upd d = Inr (du, out) \<and> progress_in_range d \<longrightarrow>
      progress_in_range du)
 \<and> (progress_in_range d \<longrightarrow>
      progress_in_range (snd (createProject upstream user proj gen js_now now d)))
 \<and> (progress_in_range d \<longrightarrow>
      progress_in_range (snd (updateProject upstream user ident updates js_now now d)))
 \<and> ((\<exists>r \<in> set rows. \<exists>v. pj_progress r = Some v \<and> (v < 0 \<or> 100 < v)) \<longrightarrow>
      isl (insert_projects auth_uid rows d))
 \<and> ((\<exists>p \<in> set (projects d). projects_policy auth_uid p \<and> flt p
         \<and> (\<exists>v. pj_progress (upd p) = Some v \<and> (v < 0 \<or> 100 < v))) \<longrightarrow>
      isl (update_projects auth_uid now flt upd d))
 \<and> ((\<exists>v. pp_progress proj = Some v \<and> (v < 0 \<or> 100 < v)) \<longrightarrow>
      createProject upstream user proj gen js_now now d = (None, d))
 \<and> ((\<exists>v. pp_progress updates = Some v \<and> (v < 0 \<or> 100 < v)) \<longrightarrow>
      updateProject upstream user ident updates js_now now d = (None, d))"
proof (intro conjI impI)
  assume "insert_projects auth_uid rows d = Inr d' \<and> progress_in_range d"
  then show "progress_in_range d'" using insert_projects_keeps_range by blast
next
  assume "update_projects auth_uid now flt upd d = Inr (du, out) \<and> progress_in_range d"
  then show "progress_in_range du" using update_projects_keeps_range by blast
next
  assume inv: "progress_in_range d"
  from createProject_cases[of upstream user proj gen js_now now d]
  show "progress_in_range (snd (createProject upstream user proj gen js_now now d))"
    using inv insert_projects_keeps_range by (elim disjE exE conjE) simp_all
next
  assume inv: "progress_in_range d"
  from updateProject_cases[of upstream user ident updates js_now now d]
  show "progress_in_range (snd (updateProject upstream user ident updates js_now now d))"
  proof (elim disjE exE)
    assume "updateProject upstream user ident updates js_now now d = (None, d)"
    then show ?thesis using inv by simp
  next
    fix r d2
    assume e: "updateProject upstream user ident updates js_now now d = (Some r, d2)"
    from updateProject_Some[OF e] inv update_projects_keeps_range
    show ?thesis unfolding e by auto
  qed
next
  assume bad: "\<exists>r \<in> set rows. \<exists>v. pj_progress r = Some v \<and> (v < 0 \<or> 100 < v)"
  show "isl (insert_projects auth_uid rows d)"
  proof (rule ccontr)
    assume "\<not> isl (insert_projects auth_uid rows d)"
    then obtain d2 where "insert_projects auth_uid rows d = Inr d2"
      by (cases "insert_projects auth_uid rows d") auto
    from insert_projects_Inr(2)[OF this] bad show False
      by (auto simp: progress_check_iff)
  qed
next
  assume bad: "\<exists>p \<in> set (projects d). projects_policy auth_uid p \<and> flt p
         \<and> (\<exists>v. pj_progress (upd p) = Some v \<and> (v < 0 \<or> 100 < v))"
  show "isl (update_projects auth_uid now flt upd d)"
  proof (rule ccontr)
    assume "\<not> isl (update_projects auth_uid now flt upd d)"
    then obtain d2 out2 where "update_projects auth_uid now flt upd d = Inr (d2, out2)"
      by (cases "update_projects auth_uid now flt upd d") auto
    from update_projects_Inr(3)[OF this] bad show False
      by (auto simp: project_row_check_None progress_check_iff)
  qed
next
  assume bad: "\<exists>v. pp_progress proj = Some v \<and> (v < 0 \<or> 100 < v)"
  from createProject_cases[of upstream user proj gen js_now now d]
  show "createProject upstream user proj gen js_now now d = (None, d)"
  proof (elim disjE exE conjE)
    fix uid row d2
    assume i: "insert_projects (Some uid) [row] d = Inr d2"
      and p: "pj_progress row = or_default_null (pp_progress proj) (Some 0)"
    from insert_projects_Inr(2)[OF i] have "progress_check row" by simp
    with p bad show ?thesis by (auto simp: progress_check_iff or_default_null_def)
  qed
next
  assume bad: "\<exists>v. pp_progress updates = Some v \<and> (v < 0 \<or> 100 < v)"
  from updateProject_cases[of upstream user ident updates js_now now d]
  show "updateProject upstream user ident updates js_now now d = (None, d)"
  proof (elim disjE exE)
    fix r d2
    assume e: "updateProject upstream user ident updates js_now now d = (Some r, d2)"
    from updateProject_Some[OF e] obtain uid where
      u: "update_projects (Some uid) now (\<lambda>p. pj_id p = ident \<and> pj_user_id p = uid)
            (apply_project_updates (updates\<lparr>pp_updated_at := Some js_now\<rparr>)) d = Inr (d2, [r])"
      by blast
    let ?f = "\<lambda>p. (apply_project_updates (updates\<lparr>pp_updated_at := Some js_now\<rparr>) p)
                   \<lparr>pj_updated_at := Some now\<rparr>"
    let ?target = "\<lambda>p. projects_policy (Some uid) p \<and> pj_id p = ident \<and> pj_user_id p = uid"
    have "r \<in> set (map ?f (filter ?target (projects d)))"
      unfolding update_projects_Inr(2)[OF u, symmetric] by simp
    then obtain p where p: "p \<in> set (projects d)" "?target p" by auto
    with update_projects_Inr(3)[OF u] have "progress_check (?f p)"
      by (simp add: project_row_check_None)
    moreover from bad obtain v where "pj_progress (?f p) = Some v" "v < 0 \<or> 100 < v"
      by (auto simp: apply_project_updates_def or_default_null_def)
    ultimately show ?thesis by (auto simp: progress_check_iff)
  qed
qed

theorem progress_stays_in_range_witness:
  "progress_in_range example_db
   \<and> createProject None (Some 1) (no_updates\<lparr>pp_title := Some ''t'', pp_progress := Some 150\<rparr>)
         11 7 9 example_db = (None, example_db)
   \<and> updateProject None (Some 1) 10 (no_updates\<lparr>pp_progress := Some (- 1)\<rparr>) 7 9 example_db
       = (None, example_db)
   \<and> progress_in_range
         (snd (updateProject None (Some 1) 10 (no_updates\<lparr>pp_progress := Some 100\<rparr>) 7 9
                 example_db))"
proof -
  have inv: "progress_in_range example_db"
    by (simp add: progress_in_range_def example_db_def example_project_def)
  have b1: "\<exists>v. pp_progress (no_updates\<lparr>pp_title := Some ''t'', pp_progress := Some 150\<rparr>) = Some v
                \<and> (v < 0 \<or> 100 < v)"
    by simp
  have b2: "\<exists>v. pp_progress (no_updates\<lparr>pp_progress := Some (- 1)\<rparr>) = Some v \<and> (v < 0 \<or> 100 < v)"
    by simp
  note t1 = progress_stays_in_range[where d = example_db and upstream = None and user = "Some 1"
      and proj = "no_updates\<lparr>pp_title := Some ''t'', pp_progress := Some 150\<rparr>"
      and gen = 11 and js_now = 7 and now = 9 and ident = 10
      and updates = "no_updates\<lparr>pp_progress := Some (- 1)\<rparr>"]
  note t2 = progress_stays_in_range[where d = example_db and upstream = None and user = "Some 1"
      and js_now = 7 and now = 9 and ident = 10
      and updates = "no_updates\<lparr>pp_progress := Some 100\<rparr>"]
  from t1 b1 have c: "createProject None (Some 1)
      (no_updates\<lparr>pp_title := Some ''t'', pp_progress := Some 150\<rparr>) 11 7 9 example_db
      = (None, example_db)" by blast
  from t1 b2 have u: "updateProject None (Some 1) 10 (no_updates\<lparr>pp_progress := Some (- 1)\<rparr>) 7 9
      example_db = (None, example_db)" by blast
  from t2 inv have k: "progress_in_range
         (snd (updateProject None (Some 1) 10 (no_updates\<lparr>pp_progress := Some 100\<rparr>) 7 9
                 example_db))" by blast
  show ?thesis using inv c u k by blast
qed

text \<open>
  The claim as stated fails: a project can be created, or updated, with no progress value at
  all. The check constraint accepts \<^verbatim>\<open>NULL\<close> and the column is nullable.
\<close>

theorem progress_null_counterexample:
  "map pj_progress
     (projects (store_after example_db
        (insert_projects (Some 1) [(example_project 11 1)\<lparr>pj_progress := None\<rparr>] example_db)))
   = [Some 0, Some 0, None]
   \<and> map pj_progress
       (projects (store_after example_db
          (map_sum id fst
             (update_projects (Some 1) 9 (\<lambda>p. pj_id p = 10) (\<lambda>p. p\<lparr>pj_progress := None\<rparr>)
                example_db))))
     = [None, Some 0]"
  by (simp add: store_after_def insert_projects_def update_projects_def Let_def
      projects_policy_def project_row_check_def progress_check_def project_key_conflict_def
      update_updated_at_column_projects_def referenced_project_ids_def example_defs)

section \<open>C1: records of other owners\<close>

subsection \<open>Row loops over a table with rows taken away\<close>

text \<open>
  \<open>clash\<close> is the relation behind a unique-index test: two rows that cannot both be in the
  table. The loops run alike on the table and on the table without the rows that \<open>keep\<close>
  takes away, as long as the rows written are kept and clash with none taken away.
\<close>

lemma insert_rows_hide:
  assumes C: "\<And>x t. conflict x t = (\<exists>y \<in> set t. clash x y)"
    and K: "\<forall>x \<in> set rows. chk x = None \<longrightarrow> keep x"
    and N: "\<forall>x \<in> set rows. chk x = None \<longrightarrow> (\<forall>y \<in> set tbl. \<not> keep y \<longrightarrow> \<not> clash x y)"
  shows "insert_rows chk conflict (filter keep tbl) rows
         = map_sum (\<lambda>e. e) (filter keep) (insert_rows chk conflict tbl rows)"
  using K N
proof (induction rows arbitrary: tbl)
  case Nil
  then show ?case by simp
next
  case (Cons x xs)
  show ?case
  proof (cases "chk x")
    case (Some e)
    then show ?thesis by simp
  next
    case None
    with Cons.prems have kx: "keep x" and nx: "\<forall>y \<in> set tbl. \<not> keep y \<longrightarrow> \<not> clash x y"
      by simp_all
    have c: "conflict x (filter keep tbl) = conflict x tbl"
      unfolding C using nx by auto
    have K': "\<forall>x \<in> set xs. chk x = None \<longrightarrow> keep x" using Cons.prems(1) by simp
    have N': "\<forall>x' \<in> set xs. chk x' = None \<longrightarrow> (\<forall>y \<in> set (tbl @ [x]). \<not> keep y \<longrightarrow> \<not> clash x' y)"
      using Cons.prems(2) kx by auto
    have "insert_rows chk conflict (filter keep (tbl @ [x])) xs
          = map_sum (\<lambda>e. e) (filter keep) (insert_rows chk conflict (tbl @ [x]) xs)"
      by (rule Cons.IH[OF K' N'])
    then show ?thesis using None kx c by simp
  qed
qed

lemma update_rows_hide:
  assumes C: "\<And>x t. conflict x t = (\<exists>y \<in> set t. clash x y)"
    and T: "\<forall>x \<in> set rest. target x \<longrightarrow> keep x"
    and N: "\<forall>x \<in> set rest. \<forall>x'. target x \<longrightarrow> new x = Inr x' \<longrightarrow>
              keep x' \<and> (\<forall>y \<in> set seen \<union> set rest. \<not> keep y \<longrightarrow> \<not> clash x' y)"
  shows "update_rows target new conflict (filter keep seen) (filter keep rest)
         = map_sum (\<lambda>e. e) (filter keep) (update_rows target new conflict seen rest)"
  using T N
proof (induction rest arbitrary: seen)
  case Nil
  then show ?case by simp
next
  case (Cons x xs)
  have T': "\<forall>x \<in> set xs. target x \<longrightarrow> keep x" using Cons.prems(1) by simp
  have N': "\<forall>z \<in> set xs. \<forall>z'. target z \<longrightarrow> new z = Inr z' \<longrightarrow>
              keep z' \<and> (\<forall>y \<in> set (seen @ [w]) \<union> set xs. \<not> keep y \<longrightarrow> \<not> clash z' y)"
    if "keep w \<or> w = x" for w
    using Cons.prems(2) that by auto
  show ?case
  proof (cases "target x")
    case True
    then have kx: "keep x" using Cons.prems(1) by simp
    show ?thesis
    proof (cases "new x")
      case (Inl e)
      then show ?thesis using True kx by simp
    next
      case (Inr x')
      with Cons.prems(2) True have kx': "keep x'"
        and nx: "\<forall>y \<in> set seen \<union> set (x # xs). \<not> keep y \<longrightarrow> \<not> clash x' y"
        by auto
      have c: "conflict x' (filter keep seen @ filter keep xs) = conflict x' (seen @ xs)"
        unfolding C using nx by auto
      have "update_rows target new conflict (filter keep (seen @ [x'])) (filter keep xs)
            = map_sum (\<lambda>e. e) (filter keep) (update_rows target new conflict (seen @ [x']) xs)"
        using kx' by (intro Cons.IH[OF T' N']) simp
      then show ?thesis using True kx Inr kx' c by simp
    qed
  next
    case False
    have "update_rows target new conflict (filter keep (seen @ [x])) (filter keep xs)
          = map_sum (\<lambda>e. e) (filter keep) (update_rows target new conflict (seen @ [x]) xs)"
      by (intro Cons.IH[OF T' N']) simp
    then show ?thesis using False by (cases "keep x") simp_all
  qed
qed

lemma filter_target_kept:
  assumes "\<forall>x \<in> set xs. target x \<longrightarrow> keep x"
  shows "filter target (filter keep xs) = filter target xs"
  using assms by (induction xs) auto

lemma filter_not_target_kept:
  "filter (\<lambda>x. \<not> target x) (filter keep xs) = filter keep (filter (\<lambda>x. \<not> target x) xs)"
  by (induction xs) auto

subsection \<open>What the caller can see is kept\<close>

lemma restrict_db_tables [simp]:
  "projects (restrict_db k d) = filter (keep_project k) (projects d)"
  "clients (restrict_db k d) = filter (keep_client k) (clients d)"
  "project_clients (restrict_db k d) = filter (keep_link k) (project_clients d)"
  "tasks (restrict_db k d) = filter (keep_task k) (tasks d)"
  "project_timeline (restrict_db k d) = filter (keep_milestone k) (project_timeline d)"
  "profiles (restrict_db k d) = profiles d"
  "auth_users (restrict_db k d) = auth_users d"
  by (simp_all add: restrict_db_def)

lemma own_project_kept:
  assumes "unseen auth_uid k d" "p \<in> set (projects d)" "Some (pj_user_id p) = auth_uid"
  shows "keep_project k p"
proof (rule ccontr)
  assume "\<not> keep_project k p"
  with assms(1,2) have "\<not> owns_project auth_uid d (pj_id p)" by (simp add: unseen_def)
  moreover have "owns_project auth_uid d (pj_id p)"
    unfolding owns_project_def using assms(2,3) by blast
  ultimately show False by simp
qed

lemma owns_project_restrict:
  assumes "unseen auth_uid k d"
  shows "owns_project auth_uid (restrict_db k d) x = owns_project auth_uid d x"
proof
  assume "owns_project auth_uid (restrict_db k d) x"
  then show "owns_project auth_uid d x" by (auto simp: owns_project_def)
next
  assume "owns_project auth_uid d x"
  then obtain p where p: "p \<in> set (projects d)" "pj_id p = x" "Some (pj_user_id p) = auth_uid"
    by (auto simp: owns_project_def)
  from own_project_kept[OF assms p(1,3)] p
  show "owns_project auth_uid (restrict_db k d) x"
    unfolding owns_project_def by auto
qed

lemma policies_restrict:
  assumes "unseen auth_uid k d"
  shows "project_clients_policy auth_uid (restrict_db k d) = project_clients_policy auth_uid d"
    and "tasks_policy auth_uid (restrict_db k d) = tasks_policy auth_uid d"
    and "project_timeline_policy auth_uid (restrict_db k d) = project_timeline_policy auth_uid d"
    and "project_client_row_check auth_uid (restrict_db k d) = project_client_row_check auth_uid d"
    and "task_row_check auth_uid (restrict_db k d) = task_row_check auth_uid d"
    and "timeline_row_check auth_uid (restrict_db k d) = timeline_row_check auth_uid d"
  by (rule ext; simp add: project_clients_policy_def tasks_policy_def project_timeline_policy_def
      project_client_row_check_def task_row_check_def timeline_row_check_def
      owns_project_restrict[OF assms])+

lemma visible_kept:
  assumes u: "unseen auth_uid k d"
  shows "\<forall>p \<in> set (projects d). projects_policy auth_uid p \<longrightarrow> keep_project k p"
    and "\<forall>c \<in> set (clients d). clients_policy auth_uid c \<longrightarrow> keep_client k c"
    and "\<forall>l \<in> set (project_clients d). project_clients_policy auth_uid d l \<longrightarrow> keep_link k l"
    and "\<forall>t \<in> set (tasks d). tasks_policy auth_uid d t \<longrightarrow> keep_task k t"
    and "\<forall>e \<in> set (project_timeline d). project_timeline_policy auth_uid d e \<longrightarrow> keep_milestone k e"
proof -
  show "\<forall>p \<in> set (projects d). projects_policy auth_uid p \<longrightarrow> keep_project k p"
    using own_project_kept[OF u] by (auto simp: projects_policy_def)
  show "\<forall>c \<in> set (clients d). clients_policy auth_uid c \<longrightarrow> keep_client k c"
    using u unfolding unseen_def by blast
  show "\<forall>l \<in> set (project_clients d). project_clients_policy auth_uid d l \<longrightarrow> keep_link k l"
    using u unfolding unseen_def project_clients_policy_def by blast
  show "\<forall>t \<in> set (tasks d). tasks_policy auth_uid d t \<longrightarrow> keep_task k t"
    using u unfolding unseen_def tasks_policy_def by blast
  show "\<forall>e \<in> set (project_timeline d). project_timeline_policy auth_uid d e \<longrightarrow> keep_milestone k e"
    using u unfolding unseen_def project_timeline_policy_def by blast
qed

lemma filter_visible:
  assumes "\<forall>x \<in> set xs. policy x \<longrightarrow> keep x"
  shows "filter (\<lambda>x. policy x \<and> flt x) (filter keep xs) = filter (\<lambda>x. policy x \<and> flt x) xs"
  using assms by (induction xs) auto

lemma select_restrict:
  assumes u: "unseen auth_uid k d"
  shows "select_projects auth_uid fp (restrict_db k d) = select_projects auth_uid fp d"
    and "select_clients auth_uid fc (restrict_db k d) = select_clients auth_uid fc d"
    and "select_project_clients auth_uid fl (restrict_db k d) = select_project_clients auth_uid fl d"
    and "select_tasks auth_uid ft (restrict_db k d) = select_tasks auth_uid ft d"
    and "select_project_timeline auth_uid fe (restrict_db k d)
         = select_project_timeline auth_uid fe d"
  unfolding select_projects_def select_clients_def select_project_clients_def select_tasks_def
    select_project_timeline_def policies_restrict[OF u] restrict_db_tables
  by (intro filter_visible visible_kept[OF u])+

lemma getProject_restrict:
  assumes u: "unseen user k d"
  shows "getProject upstream user ident (restrict_db k d) = getProject upstream user ident d"
proof (cases user)
  case None
  then show ?thesis by (simp add: getProject_def)
next
  case (Some uid)
  note u' = u[unfolded Some]
  have "embed_project (Some uid) (restrict_db k d) = embed_project (Some uid) d"
    by (rule ext) (simp add: embed_project_def select_restrict[OF u'])
  then show ?thesis
    unfolding getProject_def Some by (simp add: select_restrict[OF u'])
qed

subsection \<open>Statements on projects and clients\<close>

lemma restrict_db_update:
  "(restrict_db k d)\<lparr>projects := filter (keep_project k) ps\<rparr> = restrict_db k (d\<lparr>projects := ps\<rparr>)"
  "(restrict_db k d)\<lparr>clients := filter (keep_client k) cs\<rparr> = restrict_db k (d\<lparr>clients := cs\<rparr>)"
  "(restrict_db k d)\<lparr>project_clients := filter (keep_link k) ls\<rparr>
     = restrict_db k (d\<lparr>project_clients := ls\<rparr>)"
  "(restrict_db k d)\<lparr>tasks := filter (keep_task k) ts\<rparr> = restrict_db k (d\<lparr>tasks := ts\<rparr>)"
  "(restrict_db k d)\<lparr>project_timeline := filter (keep_milestone k) es\<rparr>
     = restrict_db k (d\<lparr>project_timeline := es\<rparr>)"
  by (simp_all add: restrict_db_def)

lemma key_conflict_clash:
  "project_key_conflict x ps = (\<exists>y \<in> set ps. pj_id x = pj_id y)"
  "client_key_conflict c cs = (\<exists>y \<in> set cs. cl_id c = cl_id y)"
  "task_key_conflict t ts = (\<exists>y \<in> set ts. tk_id t = tk_id y)"
  "timeline_key_conflict e es = (\<exists>y \<in> set es. tl_id e = tl_id y)"
  "project_client_key_conflict l ls
     = (\<exists>y \<in> set ls. pc_id l = pc_id y
                     \<or> (pc_project_id l = pc_project_id y \<and> pc_client_id l = pc_client_id y))"
  by (auto simp: project_key_conflict_def client_key_conflict_def task_key_conflict_def
      timeline_key_conflict_def project_client_key_conflict_def)

lemma insert_projects_restrict:
  assumes K: "\<forall>x \<in> set rows. keep_project k x"
    and N: "\<forall>x \<in> set rows. \<forall>y \<in> set (projects d). \<not> keep_project k y \<longrightarrow> pj_id x \<noteq> pj_id y"
  shows "insert_projects auth_uid rows (restrict_db k d)
         = map_sum (\<lambda>e. e) (restrict_db k) (insert_projects auth_uid rows d)"
proof -
  have i: "insert_rows (project_row_check auth_uid) project_key_conflict
             (filter (keep_project k) (projects d)) rows
           = map_sum (\<lambda>e. e) (filter (keep_project k))
               (insert_rows (project_row_check auth_uid) project_key_conflict (projects d) rows)"
    using K N by (intro insert_rows_hide[where clash = "\<lambda>x y. pj_id x = pj_id y"])
      (simp_all add: key_conflict_clash)
  show ?thesis
    unfolding insert_projects_def restrict_db_tables i
    by (cases "insert_rows (project_row_check auth_uid) project_key_conflict (projects d) rows")
      (simp_all add: restrict_db_update)
qed

lemma insert_clients_restrict:
  assumes K: "\<forall>x \<in> set rows. keep_client k x"
    and N: "\<forall>x \<in> set rows. \<forall>y \<in> set (clients d). \<not> keep_client k y \<longrightarrow> cl_id x \<noteq> cl_id y"
  shows "insert_clients auth_uid rows (restrict_db k d)
         = map_sum (\<lambda>e. e) (restrict_db k) (insert_clients auth_uid rows d)"
proof -
  have i: "insert_rows (client_row_check auth_uid) client_key_conflict
             (filter (keep_client k) (clients d)) rows
           = map_sum (\<lambda>e. e) (filter (keep_client k))
               (insert_rows (client_row_check auth_uid) client_key_conflict (clients d) rows)"
    using K N by (intro insert_rows_hide[where clash = "\<lambda>x y. cl_id x = cl_id y"])
      (simp_all add: key_conflict_clash)
  show ?thesis
    unfolding insert_clients_def restrict_db_tables i
    by (cases "insert_rows (client_row_check auth_uid) client_key_conflict (clients d) rows")
      (simp_all add: restrict_db_update)
qed

lemma delete_projects_restrict:
  assumes u: "unseen auth_uid k d"
  shows "delete_projects auth_uid flt (restrict_db k d)
         = restrict_db k (delete_projects auth_uid flt d)"
proof -
  let ?T = "\<lambda>p. projects_policy auth_uid p \<and> flt p"
  have T: "\<forall>p \<in> set (projects d). ?T p \<longrightarrow> keep_project k p"
    using visible_kept(1)[OF u] by simp
  show ?thesis
    unfolding delete_projects_def delete_projects_where_def restrict_db_tables
      filter_target_kept[OF T] filter_not_target_kept
    by (simp add: restrict_db_def cascade_projects_def conj_commute)
qed

lemma delete_clients_restrict:
  assumes u: "unseen auth_uid k d"
  shows "delete_clients auth_uid flt (restrict_db k d)
         = restrict_db k (delete_clients auth_uid flt d)"
proof -
  let ?T = "\<lambda>c. clients_policy auth_uid c \<and> flt c"
  have T: "\<forall>c \<in> set (clients d). ?T c \<longrightarrow> keep_client k c"
    using visible_kept(2)[OF u] by simp
  show ?thesis
    unfolding delete_clients_def delete_clients_where_def restrict_db_tables
      filter_target_kept[OF T] filter_not_target_kept
    by (simp add: restrict_db_def cascade_clients_def conj_commute)
qed

lemma update_projects_restrict:
  assumes u: "unseen auth_uid k d"
    and N: "\<forall>p \<in> set (projects d). projects_policy auth_uid p \<and> flt p \<longrightarrow>
              keep_project k (update_updated_at_column_projects now (upd p))
              \<and> (\<forall>y \<in> set (projects d). \<not> keep_project k y \<longrightarrow> pj_id (upd p) \<noteq> pj_id y)"
  shows "update_projects auth_uid now flt upd (restrict_db k d)
         = map_sum (\<lambda>e. e) (\<lambda>(d', out). (restrict_db k d', out))
             (update_projects auth_uid now flt upd d)"
proof -
  let ?keep = "keep_project k"
  let ?target = "\<lambda>p. projects_policy auth_uid p \<and> flt p"
  let ?new_row = "\<lambda>p. update_updated_at_column_projects now (upd p)"
  let ?new = "\<lambda>p. case project_row_check auth_uid (?new_row p) of
                        Some e \<Rightarrow> Inl e | None \<Rightarrow> Inr (?new_row p)"
  let ?tids = "pj_id ` set (filter ?target (projects d))"
  have T: "\<forall>x \<in> set (projects d). ?target x \<longrightarrow> ?keep x"
    using visible_kept(1)[OF u] by simp
  have N': "\<forall>x \<in> set (projects d). \<forall>x'. ?target x \<longrightarrow> ?new x = Inr x' \<longrightarrow>
              ?keep x' \<and> (\<forall>y \<in> set [] \<union> set (projects d). \<not> ?keep y \<longrightarrow> pj_id x' \<noteq> pj_id y)"
    using N by (auto simp: update_updated_at_column_projects_def split: option.splits)
  have up: "update_rows ?target ?new project_key_conflict [] (filter ?keep (projects d))
           = map_sum (\<lambda>e. e) (filter ?keep)
               (update_rows ?target ?new project_key_conflict [] (projects d))"
    using update_rows_hide[where seen = "[]" and clash = "\<lambda>x y. pj_id x = pj_id y"
        and conflict = project_key_conflict, OF _ T N']
    by (simp add: key_conflict_clash)
  note tg = filter_target_kept[OF T]
  have owned: "owns_project auth_uid d i" if "i \<in> ?tids" for i
    using that by (auto simp: owns_project_def projects_policy_def)
  show ?thesis
  proof (cases "update_rows ?target ?new project_key_conflict [] (projects d)")
    case (Inl e)
    then show ?thesis
      unfolding update_projects_def Let_def restrict_db_tables up by simp
  next
    case (Inr tbl)
    from update_rows_Inr[OF Inr]
    have ok: "\<forall>r \<in> set (projects d). ?target r \<longrightarrow> (\<exists>r'. ?new r = Inr r')"
      and tbl: "tbl = map (\<lambda>r. if ?target r then projr (?new r) else r) (projects d)"
      by simp_all
    define C where "C \<longleftrightarrow> (\<exists>i \<in> set (referenced_project_ids d). i \<in> ?tids \<and> i \<notin> pj_id ` set tbl)"
    have kept_id: "i \<in> pj_id ` set (filter ?keep tbl)" if i: "i \<in> ?tids" "i \<in> pj_id ` set tbl" for i
    proof -
      from i(2) obtain y where y: "y \<in> set tbl" "pj_id y = i" by auto
      from y(1) obtain p where p: "p \<in> set (projects d)"
        "y = (if ?target p then projr (?new p) else p)"
        unfolding tbl by auto
      have "?keep y"
      proof (cases "?target p")
        case True
        with ok p(1) obtain r' where "?new p = Inr r'" by blast
        with N' p True show ?thesis by auto
      next
        case False
        with p have yp: "y = p" by simp
        show ?thesis
        proof (rule ccontr)
          assume "\<not> ?keep y"
          with u p(1) yp have "\<not> owns_project auth_uid d (pj_id p)" by (simp add: unseen_def)
          with owned[OF i(1)] y(2) yp show False by simp
        qed
      qed
      with y show ?thesis by (intro image_eqI[where x = y]) simp_all
    qed
    have kept_ref: "i \<in> set (referenced_project_ids (restrict_db k d))"
      if i: "i \<in> ?tids" "i \<in> set (referenced_project_ids d)" for i
    proof -
      note o = owned[OF i(1)]
      from i(2) consider
          l where "l \<in> set (project_clients d)" "pc_project_id l = i"
        | t where "t \<in> set (tasks d)" "tk_project_id t = i"
        | e where "e \<in> set (project_timeline d)" "tl_project_id e = i"
        by (auto simp: referenced_project_ids_def)
      then show ?thesis
      proof cases
        case 1
        with u o have "keep_link k l" unfolding unseen_def by blast
        with 1 show ?thesis
          unfolding referenced_project_ids_def restrict_db_tables by force
      next
        case 2
        with u o have "keep_task k t" unfolding unseen_def by blast
        with 2 show ?thesis
          unfolding referenced_project_ids_def restrict_db_tables by force
      next
        case 3
        with u o have "keep_milestone k e" unfolding unseen_def by blast
        with 3 show ?thesis
          unfolding referenced_project_ids_def restrict_db_tables by force
      qed
    qed
    have sub: "set (referenced_project_ids (restrict_db k d)) \<subseteq> set (referenced_project_ids d)"
      by (auto simp: referenced_project_ids_def)
    have fk: "(\<exists>i \<in> set (referenced_project_ids (restrict_db k d)).
                i \<in> ?tids \<and> i \<notin> pj_id ` set (filter ?keep tbl)) \<longleftrightarrow> C"
      unfolding C_def using kept_id kept_ref sub by (meson image_mono filter_is_subset subsetD)
    show ?thesis
      unfolding update_projects_def Let_def restrict_db_tables up tg Inr map_sum.simps sum.case
        fk C_def[symmetric]
      by (cases C) (simp_all add: restrict_db_update)
  qed
qed

lemma update_clients_restrict:
  assumes u: "unseen auth_uid k d"
    and N: "\<forall>c \<in> set (clients d). clients_policy auth_uid c \<and> flt c \<longrightarrow>
              keep_client k (update_updated_at_column_clients now (upd c))
              \<and> (\<forall>y \<in> set (clients d). \<not> keep_client k y \<longrightarrow> cl_id (upd c) \<noteq> cl_id y)"
    and F: "\<forall>c \<in> set (clients d). clients_policy auth_uid c \<and> flt c \<longrightarrow>
              (\<forall>l \<in> set (project_clients d). \<not> keep_link k l \<and> pc_client_id l = cl_id c \<longrightarrow>
                 cl_id (upd c) = cl_id c)"
  shows "update_clients auth_uid now flt upd (restrict_db k d)
         = map_sum (\<lambda>e. e) (\<lambda>(d', out). (restrict_db k d', out))
             (update_clients auth_uid now flt upd d)"
proof -
  let ?keep = "keep_client k"
  let ?target = "\<lambda>c. clients_policy auth_uid c \<and> flt c"
  let ?new_row = "\<lambda>c. update_updated_at_column_clients now (upd c)"
  let ?new = "\<lambda>c. case client_row_check auth_uid (?new_row c) of
                        Some e \<Rightarrow> Inl e | None \<Rightarrow> Inr (?new_row c)"
  let ?tids = "cl_id ` set (filter ?target (clients d))"
  have T: "\<forall>x \<in> set (clients d). ?target x \<longrightarrow> ?keep x"
    using visible_kept(2)[OF u] by simp
  have N': "\<forall>x \<in> set (clients d). \<forall>x'. ?target x \<longrightarrow> ?new x = Inr x' \<longrightarrow>
              ?keep x' \<and> (\<forall>y \<in> set [] \<union> set (clients d). \<not> ?keep y \<longrightarrow> cl_id x' \<noteq> cl_id y)"
    using N by (auto simp: update_updated_at_column_clients_def split: option.splits)
  have up: "update_rows ?target ?new client_key_conflict [] (filter ?keep (clients d))
           = map_sum (\<lambda>e. e) (filter ?keep)
               (update_rows ?target ?new client_key_conflict [] (clients d))"
    using update_rows_hide[where seen = "[]" and clash = "\<lambda>x y. cl_id x = cl_id y"
        and conflict = client_key_conflict, OF _ T N']
    by (simp add: key_conflict_clash)
  note tg = filter_target_kept[OF T]
  show ?thesis
  proof (cases "update_rows ?target ?new client_key_conflict [] (clients d)")
    case (Inl e)
    then show ?thesis
      unfolding update_clients_def Let_def restrict_db_tables up by simp
  next
    case (Inr tbl)
    from update_rows_Inr[OF Inr]
    have ok: "\<forall>r \<in> set (clients d). ?target r \<longrightarrow> (\<exists>r'. ?new r = Inr r')"
      and tbl: "tbl = map (\<lambda>r. if ?target r then projr (?new r) else r) (clients d)"
      by simp_all
    have newrow: "projr (?new c) = ?new_row c" if "c \<in> set (clients d)" "?target c" for c
      using ok that by (auto split: option.splits)
    define C where "C \<longleftrightarrow> (\<exists>i \<in> set (map pc_client_id (project_clients d)).
                              i \<in> ?tids \<and> i \<notin> cl_id ` set tbl)"
    have kept_id: "i \<in> cl_id ` set (filter ?keep tbl)" if i: "i \<in> ?tids" "i \<in> cl_id ` set tbl" for i
    proof -
      from i(2) obtain y where y: "y \<in> set tbl" "cl_id y = i" by auto
      from y(1) obtain c where c: "c \<in> set (clients d)"
        "y = (if ?target c then projr (?new c) else c)"
        unfolding tbl by auto
      have "?keep y"
      proof (cases "?target c")
        case True
        with ok c(1) obtain r' where "?new c = Inr r'" by blast
        with N' c True show ?thesis by auto
      next
        case False
        with c have yc: "y = c" by simp
        show ?thesis
        proof (rule ccontr)
          assume nk: "\<not> ?keep y"
          from i(1) obtain q where q: "q \<in> set (clients d)" "?target q" "cl_id q = i" by auto
          from u c(1) nk yc q(1,3) y(2) have "\<not> clients_policy auth_uid q"
            unfolding unseen_def by blast
          with q(2) show False by simp
        qed
      qed
      with y show ?thesis by (intro image_eqI[where x = y]) simp_all
    qed
    have kept_ref: "i \<in> set (map pc_client_id (filter (keep_link k) (project_clients d)))"
      if i: "i \<in> ?tids" "i \<in> set (map pc_client_id (project_clients d))" "i \<notin> cl_id ` set tbl" for i
    proof -
      from i(2) obtain l where l: "l \<in> set (project_clients d)" "pc_client_id l = i" by auto
      from i(1) obtain c where c: "c \<in> set (clients d)" "?target c" "cl_id c = i" by auto
      have "keep_link k l"
      proof (rule ccontr)
        assume "\<not> keep_link k l"
        with F c l have same: "cl_id (upd c) = cl_id c" by blast
        have "projr (?new c) \<in> set tbl"
          unfolding tbl set_map using c(1,2) by (intro image_eqI[where x = c]) simp_all
        then have "?new_row c \<in> set tbl" using newrow[OF c(1,2)] by simp
        moreover have "cl_id (?new_row c) = i"
          using same c(3) by (simp add: update_updated_at_column_clients_def)
        ultimately have "i \<in> cl_id ` set tbl" by (intro image_eqI[where x = "?new_row c"]) simp_all
        with i(3) show False by simp
      qed
      with l show ?thesis by force
    qed
    have fk: "(\<exists>i \<in> set (map pc_client_id (filter (keep_link k) (project_clients d))).
                i \<in> ?tids \<and> i \<notin> cl_id ` set (filter ?keep tbl)) \<longleftrightarrow> C"
    proof
      assume "\<exists>i \<in> set (map pc_client_id (filter (keep_link k) (project_clients d))).
                i \<in> ?tids \<and> i \<notin> cl_id ` set (filter ?keep tbl)"
      then obtain i where i: "i \<in> set (map pc_client_id (filter (keep_link k) (project_clients d)))"
        "i \<in> ?tids" "i \<notin> cl_id ` set (filter ?keep tbl)" by blast
      from i(1) have "i \<in> set (map pc_client_id (project_clients d))" by auto
      moreover from i(2,3) kept_id have "i \<notin> cl_id ` set tbl" by blast
      ultimately show C unfolding C_def using i(2) by blast
    next
      assume C
      then obtain i where i: "i \<in> set (map pc_client_id (project_clients d))"
        "i \<in> ?tids" "i \<notin> cl_id ` set tbl" unfolding C_def by blast
      from kept_ref[OF i(2,1,3)]
      have "i \<in> set (map pc_client_id (filter (keep_link k) (project_clients d)))" .
      moreover from i(3) have "i \<notin> cl_id ` set (filter ?keep tbl)" by auto
      ultimately show "\<exists>i \<in> set (map pc_client_id (filter (keep_link k) (project_clients d))).
                i \<in> ?tids \<and> i \<notin> cl_id ` set (filter ?keep tbl)"
        using i(2) by blast
    qed
    show ?thesis
      unfolding update_clients_def Let_def restrict_db_tables up tg Inr map_sum.simps sum.case
        fk C_def[symmetric]
      by (cases C) (simp_all add: restrict_db_update)
  qed
qed

subsection \<open>Statements on the child tables\<close>

lemma owned_project_kept_id:
  assumes u: "unseen auth_uid k d" and o: "owns_project auth_uid d i"
  shows "i \<in> pj_id ` set (filter (keep_project k) (projects d))"
proof -
  from o obtain p where p: "p \<in> set (projects d)" "pj_id p = i" "Some (pj_user_id p) = auth_uid"
    by (auto simp: owns_project_def)
  from own_project_kept[OF u p(1,3)] p show ?thesis by (intro image_eqI[where x = p]) simp_all
qed

lemma insert_project_clients_restrict:
  assumes u: "unseen auth_uid k d"
    and K: "\<forall>x \<in> set rows. project_clients_policy auth_uid d x \<longrightarrow> keep_link k x"
    and N: "\<forall>x \<in> set rows. project_clients_policy auth_uid d x \<longrightarrow>
              (\<forall>y \<in> set (project_clients d). \<not> keep_link k y \<longrightarrow>
                 \<not> (pc_id x = pc_id y
                    \<or> (pc_project_id x = pc_project_id y \<and> pc_client_id x = pc_client_id y)))"
    and FK: "\<forall>x \<in> set rows. pc_client_id x \<in> cl_id ` set (clients d) \<longrightarrow>
               pc_client_id x \<in> cl_id ` set (filter (keep_client k) (clients d))"
  shows "insert_project_clients auth_uid rows (restrict_db k d)
         = map_sum (\<lambda>e. e) (restrict_db k) (insert_project_clients auth_uid rows d)"
proof -
  let ?chk = "project_client_row_check auth_uid d"
  have none: "?chk x = None \<longleftrightarrow> project_clients_policy auth_uid d x" for x
    by (simp add: project_client_row_check_def)
  have i: "insert_rows ?chk project_client_key_conflict
             (filter (keep_link k) (project_clients d)) rows
           = map_sum (\<lambda>e. e) (filter (keep_link k))
               (insert_rows ?chk project_client_key_conflict (project_clients d) rows)"
    using K N
    by (intro insert_rows_hide[where clash = "\<lambda>x y. pc_id x = pc_id y
                 \<or> (pc_project_id x = pc_project_id y \<and> pc_client_id x = pc_client_id y)"])
      (simp_all add: key_conflict_clash none)
  show ?thesis
  proof (cases "insert_rows ?chk project_client_key_conflict (project_clients d) rows")
    case (Inl e)
    then show ?thesis
      unfolding insert_project_clients_def policies_restrict[OF u] restrict_db_tables i by simp
  next
    case (Inr tbl)
    from insert_rows_Inr[OF Inr] have own: "\<forall>r \<in> set rows. owns_project auth_uid d (pc_project_id r)"
      by (simp add: none project_clients_policy_def)
    define C where "C \<longleftrightarrow> (\<exists>r \<in> set rows. pc_project_id r \<notin> pj_id ` set (projects d)
                            \<or> pc_client_id r \<notin> cl_id ` set (clients d))"
    have p1: "pc_project_id r \<in> pj_id ` set (filter (keep_project k) (projects d))"
      if "r \<in> set rows" for r
      using owned_project_kept_id[OF u] own that by blast
    have p2: "pc_project_id r \<in> pj_id ` set (projects d)" if "r \<in> set rows" for r
      using p1[OF that] by auto
    have c1: "pc_client_id r \<in> cl_id ` set (filter (keep_client k) (clients d))
              \<longleftrightarrow> pc_client_id r \<in> cl_id ` set (clients d)" if "r \<in> set rows" for r
      using FK that by auto
    have fk: "(\<exists>r \<in> set rows. pc_project_id r \<notin> pj_id ` set (filter (keep_project k) (projects d))
                            \<or> pc_client_id r \<notin> cl_id ` set (filter (keep_client k) (clients d)))
              \<longleftrightarrow> C"
      unfolding C_def using p1 p2 c1 by blast
    show ?thesis
      unfolding insert_project_clients_def policies_restrict[OF u] restrict_db_tables i Inr
        map_sum.simps sum.case fk C_def[symmetric]
      by (cases C) (simp_all add: restrict_db_update)
  qed
qed

lemma update_project_clients_restrict:
  assumes u: "unseen auth_uid k d"
    and N: "\<forall>l \<in> set (project_clients d).
              project_clients_policy auth_uid d l \<and> flt l
              \<and> project_clients_policy auth_uid d (upd l) \<longrightarrow>
                keep_link k (upd l)
                \<and> (\<forall>y \<in> set (project_clients d). \<not> keep_link k y \<longrightarrow>
                      \<not> (pc_id (upd l) = pc_id y
                         \<or> (pc_project_id (upd l) = pc_project_id y
                            \<and> pc_client_id (upd l) = pc_client_id y)))"
    and FK: "\<forall>l \<in> set (project_clients d). project_clients_policy auth_uid d l \<and> flt l \<longrightarrow>
               pc_client_id (upd l) \<in> cl_id ` set (clients d) \<longrightarrow>
               pc_client_id (upd l) \<in> cl_id ` set (filter (keep_client k) (clients d))"
  shows "update_project_clients auth_uid flt upd (restrict_db k d)
         = map_sum (\<lambda>e. e) (\<lambda>(d', out). (restrict_db k d', out))
             (update_project_clients auth_uid flt upd d)"
proof -
  let ?keep = "keep_link k"
  let ?target = "\<lambda>l. project_clients_policy auth_uid d l \<and> flt l"
  let ?new = "\<lambda>l. case project_client_row_check auth_uid d (upd l) of
                        Some e \<Rightarrow> Inl e | None \<Rightarrow> Inr (upd l)"
  have T: "\<forall>x \<in> set (project_clients d). ?target x \<longrightarrow> ?keep x"
    using visible_kept(3)[OF u] by simp
  have N': "\<forall>x \<in> set (project_clients d). \<forall>x'. ?target x \<longrightarrow> ?new x = Inr x' \<longrightarrow>
              ?keep x' \<and> (\<forall>y \<in> set [] \<union> set (project_clients d). \<not> ?keep y \<longrightarrow>
                 \<not> (pc_id x' = pc_id y
                    \<or> (pc_project_id x' = pc_project_id y \<and> pc_client_id x' = pc_client_id y)))"
    using N by (auto simp: project_client_row_check_def split: option.splits if_splits)
  have up: "update_rows ?target ?new project_client_key_conflict [] (filter ?keep (project_clients d))
           = map_sum (\<lambda>e. e) (filter ?keep)
               (update_rows ?target ?new project_client_key_conflict [] (project_clients d))"
    using update_rows_hide[where seen = "[]" and conflict = project_client_key_conflict
        and clash = "\<lambda>x y. pc_id x = pc_id y
                 \<or> (pc_project_id x = pc_project_id y \<and> pc_client_id x = pc_client_id y)",
        OF _ T N']
    by (simp add: key_conflict_clash)
  note tg = filter_target_kept[OF T]
  define C where "C \<longleftrightarrow> (\<exists>l \<in> set (filter ?target (project_clients d)).
                            pc_client_id (upd l) \<notin> cl_id ` set (clients d))"
  have fk: "(\<exists>l \<in> set (filter ?target (project_clients d)).
               pc_client_id (upd l) \<notin> cl_id ` set (filter (keep_client k) (clients d))) \<longleftrightarrow> C"
    unfolding C_def using FK by auto
  show ?thesis
    unfolding update_project_clients_def Let_def policies_restrict[OF u] restrict_db_tables up tg
      fk C_def[symmetric]
    by (cases "update_rows ?target ?new project_client_key_conflict [] (project_clients d)"; cases C)
      (simp_all add: restrict_db_update)
qed

lemma delete_project_clients_restrict:
  assumes u: "unseen auth_uid k d"
  shows "delete_project_clients auth_uid flt (restrict_db k d)
         = restrict_db k (delete_project_clients auth_uid flt d)"
  unfolding delete_project_clients_def policies_restrict[OF u] restrict_db_tables
    filter_not_target_kept restrict_db_update ..

lemma insert_tasks_restrict:
  assumes u: "unseen auth_uid k d"
    and K: "\<forall>x \<in> set rows. tasks_policy auth_uid d x \<longrightarrow> keep_task k x"
    and N: "\<forall>x \<in> set rows. tasks_policy auth_uid d x \<longrightarrow>
              (\<forall>y \<in> set (tasks d). \<not> keep_task k y \<longrightarrow> tk_id x \<noteq> tk_id y)"
  shows "insert_tasks auth_uid rows (restrict_db k d)
         = map_sum (\<lambda>e. e) (restrict_db k) (insert_tasks auth_uid rows d)"
proof -
  let ?chk = "task_row_check auth_uid d"
  have none: "?chk x = None \<Longrightarrow> tasks_policy auth_uid d x" for x
    by (simp add: task_row_check_def split: if_splits)
  have i: "insert_rows ?chk task_key_conflict (filter (keep_task k) (tasks d)) rows
           = map_sum (\<lambda>e. e) (filter (keep_task k))
               (insert_rows ?chk task_key_conflict (tasks d) rows)"
    using K N none
    by (intro insert_rows_hide[where clash = "\<lambda>x y. tk_id x = tk_id y"])
      (auto simp: key_conflict_clash)
  show ?thesis
    unfolding insert_tasks_def policies_restrict[OF u] restrict_db_tables i
    by (cases "insert_rows ?chk task_key_conflict (tasks d) rows")
      (simp_all add: restrict_db_update)
qed

lemma update_tasks_restrict:
  assumes u: "unseen auth_uid k d"
    and N: "\<forall>t \<in> set (tasks d).
              tasks_policy auth_uid d t \<and> flt t
              \<and> tasks_policy auth_uid d (update_updated_at_column_tasks now (upd t)) \<longrightarrow>
                keep_task k (update_updated_at_column_tasks now (upd t))
                \<and> (\<forall>y \<in> set (tasks d). \<not> keep_task k y \<longrightarrow> tk_id (upd t) \<noteq> tk_id y)"
  shows "update_tasks auth_uid now flt upd (restrict_db k d)
         = map_sum (\<lambda>e. e) (\<lambda>(d', out). (restrict_db k d', out))
             (update_tasks auth_uid now flt upd d)"
proof -
  let ?keep = "keep_task k"
  let ?target = "\<lambda>t. tasks_policy auth_uid d t \<and> flt t"
  let ?new_row = "\<lambda>t. update_updated_at_column_tasks now (upd t)"
  let ?new = "\<lambda>t. case task_row_check auth_uid d (?new_row t) of
                        Some e \<Rightarrow> Inl e | None \<Rightarrow> Inr (?new_row t)"
  have T: "\<forall>x \<in> set (tasks d). ?target x \<longrightarrow> ?keep x"
    using visible_kept(4)[OF u] by simp
  have N': "\<forall>x \<in> set (tasks d). \<forall>x'. ?target x \<longrightarrow> ?new x = Inr x' \<longrightarrow>
              ?keep x' \<and> (\<forall>y \<in> set [] \<union> set (tasks d). \<not> ?keep y \<longrightarrow> tk_id x' \<noteq> tk_id y)"
    using N
    by (auto simp: task_row_check_def update_updated_at_column_tasks_def
        split: option.splits if_splits)
  have up: "update_rows ?target ?new task_key_conflict [] (filter ?keep (tasks d))
           = map_sum (\<lambda>e. e) (filter ?keep) (update_rows ?target ?new task_key_conflict [] (tasks d))"
    using update_rows_hide[where seen = "[]" and conflict = task_key_conflict
        and clash = "\<lambda>x y. tk_id x = tk_id y", OF _ T N']
    by (simp add: key_conflict_clash)
  note tg = filter_target_kept[OF T]
  show ?thesis
    unfolding update_tasks_def Let_def policies_restrict[OF u] restrict_db_tables up tg
    by (cases "update_rows ?target ?new task_key_conflict [] (tasks d)")
      (simp_all add: restrict_db_update)
qed

lemma delete_tasks_restrict:
  assumes u: "unseen auth_uid k d"
  shows "delete_tasks auth_uid flt (restrict_db k d) = restrict_db k (delete_tasks auth_uid flt d)"
  unfolding delete_tasks_def policies_restrict[OF u] restrict_db_tables
    filter_not_target_kept restrict_db_update ..

lemma insert_project_timeline_restrict:
  assumes u: "unseen auth_uid k d"
    and K: "\<forall>x \<in> set rows. project_timeline_policy auth_uid d x \<longrightarrow> keep_milestone k x"
    and N: "\<forall>x \<in> set rows. project_timeline_policy auth_uid d x \<longrightarrow>
              (\<forall>y \<in> set (project_timeline d). \<not> keep_milestone k y \<longrightarrow> tl_id x \<noteq> tl_id y)"
  shows "insert_project_timeline auth_uid rows (restrict_db k d)
         = map_sum (\<lambda>e. e) (restrict_db k) (insert_project_timeline auth_uid rows d)"
proof -
  let ?chk = "timeline_row_check auth_uid d"
  have none: "?chk x = None \<Longrightarrow> project_timeline_policy auth_uid d x" for x
    by (simp add: timeline_row_check_def split: if_splits)
  have i: "insert_rows ?chk timeline_key_conflict (filter (keep_milestone k) (project_timeline d)) rows
           = map_sum (\<lambda>e. e) (filter (keep_milestone k))
               (insert_rows ?chk timeline_key_conflict (project_timeline d) rows)"
    using K N none
    by (intro insert_rows_hide[where clash = "\<lambda>x y. tl_id x = tl_id y"])
      (auto simp: key_conflict_clash)
  show ?thesis
    unfolding insert_project_timeline_def policies_restrict[OF u] restrict_db_tables i
    by (cases "insert_rows ?chk timeline_key_conflict (project_timeline d) rows")
      (simp_all add: restrict_db_update)
qed

lemma update_project_timeline_restrict:
  assumes u: "unseen auth_uid k d"
    and N: "\<forall>e \<in> set (project_timeline d).
              project_timeline_policy auth_uid d e \<and> flt e
              \<and> project_timeline_policy auth_uid d (upd e) \<longrightarrow>
                keep_milestone k (upd e)
                \<and> (\<forall>y \<in> set (project_timeline d). \<not> keep_milestone k y \<longrightarrow> tl_id (upd e) \<noteq> tl_id y)"
  shows "update_project_timeline auth_uid flt upd (restrict_db k d)
         = map_sum (\<lambda>e. e) (\<lambda>(d', out). (restrict_db k d', out))
             (update_project_timeline auth_uid flt upd d)"
proof -
  let ?keep = "keep_milestone k"
  let ?target = "\<lambda>e. project_timeline_policy auth_uid d e \<and> flt e"
  let ?new = "\<lambda>e. case timeline_row_check auth_uid d (upd e) of
                        Some err \<Rightarrow> Inl err | None \<Rightarrow> Inr (upd e)"
  have T: "\<forall>x \<in> set (project_timeline d). ?target x \<longrightarrow> ?keep x"
    using visible_kept(5)[OF u] by simp
  have N': "\<forall>x \<in> set (project_timeline d). \<forall>x'. ?target x \<longrightarrow> ?new x = Inr x' \<longrightarrow>
              ?keep x' \<and> (\<forall>y \<in> set [] \<union> set (project_timeline d). \<not> ?keep y \<longrightarrow> tl_id x' \<noteq> tl_id y)"
    using N by (auto simp: timeline_row_check_def split: option.splits if_splits)
  have up: "update_rows ?target ?new timeline_key_conflict [] (filter ?keep (project_timeline d))
           = map_sum (\<lambda>e. e) (filter ?keep)
               (update_rows ?target ?new timeline_key_conflict [] (project_timeline d))"
    using update_rows_hide[where seen = "[]" and conflict = timeline_key_conflict
        and clash = "\<lambda>x y. tl_id x = tl_id y", OF _ T N']
    by (simp add: key_conflict_clash)
  note tg = filter_target_kept[OF T]
  show ?thesis
    unfolding update_project_timeline_def Let_def policies_restrict[OF u] restrict_db_tables up tg
    by (cases "update_rows ?target ?new timeline_key_conflict [] (project_timeline d)")
      (simp_all add: restrict_db_update)
qed

lemma delete_project_timeline_restrict:
  assumes u: "unseen auth_uid k d"
  shows "delete_project_timeline auth_uid flt (restrict_db k d)
         = restrict_db k (delete_project_timeline auth_uid flt d)"
  unfolding delete_project_timeline_def policies_restrict[OF u] restrict_db_tables
    filter_not_target_kept restrict_db_update ..

subsection \<open>The data-access functions\<close>

lemma insert_project_partial_restrict:
  assumes K: "\<forall>x. pj_id x = or_default (pp_id v) gen \<longrightarrow> keep_project k x"
    and N: "\<forall>y \<in> set (projects d). \<not> keep_project k y \<longrightarrow> or_default (pp_id v) gen \<noteq> pj_id y"
  shows "insert_project_partial auth_uid gen now v (restrict_db k d)
         = map_sum (\<lambda>e. e) (\<lambda>(d', rows). (restrict_db k d', rows))
             (insert_project_partial auth_uid gen now v d)"
proof (cases "pp_user_id v")
  case None
  then show ?thesis by (simp add: insert_project_partial_def)
next
  case u: (Some uid)
  show ?thesis
  proof (cases "auth_uid = Some uid")
    case False
    then show ?thesis by (simp add: insert_project_partial_def u)
  next
    case a: True
    show ?thesis
    proof (cases "pp_title v")
      case None
      then show ?thesis by (simp add: insert_project_partial_def u a)
    next
      case t: (Some title)
      define row where "row =
                   \<lparr>pj_id = or_default (pp_id v) gen,
                    pj_user_id = uid,
                    pj_title = title,
                    pj_description = pp_description v,
                    pj_type = or_default (pp_type v) Personal,
                    pj_status = or_default (pp_status v) Pending,
                    pj_payment_status = or_default (pp_payment_status v) Unpaid,
                    pj_progress = or_default_null (pp_progress v) (Some 0),
                    pj_budget = pp_budget v,
                    pj_paid_amount = or_default_null (pp_paid_amount v) (Some 0),
                    pj_start_date = pp_start_date v,
                    pj_end_date = pp_end_date v,
                    pj_deadline = pp_deadline v,
                    pj_created_at = or_default_null (pp_created_at v) (Some now),
                    pj_updated_at = or_default_null (pp_updated_at v) (Some now)\<rparr>"
      have e: "insert_project_partial auth_uid gen now v x
               = (case insert_projects auth_uid [row] x of
                    Inl e \<Rightarrow> Inl e | Inr d' \<Rightarrow> Inr (d', [row]))" for x
        unfolding insert_project_partial_def u t row_def Let_def using a by simp
      have id: "pj_id row = or_default (pp_id v) gen" by (simp add: row_def)
      have i: "insert_projects auth_uid [row] (restrict_db k d)
         = map_sum (\<lambda>e. e) (restrict_db k) (insert_projects auth_uid [row] d)"
        using K N id by (intro insert_projects_restrict) simp_all
      show ?thesis
        unfolding e i by (cases "insert_projects auth_uid [row] d") simp_all
    qed
  qed
qed

lemma createProject_restrict:
  assumes K: "\<forall>x. pj_id x = or_default (pp_id proj) gen \<longrightarrow> keep_project k x"
    and N: "\<forall>y \<in> set (projects d). \<not> keep_project k y \<longrightarrow> or_default (pp_id proj) gen \<noteq> pj_id y"
  shows "createProject upstream user proj gen js_now now (restrict_db k d)
         = apsnd (restrict_db k) (createProject upstream user proj gen js_now now d)"
proof (cases user)
  case None
  then show ?thesis by (simp add: createProject_def)
next
  case (Some uid)
  let ?pd = "proj\<lparr>pp_user_id := Some uid, pp_created_at := Some js_now, pp_updated_at := Some js_now\<rparr>"
  have K': "\<forall>x. pj_id x = or_default (pp_id ?pd) gen \<longrightarrow> keep_project k x" using K by simp
  have N': "\<forall>y \<in> set (projects d). \<not> keep_project k y \<longrightarrow> or_default (pp_id ?pd) gen \<noteq> pj_id y"
    using N by simp
  note i = insert_project_partial_restrict[OF K' N', of "Some uid" now]
  show ?thesis
  proof (cases upstream)
    case (Some e)
    then show ?thesis by (simp add: createProject_def \<open>user = Some uid\<close> storage_call_def)
  next
    case None
    show ?thesis
    proof (cases "insert_project_partial (Some uid) gen now ?pd d")
      case (Inl e)
      then show ?thesis
        unfolding createProject_def \<open>user = Some uid\<close> Let_def None storage_call_def
        by (simp add: i)
    next
      case (Inr res)
      obtain d' out where res: "res = (d', out)" by (cases res)
      show ?thesis
        unfolding createProject_def \<open>user = Some uid\<close> Let_def None storage_call_def
        by (cases "single out") (simp_all add: i Inr res)
    qed
  qed
qed

lemma pj_id_apply_project_updates:
  "pj_id (apply_project_updates v p) = or_default (pp_id v) (pj_id p)"
  by (simp add: apply_project_updates_def)

lemma updateProject_restrict:
  assumes u: "unseen user k d"
    and N: "\<forall>p \<in> set (projects d). user = Some (pj_user_id p) \<and> pj_id p = ident \<longrightarrow>
              (\<forall>x. pj_id x = or_default (pp_id updates) (pj_id p) \<longrightarrow> keep_project k x)
              \<and> (\<forall>y \<in> set (projects d). \<not> keep_project k y \<longrightarrow>
                    or_default (pp_id updates) (pj_id p) \<noteq> pj_id y)"
  shows "updateProject upstream user ident updates js_now now (restrict_db k d)
         = apsnd (restrict_db k) (updateProject upstream user ident updates js_now now d)"
proof (cases user)
  case None
  then show ?thesis by (simp add: updateProject_def)
next
  case (Some uid)
  note u' = u[unfolded Some]
  let ?upd = "apply_project_updates (updates\<lparr>pp_updated_at := Some js_now\<rparr>)"
  let ?flt = "\<lambda>p. pj_id p = ident \<and> pj_user_id p = uid"
  have s: "\<forall>p \<in> set (projects d). projects_policy (Some uid) p \<and> ?flt p \<longrightarrow>
              keep_project k (update_updated_at_column_projects now (?upd p))
              \<and> (\<forall>y \<in> set (projects d). \<not> keep_project k y \<longrightarrow> pj_id (?upd p) \<noteq> pj_id y)"
  proof (intro ballI impI)
    fix p assume p: "p \<in> set (projects d)" "projects_policy (Some uid) p \<and> ?flt p"
    then have "user = Some (pj_user_id p) \<and> pj_id p = ident" by (simp add: Some)
    with N p(1) have n: "\<forall>x. pj_id x = or_default (pp_id updates) (pj_id p) \<longrightarrow> keep_project k x"
      "\<forall>y \<in> set (projects d). \<not> keep_project k y \<longrightarrow> or_default (pp_id updates) (pj_id p) \<noteq> pj_id y"
      by blast+
    have id: "pj_id (?upd p) = or_default (pp_id updates) (pj_id p)"
      by (simp add: pj_id_apply_project_updates)
    have "pj_id (update_updated_at_column_projects now (?upd p)) = or_default (pp_id updates) (pj_id p)"
      by (simp add: update_updated_at_column_projects_def id)
    with n(1) have "keep_project k (update_updated_at_column_projects now (?upd p))" by blast
    moreover have "\<forall>y \<in> set (projects d). \<not> keep_project k y \<longrightarrow> pj_id (?upd p) \<noteq> pj_id y"
      unfolding id by (rule n(2))
    ultimately show "keep_project k (update_updated_at_column_projects now (?upd p))
              \<and> (\<forall>y \<in> set (projects d). \<not> keep_project k y \<longrightarrow> pj_id (?upd p) \<noteq> pj_id y)"
      by simp
  qed
  note up = update_projects_restrict[OF u' s]
  show ?thesis
  proof (cases upstream)
    case (Some e)
    then show ?thesis by (simp add: updateProject_def \<open>user = Some uid\<close> storage_call_def)
  next
    case None
    show ?thesis
    proof (cases "update_projects (Some uid) now ?flt ?upd d")
      case (Inl e)
      then show ?thesis
        unfolding updateProject_def \<open>user = Some uid\<close> Let_def None storage_call_def
        by (simp add: up)
    next
      case (Inr res)
      obtain d' out where res: "res = (d', out)" by (cases res)
      show ?thesis
        unfolding updateProject_def \<open>user = Some uid\<close> Let_def None storage_call_def
        by (cases "single out") (simp_all add: up Inr res)
    qed
  qed
qed

lemma deleteProject_restrict:
  assumes u: "unseen user k d"
  shows "deleteProject upstream user ident (restrict_db k d)
         = apsnd (restrict_db k) (deleteProject upstream user ident d)"
proof (cases user)
  case None
  then show ?thesis by (simp add: deleteProject_def)
next
  case (Some uid)
  note u' = u[unfolded Some]
  show ?thesis
    unfolding deleteProject_def Some
    by (cases upstream) (simp_all add: storage_call_def delete_projects_restrict[OF u'])
qed

lemma after_insert_restrict:
  "after_insert (restrict_db k d) (map_sum (\<lambda>e. e) (restrict_db k) r)
   = apsnd (restrict_db k) (after_insert d r)"
  by (cases r) (simp_all add: after_insert_def)

lemma after_update_restrict:
  "after_update rows (restrict_db k d) (map_sum (\<lambda>e. e) (\<lambda>(d', out). (restrict_db k d', out)) r)
   = apsnd (restrict_db k) (after_update rows d r)"
  by (cases r) (auto simp: after_update_def)

subsection \<open>A project of another owner\<close>

lemma hide_project_restrict:
  assumes "pid \<in> pj_id ` set (projects d)"
  shows "hide_project pid d = restrict_db (without_project pid) d"
proof -
  have "set (map pj_id (filter (\<lambda>p. pj_id p = pid) (projects d))) = {pid}"
    using assms by auto
  then show ?thesis
    by (simp add: hide_project_def delete_projects_where_def cascade_projects_def restrict_db_def
        without_project_def)
qed

lemma not_owned_hidden_id:
  assumes "\<forall>p \<in> set (projects d). pj_id p = pid \<longrightarrow> auth_uid \<noteq> Some (pj_user_id p)"
  shows "\<not> owns_project auth_uid d pid"
  using assms by (auto simp: owns_project_def)

lemma unseen_without_project:
  assumes "\<forall>p \<in> set (projects d). pj_id p = pid \<longrightarrow> auth_uid \<noteq> Some (pj_user_id p)"
  shows "unseen auth_uid (without_project pid) d"
  using not_owned_hidden_id[OF assms] by (auto simp: unseen_def without_project_def)

lemma run_without_project:
  assumes f: "\<forall>p \<in> set (projects d). pj_id p = pid \<longrightarrow> auth_uid \<noteq> Some (pj_user_id p)"
    and a: "avoids_project auth_uid pid d op"
  shows "run auth_uid now op (restrict_db (without_project pid) d)
         = apsnd (restrict_db (without_project pid)) (run auth_uid now op d)"
proof -
  let ?k = "without_project pid"
  note u = unseen_without_project[OF f]
  note no = not_owned_hidden_id[OF f]
  have kp [simp]: "keep_project ?k x \<longleftrightarrow> pj_id x \<noteq> pid" for x by (simp add: without_project_def)
  have kc [simp]: "keep_client ?k x" for x by (simp add: without_project_def)
  have kl [simp]: "keep_link ?k x \<longleftrightarrow> pc_project_id x \<noteq> pid" for x by (simp add: without_project_def)
  have kt [simp]: "keep_task ?k x \<longleftrightarrow> tk_project_id x \<noteq> pid" for x by (simp add: without_project_def)
  have ke [simp]: "keep_milestone ?k x \<longleftrightarrow> tl_project_id x \<noteq> pid" for x
    by (simp add: without_project_def)
  have pl: "project_clients_policy auth_uid d x \<Longrightarrow> pc_project_id x \<noteq> pid" for x
    using no by (auto simp: project_clients_policy_def)
  have pt: "tasks_policy auth_uid d x \<Longrightarrow> tk_project_id x \<noteq> pid" for x
    using no by (auto simp: tasks_policy_def)
  have pe: "project_timeline_policy auth_uid d x \<Longrightarrow> tl_project_id x \<noteq> pid" for x
    using no by (auto simp: project_timeline_policy_def)
  show ?thesis
  proof (cases op)
    case (Select_projects flt)
    then show ?thesis by (simp add: select_restrict[OF u])
  next
    case (Select_clients flt)
    then show ?thesis by (simp add: select_restrict[OF u])
  next
    case (Select_project_clients flt)
    then show ?thesis by (simp add: select_restrict[OF u])
  next
    case (Select_tasks flt)
    then show ?thesis by (simp add: select_restrict[OF u])
  next
    case (Select_project_timeline flt)
    then show ?thesis by (simp add: select_restrict[OF u])
  next
    case (Insert_projects rows)
    have "insert_projects auth_uid rows (restrict_db ?k d)
          = map_sum (\<lambda>e. e) (restrict_db ?k) (insert_projects auth_uid rows d)"
      using a unfolding Insert_projects by (intro insert_projects_restrict) auto
    then show ?thesis by (simp add: Insert_projects after_insert_restrict)
  next
    case (Update_projects flt upd)
    have "update_projects auth_uid now flt upd (restrict_db ?k d)
          = map_sum (\<lambda>e. e) (\<lambda>(d', out). (restrict_db ?k d', out))
              (update_projects auth_uid now flt upd d)"
      using a unfolding Update_projects
      by (intro update_projects_restrict[OF u]) (auto simp: update_updated_at_column_projects_def)
    then show ?thesis by (simp add: Update_projects after_update_restrict)
  next
    case (Delete_projects flt)
    then show ?thesis by (simp add: delete_projects_restrict[OF u])
  next
    case (Insert_clients rows)
    have "insert_clients auth_uid rows (restrict_db ?k d)
          = map_sum (\<lambda>e. e) (restrict_db ?k) (insert_clients auth_uid rows d)"
      by (intro insert_clients_restrict) auto
    then show ?thesis by (simp add: Insert_clients after_insert_restrict)
  next
    case (Update_clients flt upd)
    have F: "\<forall>c \<in> set (clients d). clients_policy auth_uid c \<and> flt c \<longrightarrow>
              (\<forall>l \<in> set (project_clients d). \<not> keep_link ?k l \<and> pc_client_id l = cl_id c \<longrightarrow>
                 cl_id (upd c) = cl_id c)"
    proof (intro ballI impI)
      fix c l assume c: "c \<in> set (clients d)" "clients_policy auth_uid c \<and> flt c"
        and l: "l \<in> set (project_clients d)" "\<not> keep_link ?k l \<and> pc_client_id l = cl_id c"
      from l have "l \<in> set (links_of_project pid d)" by (simp add: links_of_project_def)
      with l have "cl_id c \<in> pc_client_id ` set (links_of_project pid d)"
        by (intro image_eqI[where x = l]) simp_all
      with a c show "cl_id (upd c) = cl_id c" unfolding Update_clients by simp
    qed
    have "update_clients auth_uid now flt upd (restrict_db ?k d)
          = map_sum (\<lambda>e. e) (\<lambda>(d', out). (restrict_db ?k d', out))
              (update_clients auth_uid now flt upd d)"
      by (intro update_clients_restrict[OF u] F) auto
    then show ?thesis by (simp add: Update_clients after_update_restrict)
  next
    case (Delete_clients flt)
    then show ?thesis by (simp add: delete_clients_restrict[OF u])
  next
    case (Insert_project_clients rows)
    have N: "\<forall>x \<in> set rows. project_clients_policy auth_uid d x \<longrightarrow>
              (\<forall>y \<in> set (project_clients d). \<not> keep_link ?k y \<longrightarrow>
                 \<not> (pc_id x = pc_id y
                    \<or> (pc_project_id x = pc_project_id y \<and> pc_client_id x = pc_client_id y)))"
    proof (intro ballI impI)
      fix x y assume x: "x \<in> set rows" "project_clients_policy auth_uid d x"
        and y: "y \<in> set (project_clients d)" "\<not> keep_link ?k y"
      from y have yl: "y \<in> set (links_of_project pid d)" by (simp add: links_of_project_def)
      from a x(1) have "pc_id x \<notin> pc_id ` set (links_of_project pid d)"
        unfolding Insert_project_clients by simp
      with yl have "pc_id x \<noteq> pc_id y" by auto
      moreover from pl[OF x(2)] y(2) have "pc_project_id x \<noteq> pc_project_id y" by simp
      ultimately show "\<not> (pc_id x = pc_id y
                    \<or> (pc_project_id x = pc_project_id y \<and> pc_client_id x = pc_client_id y))"
        by simp
    qed
    have "insert_project_clients auth_uid rows (restrict_db ?k d)
          = map_sum (\<lambda>e. e) (restrict_db ?k) (insert_project_clients auth_uid rows d)"
      using pl by (intro insert_project_clients_restrict[OF u] N) auto
    then show ?thesis by (simp add: Insert_project_clients after_insert_restrict)
  next
    case (Update_project_clients flt upd)
    have N: "\<forall>l \<in> set (project_clients d).
              project_clients_policy auth_uid d l \<and> flt l
              \<and> project_clients_policy auth_uid d (upd l) \<longrightarrow>
                keep_link ?k (upd l)
                \<and> (\<forall>y \<in> set (project_clients d). \<not> keep_link ?k y \<longrightarrow>
                      \<not> (pc_id (upd l) = pc_id y
                         \<or> (pc_project_id (upd l) = pc_project_id y
                            \<and> pc_client_id (upd l) = pc_client_id y)))"
    proof (intro ballI impI conjI)
      fix l assume l: "l \<in> set (project_clients d)"
        "project_clients_policy auth_uid d l \<and> flt l \<and> project_clients_policy auth_uid d (upd l)"
      from l(2) pl show "keep_link ?k (upd l)" by simp
      fix y assume y: "y \<in> set (project_clients d)" "\<not> keep_link ?k y"
      from y have yl: "y \<in> set (links_of_project pid d)" by (simp add: links_of_project_def)
      from a l have "pc_id (upd l) \<notin> pc_id ` set (links_of_project pid d)"
        unfolding Update_project_clients by simp
      with yl have "pc_id (upd l) \<noteq> pc_id y" by auto
      moreover from l(2) pl y(2) have "pc_project_id (upd l) \<noteq> pc_project_id y" by simp
      ultimately show "\<not> (pc_id (upd l) = pc_id y
                         \<or> (pc_project_id (upd l) = pc_project_id y
                            \<and> pc_client_id (upd l) = pc_client_id y))"
        by simp
    qed
    have "update_project_clients auth_uid flt upd (restrict_db ?k d)
          = map_sum (\<lambda>e. e) (\<lambda>(d', out). (restrict_db ?k d', out))
              (update_project_clients auth_uid flt upd d)"
      by (intro update_project_clients_restrict[OF u] N) auto
    then show ?thesis by (simp add: Update_project_clients after_update_restrict)
  next
    case (Delete_project_clients flt)
    then show ?thesis by (simp add: delete_project_clients_restrict[OF u])
  next
    case (Insert_tasks rows)
    have N: "\<forall>x \<in> set rows. tasks_policy auth_uid d x \<longrightarrow>
              (\<forall>y \<in> set (tasks d). \<not> keep_task ?k y \<longrightarrow> tk_id x \<noteq> tk_id y)"
      using a unfolding Insert_tasks by (auto simp: project_tasks_def)
    have "insert_tasks auth_uid rows (restrict_db ?k d)
          = map_sum (\<lambda>e. e) (restrict_db ?k) (insert_tasks auth_uid rows d)"
      using pt by (intro insert_tasks_restrict[OF u] N) auto
    then show ?thesis by (simp add: Insert_tasks after_insert_restrict)
  next
    case (Update_tasks flt upd)
    have N: "\<forall>t \<in> set (tasks d).
              tasks_policy auth_uid d t \<and> flt t
              \<and> tasks_policy auth_uid d (update_updated_at_column_tasks now (upd t)) \<longrightarrow>
                keep_task ?k (update_updated_at_column_tasks now (upd t))
                \<and> (\<forall>y \<in> set (tasks d). \<not> keep_task ?k y \<longrightarrow> tk_id (upd t) \<noteq> tk_id y)"
      using a pt unfolding Update_tasks by (auto simp: project_tasks_def)
    have "update_tasks auth_uid now flt upd (restrict_db ?k d)
          = map_sum (\<lambda>e. e) (\<lambda>(d', out). (restrict_db ?k d', out))
              (update_tasks auth_uid now flt upd d)"
      by (rule update_tasks_restrict[OF u N])
    then show ?thesis by (simp add: Update_tasks after_update_restrict)
  next
    case (Delete_tasks flt)
    then show ?thesis by (simp add: delete_tasks_restrict[OF u])
  next
    case (Insert_project_timeline rows)
    have N: "\<forall>x \<in> set rows. project_timeline_policy auth_uid d x \<longrightarrow>
              (\<forall>y \<in> set (project_timeline d). \<not> keep_milestone ?k y \<longrightarrow> tl_id x \<noteq> tl_id y)"
      using a unfolding Insert_project_timeline by (auto simp: timeline_of_project_def)
    have "insert_project_timeline auth_uid rows (restrict_db ?k d)
          = map_sum (\<lambda>e. e) (restrict_db ?k) (insert_project_timeline auth_uid rows d)"
      using pe by (intro insert_project_timeline_restrict[OF u] N) auto
    then show ?thesis by (simp add: Insert_project_timeline after_insert_restrict)
  next
    case (Update_project_timeline flt upd)
    have N: "\<forall>e \<in> set (project_timeline d).
              project_timeline_policy auth_uid d e \<and> flt e
              \<and> project_timeline_policy auth_uid d (upd e) \<longrightarrow>
                keep_milestone ?k (upd e)
                \<and> (\<forall>y \<in> set (project_timeline d). \<not> keep_milestone ?k y \<longrightarrow> tl_id (upd e) \<noteq> tl_id y)"
      using a pe unfolding Update_project_timeline by (auto simp: timeline_of_project_def)
    have "update_project_timeline auth_uid flt upd (restrict_db ?k d)
          = map_sum (\<lambda>e. e) (\<lambda>(d', out). (restrict_db ?k d', out))
              (update_project_timeline auth_uid flt upd d)"
      by (rule update_project_timeline_restrict[OF u N])
    then show ?thesis by (simp add: Update_project_timeline after_update_restrict)
  next
    case (Delete_project_timeline flt)
    then show ?thesis by (simp add: delete_project_timeline_restrict[OF u])
  next
    case (Get_project upstream ident)
    then show ?thesis by (simp add: getProject_restrict[OF u])
  next
    case (Create_project upstream proj gen js_now)
    have "createProject upstream auth_uid proj gen js_now now (restrict_db ?k d)
          = apsnd (restrict_db ?k) (createProject upstream auth_uid proj gen js_now now d)"
      using a unfolding Create_project by (intro createProject_restrict) auto
    then show ?thesis
      by (cases "createProject upstream auth_uid proj gen js_now now d") (simp add: Create_project)
  next
    case (Update_project upstream ident updates js_now)
    have N: "\<forall>p \<in> set (projects d). auth_uid = Some (pj_user_id p) \<and> pj_id p = ident \<longrightarrow>
              (\<forall>x. pj_id x = or_default (pp_id updates) (pj_id p) \<longrightarrow> keep_project ?k x)
              \<and> (\<forall>y \<in> set (projects d). \<not> keep_project ?k y \<longrightarrow>
                    or_default (pp_id updates) (pj_id p) \<noteq> pj_id y)"
    proof (intro ballI impI)
      fix p assume p: "p \<in> set (projects d)" "auth_uid = Some (pj_user_id p) \<and> pj_id p = ident"
      with f have "pj_id p \<noteq> pid" by auto
      moreover from a have "pp_id updates \<noteq> Some pid" unfolding Update_project by simp
      ultimately have "or_default (pp_id updates) (pj_id p) \<noteq> pid"
        by (cases "pp_id updates") (simp_all add: or_default_def)
      then show "(\<forall>x. pj_id x = or_default (pp_id updates) (pj_id p) \<longrightarrow> keep_project ?k x)
              \<and> (\<forall>y \<in> set (projects d). \<not> keep_project ?k y \<longrightarrow>
                    or_default (pp_id updates) (pj_id p) \<noteq> pj_id y)"
        by auto
    qed
    have "updateProject upstream auth_uid ident updates js_now now (restrict_db ?k d)
          = apsnd (restrict_db ?k) (updateProject upstream auth_uid ident updates js_now now d)"
      by (rule updateProject_restrict[OF u N])
    then show ?thesis
      by (cases "updateProject upstream auth_uid ident updates js_now now d")
        (simp add: Update_project)
  next
    case (Delete_project upstream ident)
    have "deleteProject upstream auth_uid ident (restrict_db ?k d)
          = apsnd (restrict_db ?k) (deleteProject upstream auth_uid ident d)"
      by (rule deleteProject_restrict[OF u])
    then show ?thesis
      by (cases "deleteProject upstream auth_uid ident d") (simp add: Delete_project)
  qed
qed

subsection \<open>What a mutation leaves as it was\<close>

lemma insert_rows_frame:
  assumes "insert_rows chk conflict tbl rows = Inr tbl'"
    and "\<forall>x \<in> set rows. chk x = None \<longrightarrow> \<not> P x"
  shows "filter P tbl' = filter P tbl"
proof -
  from insert_rows_Inr[OF assms(1)] have "tbl' = tbl @ rows" "\<forall>x \<in> set rows. chk x = None"
    by simp_all
  with assms(2) show ?thesis by (auto simp: filter_empty_conv)
qed

lemma filter_map_unchanged:
  assumes "\<And>x. x \<in> set xs \<Longrightarrow> P (g x) = P x" "\<And>x. x \<in> set xs \<Longrightarrow> P x \<Longrightarrow> g x = x"
  shows "filter P (map g xs) = filter P xs"
  using assms by (induction xs) auto

lemma update_rows_frame:
  assumes u: "update_rows target new conflict [] tbl = Inr tbl'"
    and T: "\<forall>x \<in> set tbl. target x \<longrightarrow> \<not> P x"
    and N: "\<forall>x \<in> set tbl. \<forall>x'. target x \<longrightarrow> new x = Inr x' \<longrightarrow> \<not> P x'"
  shows "filter P tbl' = filter P tbl"
proof -
  from update_rows_Inr[OF u]
  have ok: "\<forall>r \<in> set tbl. target r \<longrightarrow> (\<exists>r'. new r = Inr r')"
    and t: "tbl' = map (\<lambda>r. if target r then projr (new r) else r) tbl"
    by simp_all
  have np: "\<not> P (projr (new x))" if "x \<in> set tbl" "target x" for x
  proof -
    from ok that obtain x' where "new x = Inr x'" by blast
    with N that show ?thesis by auto
  qed
  show ?thesis
    unfolding t
  proof (rule filter_map_unchanged)
    fix x assume x: "x \<in> set tbl"
    show "P (if target x then projr (new x) else x) = P x"
      using T np x by auto
    show "P x \<Longrightarrow> (if target x then projr (new x) else x) = x"
      using T x by auto
  qed
qed

lemma snd_after_insert:
  assumes "\<And>d'. r = Inr d' \<Longrightarrow> P d'" "P d"
  shows "P (snd (after_insert d r))"
  using assms by (cases r) (simp_all add: after_insert_def)

lemma snd_after_update:
  assumes "\<And>d' out. r = Inr (d', out) \<Longrightarrow> P d'" "P d"
  shows "P (snd (after_update rows d r))"
  using assms by (cases r) (auto simp: after_update_def)

lemma statement_frames:
  shows insert_projects_frame:
      "insert_projects auth_uid rows d = Inr d1 \<Longrightarrow>
         d1 = d\<lparr>projects := projects d1\<rparr>
         \<and> (\<forall>r. auth_uid \<noteq> Some (pj_user_id r) \<longrightarrow>
                filter (\<lambda>p. p = r) (projects d1) = filter (\<lambda>p. p = r) (projects d))"
    and update_projects_frame:
      "update_projects auth_uid now fp up d = Inr (d2, out2) \<Longrightarrow>
         d2 = d\<lparr>projects := projects d2\<rparr>
         \<and> (\<forall>r. auth_uid \<noteq> Some (pj_user_id r) \<longrightarrow>
                filter (\<lambda>p. p = r) (projects d2) = filter (\<lambda>p. p = r) (projects d))"
    and insert_clients_frame:
      "insert_clients auth_uid crows d = Inr d3 \<Longrightarrow>
         d3 = d\<lparr>clients := clients d3\<rparr>
         \<and> (\<forall>c. auth_uid \<noteq> Some (cl_user_id c) \<longrightarrow>
                filter (\<lambda>x. x = c) (clients d3) = filter (\<lambda>x. x = c) (clients d))"
    and update_clients_frame:
      "update_clients auth_uid now fc uc d = Inr (d4, out4) \<Longrightarrow>
         d4 = d\<lparr>clients := clients d4\<rparr>
         \<and> (\<forall>c. auth_uid \<noteq> Some (cl_user_id c) \<longrightarrow>
                filter (\<lambda>x. x = c) (clients d4) = filter (\<lambda>x. x = c) (clients d))"
proof -
  show "d1 = d\<lparr>projects := projects d1\<rparr>
         \<and> (\<forall>r. auth_uid \<noteq> Some (pj_user_id r) \<longrightarrow>
                filter (\<lambda>p. p = r) (projects d1) = filter (\<lambda>p. p = r) (projects d))"
    if a: "insert_projects auth_uid rows d = Inr d1"
  proof -
    from a obtain tbl where
      i: "insert_rows (project_row_check auth_uid) project_key_conflict (projects d) rows = Inr tbl"
      and d1: "d1 = d\<lparr>projects := tbl\<rparr>"
      by (auto simp: insert_projects_def split: sum.splits if_splits)
    have "filter (\<lambda>p. p = r) tbl = filter (\<lambda>p. p = r) (projects d)"
      if "auth_uid \<noteq> Some (pj_user_id r)" for r
      using that
      by (intro insert_rows_frame[OF i])
        (auto simp: project_row_check_def projects_policy_def split: if_splits)
    then show ?thesis by (simp add: d1)
  qed
  show "d2 = d\<lparr>projects := projects d2\<rparr>
         \<and> (\<forall>r. auth_uid \<noteq> Some (pj_user_id r) \<longrightarrow>
                filter (\<lambda>p. p = r) (projects d2) = filter (\<lambda>p. p = r) (projects d))"
    if a: "update_projects auth_uid now fp up d = Inr (d2, out2)"
  proof -
    let ?target = "\<lambda>p. projects_policy auth_uid p \<and> fp p"
    let ?new_row = "\<lambda>p. update_updated_at_column_projects now (up p)"
    let ?new = "\<lambda>p. case project_row_check auth_uid (?new_row p) of
                        Some e \<Rightarrow> Inl e | None \<Rightarrow> Inr (?new_row p)"
    from a obtain tbl where
      i: "update_rows ?target ?new project_key_conflict [] (projects d) = Inr tbl"
      and d2: "d2 = d\<lparr>projects := tbl\<rparr>"
      by (auto simp: update_projects_def Let_def split: sum.splits if_splits)
    have "filter (\<lambda>p. p = r) tbl = filter (\<lambda>p. p = r) (projects d)"
      if "auth_uid \<noteq> Some (pj_user_id r)" for r
      using that
      by (intro update_rows_frame[OF i])
        (auto simp: project_row_check_def projects_policy_def split: if_splits option.splits)
    then show ?thesis by (simp add: d2)
  qed
  show "d3 = d\<lparr>clients := clients d3\<rparr>
         \<and> (\<forall>c. auth_uid \<noteq> Some (cl_user_id c) \<longrightarrow>
                filter (\<lambda>x. x = c) (clients d3) = filter (\<lambda>x. x = c) (clients d))"
    if a: "insert_clients auth_uid crows d = Inr d3"
  proof -
    from a obtain tbl where
      i: "insert_rows (client_row_check auth_uid) client_key_conflict (clients d) crows = Inr tbl"
      and d3: "d3 = d\<lparr>clients := tbl\<rparr>"
      by (auto simp: insert_clients_def split: sum.splits if_splits)
    have "filter (\<lambda>x. x = c) tbl = filter (\<lambda>x. x = c) (clients d)"
      if "auth_uid \<noteq> Some (cl_user_id c)" for c
      using that
      by (intro insert_rows_frame[OF i])
        (auto simp: client_row_check_def clients_policy_def split: if_splits)
    then show ?thesis by (simp add: d3)
  qed
  show "d4 = d\<lparr>clients := clients d4\<rparr>
         \<and> (\<forall>c. auth_uid \<noteq> Some (cl_user_id c) \<longrightarrow>
                filter (\<lambda>x. x = c) (clients d4) = filter (\<lambda>x. x = c) (clients d))"
    if a: "update_clients auth_uid now fc uc d = Inr (d4, out4)"
  proof -
    let ?target = "\<lambda>c. clients_policy auth_uid c \<and> fc c"
    let ?new_row = "\<lambda>c. update_updated_at_column_clients now (uc c)"
    let ?new = "\<lambda>c. case client_row_check auth_uid (?new_row c) of
                        Some e \<Rightarrow> Inl e | None \<Rightarrow> Inr (?new_row c)"
    from a obtain tbl where
      i: "update_rows ?target ?new client_key_conflict [] (clients d) = Inr tbl"
      and d4: "d4 = d\<lparr>clients := tbl\<rparr>"
      by (auto simp: update_clients_def Let_def split: sum.splits if_splits)
    have "filter (\<lambda>x. x = c) tbl = filter (\<lambda>x. x = c) (clients d)"
      if "auth_uid \<noteq> Some (cl_user_id c)" for c
      using that
      by (intro update_rows_frame[OF i])
        (auto simp: client_row_check_def clients_policy_def split: if_splits option.splits)
    then show ?thesis by (simp add: d4)
  qed
qed

lemma child_frames:
  assumes no: "\<not> owns_project auth_uid d pid"
  shows insert_project_clients_frame:
      "insert_project_clients auth_uid lrows d = Inr d1 \<Longrightarrow>
         d1 = d\<lparr>project_clients := project_clients d1\<rparr>
         \<and> links_of_project pid d1 = links_of_project pid d"
    and update_project_clients_frame:
      "update_project_clients auth_uid fl ul d = Inr (d2, out2) \<Longrightarrow>
         d2 = d\<lparr>project_clients := project_clients d2\<rparr>
         \<and> links_of_project pid d2 = links_of_project pid d"
    and insert_tasks_frame:
      "insert_tasks auth_uid trows d = Inr d3 \<Longrightarrow>
         d3 = d\<lparr>tasks := tasks d3\<rparr> \<and> project_tasks (tasks d3) pid = project_tasks (tasks d) pid"
    and update_tasks_frame:
      "update_tasks auth_uid now ft ut d = Inr (d4, out4) \<Longrightarrow>
         d4 = d\<lparr>tasks := tasks d4\<rparr> \<and> project_tasks (tasks d4) pid = project_tasks (tasks d) pid"
    and insert_project_timeline_frame:
      "insert_project_timeline auth_uid erows d = Inr d5 \<Longrightarrow>
         d5 = d\<lparr>project_timeline := project_timeline d5\<rparr>
         \<and> timeline_of_project pid d5 = timeline_of_project pid d"
    and update_project_timeline_frame:
      "update_project_timeline auth_uid fe ue d = Inr (d6, out6) \<Longrightarrow>
         d6 = d\<lparr>project_timeline := project_timeline d6\<rparr>
         \<and> timeline_of_project pid d6 = timeline_of_project pid d"
proof -
  have pl: "project_client_row_check auth_uid d x = None \<Longrightarrow> pc_project_id x \<noteq> pid" for x
    using no by (auto simp: project_client_row_check_def project_clients_policy_def split: if_splits)
  have pl': "project_clients_policy auth_uid d x \<Longrightarrow> pc_project_id x \<noteq> pid" for x
    using no by (auto simp: project_clients_policy_def)
  have pt: "task_row_check auth_uid d x = None \<Longrightarrow> tk_project_id x \<noteq> pid" for x
    using no by (auto simp: task_row_check_def tasks_policy_def split: if_splits)
  have pt': "tasks_policy auth_uid d x \<Longrightarrow> tk_project_id x \<noteq> pid" for x
    using no by (auto simp: tasks_policy_def)
  have pe: "timeline_row_check auth_uid d x = None \<Longrightarrow> tl_project_id x \<noteq> pid" for x
    using no by (auto simp: timeline_row_check_def project_timeline_policy_def split: if_splits)
  have pe': "project_timeline_policy auth_uid d x \<Longrightarrow> tl_project_id x \<noteq> pid" for x
    using no by (auto simp: project_timeline_policy_def)
  show "d1 = d\<lparr>project_clients := project_clients d1\<rparr>
         \<and> links_of_project pid d1 = links_of_project pid d"
    if a: "insert_project_clients auth_uid lrows d = Inr d1"
  proof -
    from a obtain tbl where
      i: "insert_rows (project_client_row_check auth_uid d) project_client_key_conflict
            (project_clients d) lrows = Inr tbl"
      and d1: "d1 = d\<lparr>project_clients := tbl\<rparr>"
      by (auto simp: insert_project_clients_def split: sum.splits if_splits)
    have "filter (\<lambda>l. pc_project_id l = pid) tbl = filter (\<lambda>l. pc_project_id l = pid) (project_clients d)"
      using pl by (intro insert_rows_frame[OF i]) auto
    then show ?thesis by (simp add: d1 links_of_project_def)
  qed
  show "d2 = d\<lparr>project_clients := project_clients d2\<rparr>
         \<and> links_of_project pid d2 = links_of_project pid d"
    if a: "update_project_clients auth_uid fl ul d = Inr (d2, out2)"
  proof -
    let ?target = "\<lambda>l. project_clients_policy auth_uid d l \<and> fl l"
    let ?new = "\<lambda>l. case project_client_row_check auth_uid d (ul l) of
                        Some e \<Rightarrow> Inl e | None \<Rightarrow> Inr (ul l)"
    from a obtain tbl where
      i: "update_rows ?target ?new project_client_key_conflict [] (project_clients d) = Inr tbl"
      and d2: "d2 = d\<lparr>project_clients := tbl\<rparr>"
      by (auto simp: update_project_clients_def Let_def split: sum.splits if_splits)
    have "filter (\<lambda>l. pc_project_id l = pid) tbl = filter (\<lambda>l. pc_project_id l = pid) (project_clients d)"
      using pl pl' by (intro update_rows_frame[OF i]) (auto split: option.splits)
    then show ?thesis by (simp add: d2 links_of_project_def)
  qed
  show "d3 = d\<lparr>tasks := tasks d3\<rparr> \<and> project_tasks (tasks d3) pid = project_tasks (tasks d) pid"
    if a: "insert_tasks auth_uid trows d = Inr d3"
  proof -
    from a obtain tbl where
      i: "insert_rows (task_row_check auth_uid d) task_key_conflict (tasks d) trows = Inr tbl"
      and d3: "d3 = d\<lparr>tasks := tbl\<rparr>"
      by (auto simp: insert_tasks_def split: sum.splits if_splits)
    have "filter (\<lambda>t. tk_project_id t = pid) tbl = filter (\<lambda>t. tk_project_id t = pid) (tasks d)"
      using pt by (intro insert_rows_frame[OF i]) auto
    then show ?thesis by (simp add: d3 project_tasks_def)
  qed
  show "d4 = d\<lparr>tasks := tasks d4\<rparr> \<and> project_tasks (tasks d4) pid = project_tasks (tasks d) pid"
    if a: "update_tasks auth_uid now ft ut d = Inr (d4, out4)"
  proof -
    let ?target = "\<lambda>t. tasks_policy auth_uid d t \<and> ft t"
    let ?new_row = "\<lambda>t. update_updated_at_column_tasks now (ut t)"
    let ?new = "\<lambda>t. case task_row_check auth_uid d (?new_row t) of
                        Some e \<Rightarrow> Inl e | None \<Rightarrow> Inr (?new_row t)"
    from a obtain tbl where
      i: "update_rows ?target ?new task_key_conflict [] (tasks d) = Inr tbl"
      and d4: "d4 = d\<lparr>tasks := tbl\<rparr>"
      by (auto simp: update_tasks_def Let_def split: sum.splits if_splits)
    have "filter (\<lambda>t. tk_project_id t = pid) tbl = filter (\<lambda>t. tk_project_id t = pid) (tasks d)"
      using pt pt' by (intro update_rows_frame[OF i]) (auto split: option.splits)
    then show ?thesis by (simp add: d4 project_tasks_def)
  qed
  show "d5 = d\<lparr>project_timeline := project_timeline d5\<rparr>
         \<and> timeline_of_project pid d5 = timeline_of_project pid d"
    if a: "insert_project_timeline auth_uid erows d = Inr d5"
  proof -
    from a obtain tbl where
      i: "insert_rows (timeline_row_check auth_uid d) timeline_key_conflict (project_timeline d)
            erows = Inr tbl"
      and d5: "d5 = d\<lparr>project_timeline := tbl\<rparr>"
      by (auto simp: insert_project_timeline_def split: sum.splits if_splits)
    have "filter (\<lambda>e. tl_project_id e = pid) tbl = filter (\<lambda>e. tl_project_id e = pid) (project_timeline d)"
      using pe by (intro insert_rows_frame[OF i]) auto
    then show ?thesis by (simp add: d5 timeline_of_project_def)
  qed
  show "d6 = d\<lparr>project_timeline := project_timeline d6\<rparr>
         \<and> timeline_of_project pid d6 = timeline_of_project pid d"
    if a: "update_project_timeline auth_uid fe ue d = Inr (d6, out6)"
  proof -
    let ?target = "\<lambda>e. project_timeline_policy auth_uid d e \<and> fe e"
    let ?new = "\<lambda>e. case timeline_row_check auth_uid d (ue e) of
                        Some err \<Rightarrow> Inl err | None \<Rightarrow> Inr (ue e)"
    from a obtain tbl where
      i: "update_rows ?target ?new timeline_key_conflict [] (project_timeline d) = Inr tbl"
      and d6: "d6 = d\<lparr>project_timeline := tbl\<rparr>"
      by (auto simp: update_project_timeline_def Let_def split: sum.splits if_splits)
    have "filter (\<lambda>e. tl_project_id e = pid) tbl = filter (\<lambda>e. tl_project_id e = pid) (project_timeline d)"
      using pe pe' by (intro update_rows_frame[OF i]) (auto split: option.splits)
    then show ?thesis by (simp add: d6 timeline_of_project_def)
  qed
qed

lemma only_one_table:
  "d' = d\<lparr>projects := ps\<rparr> \<Longrightarrow>
     clients d' = clients d \<and> project_clients d' = project_clients d \<and> tasks d' = tasks d
     \<and> project_timeline d' = project_timeline d"
  "d' = d\<lparr>clients := cs\<rparr> \<Longrightarrow>
     projects d' = projects d \<and> project_clients d' = project_clients d \<and> tasks d' = tasks d
     \<and> project_timeline d' = project_timeline d"
  "d' = d\<lparr>project_clients := ls\<rparr> \<Longrightarrow>
     projects d' = projects d \<and> clients d' = clients d \<and> tasks d' = tasks d
     \<and> project_timeline d' = project_timeline d"
  "d' = d\<lparr>tasks := ts\<rparr> \<Longrightarrow>
     projects d' = projects d \<and> clients d' = clients d \<and> project_clients d' = project_clients d
     \<and> project_timeline d' = project_timeline d"
  "d' = d\<lparr>project_timeline := es\<rparr> \<Longrightarrow>
     projects d' = projects d \<and> clients d' = clients d \<and> project_clients d' = project_clients d
     \<and> tasks d' = tasks d"
  by simp_all

lemma mem_of_filter_eq:
  assumes "filter (\<lambda>x. x = r) xs = filter (\<lambda>x. x = r) ys" "r \<in> set ys"
  shows "r \<in> set xs"
proof -
  from assms(2) have "r \<in> set (filter (\<lambda>x. x = r) ys)" by simp
  then have "r \<in> set (filter (\<lambda>x. x = r) xs)" by (simp only: assms(1))
  then show ?thesis by simp
qed

lemma deleteProject_cases:
  "deleteProject upstream user ident d = (False, d)
   \<or> (\<exists>uid. user = Some uid
         \<and> deleteProject upstream user ident d
             = (True, delete_projects (Some uid) (\<lambda>p. pj_id p = ident \<and> pj_user_id p = uid) d))"
  by (cases user; cases upstream) (simp_all add: deleteProject_def storage_call_def)

lemma delete_projects_intact:
  assumes r: "r \<in> set (projects d)"
    and f: "\<forall>p \<in> set (projects d). pj_id p = pj_id r \<longrightarrow> auth_uid \<noteq> Some (pj_user_id p)"
  shows "same_project_rows r d (delete_projects auth_uid flt d)"
    and "links_of_project (pj_id r) (delete_projects auth_uid flt d) = links_of_project (pj_id r) d"
proof -
  have nf: "\<not> projects_policy auth_uid r" using f r by (auto simp: projects_policy_def)
  show "same_project_rows r d (delete_projects auth_uid flt d)"
    unfolding same_project_rows_def delete_projects_def delete_projects_where_def
      cascade_projects_def project_tasks_def timeline_of_project_def
    using f nf r by (auto simp: projects_policy_def intro!: filter_cong)
  show "links_of_project (pj_id r) (delete_projects auth_uid flt d) = links_of_project (pj_id r) d"
    unfolding delete_projects_def delete_projects_where_def cascade_projects_def
      links_of_project_def
    using f by (auto simp: projects_policy_def intro!: filter_cong)
qed

lemma foreign_project_intact:
  assumes r: "r \<in> set (projects d)"
    and f: "\<forall>p \<in> set (projects d). pj_id p = pj_id r \<longrightarrow> auth_uid \<noteq> Some (pj_user_id p)"
  shows "same_project_rows r d (snd (run auth_uid now op d))"
    and "(\<forall>flt. op \<noteq> Delete_clients flt) \<Longrightarrow>
           links_of_project (pj_id r) (snd (run auth_uid now op d)) = links_of_project (pj_id r) d"
    and "links_of_project (pj_id r) (snd (run auth_uid now (Delete_clients fc) d))
           = filter (\<lambda>l. pc_client_id l \<notin> cl_id ` set (select_clients auth_uid fc d))
               (links_of_project (pj_id r) d)"
proof -
  let ?pid = "pj_id r"
  define P where "P d' \<longleftrightarrow> same_project_rows r d d'
                             \<and> links_of_project ?pid d' = links_of_project ?pid d" for d'
  note no = not_owned_hidden_id[OF f]
  from f r have nf: "auth_uid \<noteq> Some (pj_user_id r)" by blast
  have P0: "P d" using r by (simp add: P_def same_project_rows_def)
  have Pp: "P d'" if "d' = d\<lparr>projects := projects d'\<rparr>"
    "\<forall>r. auth_uid \<noteq> Some (pj_user_id r) \<longrightarrow>
                filter (\<lambda>p. p = r) (projects d') = filter (\<lambda>p. p = r) (projects d)" for d'
  proof -
    from that(2) nf have "filter (\<lambda>p. p = r) (projects d') = filter (\<lambda>p. p = r) (projects d)"
      by blast
    from mem_of_filter_eq[OF this r] only_one_table(1)[OF that(1)] show ?thesis
      by (simp add: P_def same_project_rows_def links_of_project_def timeline_of_project_def)
  qed
  have Pc: "P d'" if "d' = d\<lparr>clients := clients d'\<rparr>" for d'
    using only_one_table(2)[OF that] r
    by (simp add: P_def same_project_rows_def links_of_project_def timeline_of_project_def)
  have Pl: "P d'" if "d' = d\<lparr>project_clients := project_clients d'\<rparr>"
    "links_of_project ?pid d' = links_of_project ?pid d" for d'
    using only_one_table(3)[OF that(1)] that(2) r
    by (simp add: P_def same_project_rows_def timeline_of_project_def)
  have Pt: "P d'" if "d' = d\<lparr>tasks := tasks d'\<rparr>"
    "project_tasks (tasks d') ?pid = project_tasks (tasks d) ?pid" for d'
    using only_one_table(4)[OF that(1)] that(2) r
    by (simp add: P_def same_project_rows_def links_of_project_def timeline_of_project_def)
  have Pe: "P d'" if "d' = d\<lparr>project_timeline := project_timeline d'\<rparr>"
    "timeline_of_project ?pid d' = timeline_of_project ?pid d" for d'
    using only_one_table(5)[OF that(1)] that(2) r
    by (simp add: P_def same_project_rows_def links_of_project_def)
  have Pdel: "P (delete_projects auth_uid flt d)" for flt
    using delete_projects_intact[OF r f] by (simp add: P_def)
  have pl: "project_clients_policy auth_uid d x \<Longrightarrow> pc_project_id x \<noteq> ?pid" for x
    using no by (auto simp: project_clients_policy_def)
  have pt: "tasks_policy auth_uid d x \<Longrightarrow> tk_project_id x \<noteq> ?pid" for x
    using no by (auto simp: tasks_policy_def)
  have pe: "project_timeline_policy auth_uid d x \<Longrightarrow> tl_project_id x \<noteq> ?pid" for x
    using no by (auto simp: project_timeline_policy_def)
  have main: "P (snd (run auth_uid now op d))" if nd: "\<forall>flt. op \<noteq> Delete_clients flt"
  proof (cases op)
    case (Insert_projects rows)
    show ?thesis unfolding Insert_projects run.simps
      by (rule snd_after_insert[where P = P]) (auto intro: Pp P0 dest: insert_projects_frame)
  next
    case (Update_projects flt upd)
    show ?thesis unfolding Update_projects run.simps
      by (rule snd_after_update[where P = P]) (auto intro: Pp P0 dest: update_projects_frame)
  next
    case (Delete_projects flt)
    then show ?thesis by (simp add: Pdel)
  next
    case (Insert_clients rows)
    show ?thesis unfolding Insert_clients run.simps
      by (rule snd_after_insert[where P = P]) (auto intro: Pc P0 dest: insert_clients_frame)
  next
    case (Update_clients flt upd)
    show ?thesis unfolding Update_clients run.simps
      by (rule snd_after_update[where P = P]) (auto intro: Pc P0 dest: update_clients_frame)
  next
    case (Delete_clients flt)
    with nd show ?thesis by simp
  next
    case (Insert_project_clients rows)
    show ?thesis unfolding Insert_project_clients run.simps
      by (rule snd_after_insert[where P = P])
        (auto intro: Pl P0 dest: insert_project_clients_frame[OF no])
  next
    case (Update_project_clients flt upd)
    show ?thesis unfolding Update_project_clients run.simps
      by (rule snd_after_update[where P = P])
        (auto intro: Pl P0 dest: update_project_clients_frame[OF no])
  next
    case (Delete_project_clients flt)
    have "links_of_project ?pid (delete_project_clients auth_uid flt d) = links_of_project ?pid d"
      unfolding delete_project_clients_def links_of_project_def
      using pl by (auto intro!: filter_cong)
    then show ?thesis
      unfolding Delete_project_clients run.simps snd_conv
      by (intro Pl) (simp_all add: delete_project_clients_def)
  next
    case (Insert_tasks rows)
    show ?thesis unfolding Insert_tasks run.simps
      by (rule snd_after_insert[where P = P]) (auto intro: Pt P0 dest: insert_tasks_frame[OF no])
  next
    case (Update_tasks flt upd)
    show ?thesis unfolding Update_tasks run.simps
      by (rule snd_after_update[where P = P]) (auto intro: Pt P0 dest: update_tasks_frame[OF no])
  next
    case (Delete_tasks flt)
    have "project_tasks (tasks (delete_tasks auth_uid flt d)) ?pid = project_tasks (tasks d) ?pid"
      unfolding delete_tasks_def project_tasks_def
      using pt by (auto intro!: filter_cong)
    then show ?thesis
      unfolding Delete_tasks run.simps snd_conv
      by (intro Pt) (simp_all add: delete_tasks_def)
  next
    case (Insert_project_timeline rows)
    show ?thesis unfolding Insert_project_timeline run.simps
      by (rule snd_after_insert[where P = P])
        (auto intro: Pe P0 dest: insert_project_timeline_frame[OF no])
  next
    case (Update_project_timeline flt upd)
    show ?thesis unfolding Update_project_timeline run.simps
      by (rule snd_after_update[where P = P])
        (auto intro: Pe P0 dest: update_project_timeline_frame[OF no])
  next
    case (Delete_project_timeline flt)
    have "timeline_of_project ?pid (delete_project_timeline auth_uid flt d)
          = timeline_of_project ?pid d"
      unfolding delete_project_timeline_def timeline_of_project_def
      using pe by (auto intro!: filter_cong)
    then show ?thesis
      unfolding Delete_project_timeline run.simps snd_conv
      by (intro Pe) (simp_all add: delete_project_timeline_def)
  next
    case (Create_project upstream proj gen js_now)
    from createProject_cases[of upstream auth_uid proj gen js_now now d]
    show ?thesis
    proof
      assume "createProject upstream auth_uid proj gen js_now now d = (None, d)"
      then show ?thesis by (simp add: Create_project P0)
    next
      assume "\<exists>uid row d'. auth_uid = Some uid
         \<and> createProject upstream auth_uid proj gen js_now now d = (Some row, d')
         \<and> insert_projects (Some uid) [row] d = Inr d'
         \<and> pj_progress row = or_default_null (pp_progress proj) (Some 0)"
      then obtain uid row d' where c: "auth_uid = Some uid"
        "createProject upstream auth_uid proj gen js_now now d = (Some row, d')"
        "insert_projects (Some uid) [row] d = Inr d'" by blast
      from insert_projects_frame[OF c(3)[folded c(1)]] have "P d'" by (auto intro: Pp)
      then show ?thesis by (simp add: Create_project c(2))
    qed
  next
    case (Update_project upstream ident updates js_now)
    from updateProject_cases[of upstream auth_uid ident updates js_now now d]
    show ?thesis
    proof
      assume "updateProject upstream auth_uid ident updates js_now now d = (None, d)"
      then show ?thesis by (simp add: Update_project P0)
    next
      assume "\<exists>r d'. updateProject upstream auth_uid ident updates js_now now d = (Some r, d')"
      then obtain r' d' where
        c: "updateProject upstream auth_uid ident updates js_now now d = (Some r', d')" by blast
      from updateProject_Some[OF c] obtain uid where u: "auth_uid = Some uid"
        "update_projects (Some uid) now (\<lambda>p. pj_id p = ident \<and> pj_user_id p = uid)
           (apply_project_updates (updates\<lparr>pp_updated_at := Some js_now\<rparr>)) d = Inr (d', [r'])"
        by blast
      from update_projects_frame[OF u(2)[folded u(1)]] have "P d'" by (auto intro: Pp)
      then show ?thesis by (simp add: Update_project c)
    qed
  next
    case (Delete_project upstream ident)
    from deleteProject_cases[of upstream auth_uid ident d]
    show ?thesis
    proof
      assume "deleteProject upstream auth_uid ident d = (False, d)"
      then show ?thesis by (simp add: Delete_project P0)
    next
      assume "\<exists>uid. auth_uid = Some uid
         \<and> deleteProject upstream auth_uid ident d
             = (True, delete_projects (Some uid) (\<lambda>p. pj_id p = ident \<and> pj_user_id p = uid) d)"
      then obtain uid where c: "auth_uid = Some uid"
        "deleteProject upstream auth_uid ident d
             = (True, delete_projects (Some uid) (\<lambda>p. pj_id p = ident \<and> pj_user_id p = uid) d)"
        by blast
      show ?thesis
        unfolding Delete_project run.simps c(2) using Pdel[unfolded c(1)] by simp
    qed
  qed (simp_all add: P0)
  have dc: "same_project_rows r d (delete_clients auth_uid fc d)"
    and dl: "links_of_project ?pid (delete_clients auth_uid fc d)
           = filter (\<lambda>l. pc_client_id l \<notin> cl_id ` set (select_clients auth_uid fc d))
               (links_of_project ?pid d)" for fc
    using r
    by (auto simp: same_project_rows_def delete_clients_def delete_clients_where_def
        cascade_clients_def links_of_project_def timeline_of_project_def select_clients_def
        intro!: filter_cong)
  show "same_project_rows r d (snd (run auth_uid now op d))"
  proof (cases "\<forall>flt. op \<noteq> Delete_clients flt")
    case True
    from main[OF this] show ?thesis by (simp add: P_def)
  next
    case False
    then obtain flt where "op = Delete_clients flt" by blast
    then show ?thesis by (simp add: dc)
  qed
  show "links_of_project ?pid (snd (run auth_uid now op d)) = links_of_project ?pid d"
    if "\<forall>flt. op \<noteq> Delete_clients flt"
    using main[OF that] by (simp add: P_def)
  show "links_of_project ?pid (snd (run auth_uid now (Delete_clients fc) d))
           = filter (\<lambda>l. pc_client_id l \<notin> cl_id ` set (select_clients auth_uid fc d))
               (links_of_project ?pid d)"
    by (simp add: dl)
qed

subsection \<open>A client of another owner\<close>

lemma hide_client_restrict:
  assumes "cid \<in> cl_id ` set (clients d)"
  shows "hide_client cid d = restrict_db (without_client cid) d"
proof -
  have "set (map cl_id (filter (\<lambda>c. cl_id c = cid) (clients d))) = {cid}"
    using assms by auto
  then show ?thesis
    by (simp add: hide_client_def delete_clients_where_def cascade_clients_def restrict_db_def
        without_client_def)
qed

lemma unseen_without_client:
  assumes f: "\<forall>c \<in> set (clients d). cl_id c = cid \<longrightarrow> auth_uid \<noteq> Some (cl_user_id c)"
    and h: "\<forall>l \<in> set (links_of_client cid d). \<not> owns_project auth_uid d (pc_project_id l)"
  shows "unseen auth_uid (without_client cid) d"
  using f h by (auto simp: unseen_def without_client_def links_of_client_def clients_policy_def)

lemma run_without_client:
  assumes f: "\<forall>c \<in> set (clients d). cl_id c = cid \<longrightarrow> auth_uid \<noteq> Some (cl_user_id c)"
    and h: "\<forall>l \<in> set (links_of_client cid d). \<not> owns_project auth_uid d (pc_project_id l)"
    and a: "avoids_client auth_uid cid d op"
  shows "run auth_uid now op (restrict_db (without_client cid) d)
         = apsnd (restrict_db (without_client cid)) (run auth_uid now op d)"
proof -
  let ?k = "without_client cid"
  note u = unseen_without_client[OF f h]
  have kp [simp]: "keep_project ?k x" for x by (simp add: without_client_def)
  have kc [simp]: "keep_client ?k x \<longleftrightarrow> cl_id x \<noteq> cid" for x by (simp add: without_client_def)
  have kl [simp]: "keep_link ?k x \<longleftrightarrow> pc_client_id x \<noteq> cid" for x by (simp add: without_client_def)
  have kt [simp]: "keep_task ?k x" for x by (simp add: without_client_def)
  have ke [simp]: "keep_milestone ?k x" for x by (simp add: without_client_def)
  have own: "cl_id c \<noteq> cid" if "c \<in> set (clients d)" "clients_policy auth_uid c" for c
    using f that by (auto simp: clients_policy_def)
  have fkc: "i \<noteq> cid \<Longrightarrow> i \<in> cl_id ` set (clients d) \<Longrightarrow>
               i \<in> cl_id ` set (filter (keep_client ?k) (clients d))" for i
    by auto
  show ?thesis
  proof (cases op)
    case (Select_projects flt)
    then show ?thesis by (simp add: select_restrict[OF u])
  next
    case (Select_clients flt)
    then show ?thesis by (simp add: select_restrict[OF u])
  next
    case (Select_project_clients flt)
    then show ?thesis by (simp add: select_restrict[OF u])
  next
    case (Select_tasks flt)
    then show ?thesis by (simp add: select_restrict[OF u])
  next
    case (Select_project_timeline flt)
    then show ?thesis by (simp add: select_restrict[OF u])
  next
    case (Insert_projects rows)
    have "insert_projects auth_uid rows (restrict_db ?k d)
          = map_sum (\<lambda>e. e) (restrict_db ?k) (insert_projects auth_uid rows d)"
      by (intro insert_projects_restrict) auto
    then show ?thesis by (simp add: Insert_projects after_insert_restrict)
  next
    case (Update_projects flt upd)
    have "update_projects auth_uid now flt upd (restrict_db ?k d)
          = map_sum (\<lambda>e. e) (\<lambda>(d', out). (restrict_db ?k d', out))
              (update_projects auth_uid now flt upd d)"
      by (intro update_projects_restrict[OF u]) auto
    then show ?thesis by (simp add: Update_projects after_update_restrict)
  next
    case (Delete_projects flt)
    then show ?thesis by (simp add: delete_projects_restrict[OF u])
  next
    case (Insert_clients rows)
    have "insert_clients auth_uid rows (restrict_db ?k d)
          = map_sum (\<lambda>e. e) (restrict_db ?k) (insert_clients auth_uid rows d)"
      using a unfolding Insert_clients by (intro insert_clients_restrict) auto
    then show ?thesis by (simp add: Insert_clients after_insert_restrict)
  next
    case (Update_clients flt upd)
    have F: "\<forall>c \<in> set (clients d). clients_policy auth_uid c \<and> flt c \<longrightarrow>
              (\<forall>l \<in> set (project_clients d). \<not> keep_link ?k l \<and> pc_client_id l = cl_id c \<longrightarrow>
                 cl_id (upd c) = cl_id c)"
    proof (intro ballI impI)
      fix c l assume c: "c \<in> set (clients d)" "clients_policy auth_uid c \<and> flt c"
        and l: "l \<in> set (project_clients d)" "\<not> keep_link ?k l \<and> pc_client_id l = cl_id c"
      from own[of c] c have "cl_id c \<noteq> cid" by simp
      with l(2) show "cl_id (upd c) = cl_id c" by simp
    qed
    have "update_clients auth_uid now flt upd (restrict_db ?k d)
          = map_sum (\<lambda>e. e) (\<lambda>(d', out). (restrict_db ?k d', out))
              (update_clients auth_uid now flt upd d)"
      using a unfolding Update_clients
      by (intro update_clients_restrict[OF u] F) (auto simp: update_updated_at_column_clients_def)
    then show ?thesis by (simp add: Update_clients after_update_restrict)
  next
    case (Delete_clients flt)
    then show ?thesis by (simp add: delete_clients_restrict[OF u])
  next
    case (Insert_project_clients rows)
    have N: "\<forall>x \<in> set rows. project_clients_policy auth_uid d x \<longrightarrow>
              (\<forall>y \<in> set (project_clients d). \<not> keep_link ?k y \<longrightarrow>
                 \<not> (pc_id x = pc_id y
                    \<or> (pc_project_id x = pc_project_id y \<and> pc_client_id x = pc_client_id y)))"
    proof (intro ballI impI)
      fix x y assume x: "x \<in> set rows" "project_clients_policy auth_uid d x"
        and y: "y \<in> set (project_clients d)" "\<not> keep_link ?k y"
      from y have yl: "y \<in> set (links_of_client cid d)" by (simp add: links_of_client_def)
      from a x(1) have ax: "pc_client_id x \<noteq> cid" "pc_id x \<notin> pc_id ` set (links_of_client cid d)"
        unfolding Insert_project_clients by simp_all
      from ax(2) yl have "pc_id x \<noteq> pc_id y" by auto
      moreover from ax(1) y(2) have "pc_client_id x \<noteq> pc_client_id y" by simp
      ultimately show "\<not> (pc_id x = pc_id y
                    \<or> (pc_project_id x = pc_project_id y \<and> pc_client_id x = pc_client_id y))"
        by simp
    qed
    have "insert_project_clients auth_uid rows (restrict_db ?k d)
          = map_sum (\<lambda>e. e) (restrict_db ?k) (insert_project_clients auth_uid rows d)"
      using a fkc unfolding Insert_project_clients
      by (intro insert_project_clients_restrict[OF u] N) auto
    then show ?thesis by (simp add: Insert_project_clients after_insert_restrict)
  next
    case (Update_project_clients flt upd)
    have N: "\<forall>l \<in> set (project_clients d).
              project_clients_policy auth_uid d l \<and> flt l
              \<and> project_clients_policy auth_uid d (upd l) \<longrightarrow>
                keep_link ?k (upd l)
                \<and> (\<forall>y \<in> set (project_clients d). \<not> keep_link ?k y \<longrightarrow>
                      \<not> (pc_id (upd l) = pc_id y
                         \<or> (pc_project_id (upd l) = pc_project_id y
                            \<and> pc_client_id (upd l) = pc_client_id y)))"
    proof (intro ballI impI conjI)
      fix l assume l: "l \<in> set (project_clients d)"
        "project_clients_policy auth_uid d l \<and> flt l \<and> project_clients_policy auth_uid d (upd l)"
      from a l have al: "pc_client_id (upd l) \<noteq> cid"
        "pc_id (upd l) \<notin> pc_id ` set (links_of_client cid d)"
        unfolding Update_project_clients by simp_all
      from al(1) show "keep_link ?k (upd l)" by simp
      fix y assume y: "y \<in> set (project_clients d)" "\<not> keep_link ?k y"
      from y have yl: "y \<in> set (links_of_client cid d)" by (simp add: links_of_client_def)
      from al(2) yl have "pc_id (upd l) \<noteq> pc_id y" by auto
      moreover from al(1) y(2) have "pc_client_id (upd l) \<noteq> pc_client_id y" by simp
      ultimately show "\<not> (pc_id (upd l) = pc_id y
                         \<or> (pc_project_id (upd l) = pc_project_id y
                            \<and> pc_client_id (upd l) = pc_client_id y))"
        by simp
    qed
    have FK: "\<forall>l \<in> set (project_clients d). project_clients_policy auth_uid d l \<and> flt l \<longrightarrow>
               pc_client_id (upd l) \<in> cl_id ` set (clients d) \<longrightarrow>
               pc_client_id (upd l) \<in> cl_id ` set (filter (keep_client ?k) (clients d))"
      using a fkc unfolding Update_project_clients by simp
    have "update_project_clients auth_uid flt upd (restrict_db ?k d)
          = map_sum (\<lambda>e. e) (\<lambda>(d', out). (restrict_db ?k d', out))
              (update_project_clients auth_uid flt upd d)"
      by (rule update_project_clients_restrict[OF u N FK])
    then show ?thesis by (simp add: Update_project_clients after_update_restrict)
  next
    case (Delete_project_clients flt)
    then show ?thesis by (simp add: delete_project_clients_restrict[OF u])
  next
    case (Insert_tasks rows)
    have "insert_tasks auth_uid rows (restrict_db ?k d)
          = map_sum (\<lambda>e. e) (restrict_db ?k) (insert_tasks auth_uid rows d)"
      by (intro insert_tasks_restrict[OF u]) auto
    then show ?thesis by (simp add: Insert_tasks after_insert_restrict)
  next
    case (Update_tasks flt upd)
    have "update_tasks auth_uid now flt upd (restrict_db ?k d)
          = map_sum (\<lambda>e. e) (\<lambda>(d', out). (restrict_db ?k d', out))
              (update_tasks auth_uid now flt upd d)"
      by (intro update_tasks_restrict[OF u]) auto
    then show ?thesis by (simp add: Update_tasks after_update_restrict)
  next
    case (Delete_tasks flt)
    then show ?thesis by (simp add: delete_tasks_restrict[OF u])
  next
    case (Insert_project_timeline rows)
    have "insert_project_timeline auth_uid rows (restrict_db ?k d)
          = map_sum (\<lambda>e. e) (restrict_db ?k) (insert_project_timeline auth_uid rows d)"
      by (intro insert_project_timeline_restrict[OF u]) auto
    then show ?thesis by (simp add: Insert_project_timeline after_insert_restrict)
  next
    case (Update_project_timeline flt upd)
    have "update_project_timeline auth_uid flt upd (restrict_db ?k d)
          = map_sum (\<lambda>e. e) (\<lambda>(d', out). (restrict_db ?k d', out))
              (update_project_timeline auth_uid flt upd d)"
      by (intro update_project_timeline_restrict[OF u]) auto
    then show ?thesis by (simp add: Update_project_timeline after_update_restrict)
  next
    case (Delete_project_timeline flt)
    then show ?thesis by (simp add: delete_project_timeline_restrict[OF u])
  next
    case (Get_project upstream ident)
    then show ?thesis by (simp add: getProject_restrict[OF u])
  next
    case (Create_project upstream proj gen js_now)
    have "createProject upstream auth_uid proj gen js_now now (restrict_db ?k d)
          = apsnd (restrict_db ?k) (createProject upstream auth_uid proj gen js_now now d)"
      by (intro createProject_restrict) auto
    then show ?thesis
      by (cases "createProject upstream auth_uid proj gen js_now now d") (simp add: Create_project)
  next
    case (Update_project upstream ident updates js_now)
    have "updateProject upstream auth_uid ident updates js_now now (restrict_db ?k d)
          = apsnd (restrict_db ?k) (updateProject upstream auth_uid ident updates js_now now d)"
      by (intro updateProject_restrict[OF u]) auto
    then show ?thesis
      by (cases "updateProject upstream auth_uid ident updates js_now now d")
        (simp add: Update_project)
  next
    case (Delete_project upstream ident)
    have "deleteProject upstream auth_uid ident (restrict_db ?k d)
          = apsnd (restrict_db ?k) (deleteProject upstream auth_uid ident d)"
      by (rule deleteProject_restrict[OF u])
    then show ?thesis
      by (cases "deleteProject upstream auth_uid ident d") (simp add: Delete_project)
  qed
qed

lemma foreign_client_intact:
  assumes c: "c \<in> set (clients d)" and nf: "auth_uid \<noteq> Some (cl_user_id c)"
  shows "c \<in> set (clients (snd (run auth_uid now op d)))"
proof -
  define P where "P d' \<longleftrightarrow> c \<in> set (clients d')" for d' :: database
  have P0: "P d" using c by (simp add: P_def)
  have Pc: "P d'" if "\<forall>c. auth_uid \<noteq> Some (cl_user_id c) \<longrightarrow>
                filter (\<lambda>x. x = c) (clients d') = filter (\<lambda>x. x = c) (clients d)" for d'
  proof -
    from that nf have "filter (\<lambda>x. x = c) (clients d') = filter (\<lambda>x. x = c) (clients d)" by blast
    from mem_of_filter_eq[OF this c] show ?thesis by (simp add: P_def)
  qed
  have Ps: "P d'" if "clients d' = clients d" for d'
    using that c by (simp add: P_def)
  have Pdel: "P (delete_projects a flt d)" for a flt
    by (intro Ps) (simp add: delete_projects_def delete_projects_where_def cascade_projects_def)
  have "P (snd (run auth_uid now op d))"
  proof (cases op)
    case (Insert_projects rows)
    show ?thesis unfolding Insert_projects run.simps
      by (rule snd_after_insert[where P = P])
        (auto intro: Ps P0 dest!: insert_projects_frame only_one_table(1))
  next
    case (Update_projects flt upd)
    show ?thesis unfolding Update_projects run.simps
      by (rule snd_after_update[where P = P])
        (auto intro: Ps P0 dest!: update_projects_frame only_one_table(1))
  next
    case (Delete_projects flt)
    then show ?thesis by (simp add: Pdel)
  next
    case (Insert_clients rows)
    show ?thesis unfolding Insert_clients run.simps
      by (rule snd_after_insert[where P = P]) (auto intro: Pc P0 dest: insert_clients_frame)
  next
    case (Update_clients flt upd)
    show ?thesis unfolding Update_clients run.simps
      by (rule snd_after_update[where P = P]) (auto intro: Pc P0 dest: update_clients_frame)
  next
    case (Delete_clients flt)
    show ?thesis
      unfolding Delete_clients run.simps snd_conv P_def
      using c nf
      by (simp add: delete_clients_def delete_clients_where_def cascade_clients_def
          clients_policy_def)
  next
    case (Insert_project_clients rows)
    show ?thesis unfolding Insert_project_clients run.simps
      by (rule snd_after_insert[where P = P])
        (auto intro: Ps P0 simp: insert_project_clients_def split: sum.splits if_splits)
  next
    case (Update_project_clients flt upd)
    show ?thesis unfolding Update_project_clients run.simps
      by (rule snd_after_update[where P = P])
        (auto intro: Ps P0 simp: update_project_clients_def Let_def split: sum.splits if_splits)
  next
    case (Delete_project_clients flt)
    then show ?thesis by (simp add: P_def delete_project_clients_def c)
  next
    case (Insert_tasks rows)
    show ?thesis unfolding Insert_tasks run.simps
      by (rule snd_after_insert[where P = P])
        (auto intro: Ps P0 simp: insert_tasks_def split: sum.splits)
  next
    case (Update_tasks flt upd)
    show ?thesis unfolding Update_tasks run.simps
      by (rule snd_after_update[where P = P])
        (auto intro: Ps P0 simp: update_tasks_def Let_def split: sum.splits)
  next
    case (Delete_tasks flt)
    then show ?thesis by (simp add: P_def delete_tasks_def c)
  next
    case (Insert_project_timeline rows)
    show ?thesis unfolding Insert_project_timeline run.simps
      by (rule snd_after_insert[where P = P])
        (auto intro: Ps P0 simp: insert_project_timeline_def split: sum.splits)
  next
    case (Update_project_timeline flt upd)
    show ?thesis unfolding Update_project_timeline run.simps
      by (rule snd_after_update[where P = P])
        (auto intro: Ps P0 simp: update_project_timeline_def Let_def split: sum.splits)
  next
    case (Delete_project_timeline flt)
    then show ?thesis by (simp add: P_def delete_project_timeline_def c)
  next
    case (Create_project upstream proj gen js_now)
    from createProject_cases[of upstream auth_uid proj gen js_now now d]
    show ?thesis
    proof
      assume "createProject upstream auth_uid proj gen js_now now d = (None, d)"
      then show ?thesis by (simp add: Create_project P0)
    next
      assume "\<exists>uid row d'. auth_uid = Some uid
         \<and> createProject upstream auth_uid proj gen js_now now d = (Some row, d')
         \<and> insert_projects (Some uid) [row] d = Inr d'
         \<and> pj_progress row = or_default_null (pp_progress proj) (Some 0)"
      then obtain uid row d' where k: "auth_uid = Some uid"
        "createProject upstream auth_uid proj gen js_now now d = (Some row, d')"
        "insert_projects (Some uid) [row] d = Inr d'" by blast
      from insert_projects_frame[OF k(3)] have "d' = d\<lparr>projects := projects d'\<rparr>" by simp
      from only_one_table(1)[OF this] have "P d'" by (intro Ps) simp
      then show ?thesis by (simp add: Create_project k(2))
    qed
  next
    case (Update_project upstream ident updates js_now)
    from updateProject_cases[of upstream auth_uid ident updates js_now now d]
    show ?thesis
    proof
      assume "updateProject upstream auth_uid ident updates js_now now d = (None, d)"
      then show ?thesis by (simp add: Update_project P0)
    next
      assume "\<exists>r d'. updateProject upstream auth_uid ident updates js_now now d = (Some r, d')"
      then obtain r' d' where
        k: "updateProject upstream auth_uid ident updates js_now now d = (Some r', d')" by blast
      from updateProject_Some[OF k] obtain uid where
        "update_projects (Some uid) now (\<lambda>p. pj_id p = ident \<and> pj_user_id p = uid)
           (apply_project_updates (updates\<lparr>pp_updated_at := Some js_now\<rparr>)) d = Inr (d', [r'])"
        by blast
      from update_projects_frame[OF this] have "d' = d\<lparr>projects := projects d'\<rparr>" by simp
      from only_one_table(1)[OF this] have "P d'" by (intro Ps) simp
      then show ?thesis by (simp add: Update_project k)
    qed
  next
    case (Delete_project upstream ident)
    from deleteProject_cases[of upstream auth_uid ident d]
    show ?thesis
    proof
      assume "deleteProject upstream auth_uid ident d = (False, d)"
      then show ?thesis by (simp add: Delete_project P0)
    next
      assume "\<exists>uid. auth_uid = Some uid
         \<and> deleteProject upstream auth_uid ident d
             = (True, delete_projects (Some uid) (\<lambda>p. pj_id p = ident \<and> pj_user_id p = uid) d)"
      then obtain uid where k:
        "deleteProject upstream auth_uid ident d
             = (True, delete_projects (Some uid) (\<lambda>p. pj_id p = ident \<and> pj_user_id p = uid) d)"
        by blast
      show ?thesis unfolding Delete_project run.simps k using Pdel by simp
    qed
  qed (simp_all add: P0)
  then show ?thesis by (simp add: P_def)
qed

subsection \<open>The comparison with the store without the record\<close>

lemma distinct_key_unique:
  assumes "distinct (map key xs)" "x \<in> set xs" "y \<in> set xs" "key x = key y"
  shows "x = y"
proof -
  have "inj_on key (set xs)" using assms(1) by (simp add: distinct_map)
  then show ?thesis using assms(2-4) by (simp add: inj_on_def)
qed

lemma getProject_foreign:
  assumes "\<forall>p \<in> set (projects d). pj_id p = pid \<longrightarrow> user \<noteq> Some (pj_user_id p)"
  shows "getProject upstream user pid d = None"
proof (cases user)
  case None
  then show ?thesis by (simp add: getProject_def)
next
  case (Some uid)
  have "select_projects (Some uid) (\<lambda>p. pj_id p = pid \<and> pj_user_id p = uid) d = []"
    using assms unfolding Some select_projects_def by (auto simp: filter_empty_conv)
  then show ?thesis
    unfolding getProject_def Some by (cases upstream) (simp_all add: storage_call_def)
qed

text \<open>
  Claim C1, as amended. Let a project (or a client) belong to someone other than the caller,
  and compare the store with the store without that record and the rows that depend on it.
  Every operation of the caller on the five tables (\<^verbatim>\<open>SELECT\<close>, \<^verbatim>\<open>INSERT\<close>, \<^verbatim>\<open>UPDATE\<close>,
  \<^verbatim>\<open>DELETE\<close>) and every call of \<^verbatim>\<open>getProject\<close>, \<^verbatim>\<open>createProject\<close>, \<^verbatim>\<open>updateProject\<close> and
  \<^verbatim>\<open>deleteProject\<close> returns the same result and has the same effect in both, provided it writes
  the id of the record or of one of its dependent rows into no primary key, the id of the
  client into no \<^verbatim>\<open>client_id\<close>, and changes the id of no client the project is linked to; for
  a client this is so when no project of the caller is linked to it. \<^verbatim>\<open>getProject\<close> with the
  id of the project finds nothing. No operation changes or removes the record, nor, for a
  project, its tasks and timeline entries; the links of the project stay as well, except
  that deleting a client of the caller's removes the links to that client.
\<close>

theorem foreign_records_hidden:
  "(distinct (map pj_id (projects d)) \<and> r \<in> set (projects d) \<and> auth_uid \<noteq> Some (pj_user_id r) \<longrightarrow>
      (avoids_project auth_uid (pj_id r) d op \<longrightarrow>
         run auth_uid now op (hide_project (pj_id r) d)
         = apsnd (hide_project (pj_id r)) (run auth_uid now op d))
    \<and> getProject upstream auth_uid (pj_id r) d = None
    \<and> same_project_rows r d (snd (run auth_uid now op d))
    \<and> ((\<forall>flt. op \<noteq> Delete_clients flt) \<longrightarrow>
         links_of_project (pj_id r) (snd (run auth_uid now op d)) = links_of_project (pj_id r) d)
    \<and> links_of_project (pj_id r) (snd (run auth_uid now (Delete_clients fc) d))
        = filter (\<lambda>l. pc_client_id l \<notin> cl_id ` set (select_clients auth_uid fc d))
            (links_of_project (pj_id r) d))
 \<and> (distinct (map cl_id (clients d)) \<and> c \<in> set (clients d) \<and> auth_uid \<noteq> Some (cl_user_id c) \<longrightarrow>
      c \<in> set (clients (snd (run auth_uid now op d)))
    \<and> ((\<forall>l \<in> set (links_of_client (cl_id c) d). \<not> owns_project auth_uid d (pc_project_id l))
        \<and> avoids_client auth_uid (cl_id c) d op \<longrightarrow>
         run auth_uid now op (hide_client (cl_id c) d)
         = apsnd (hide_client (cl_id c)) (run auth_uid now op d)))"
  (is "(?PA \<longrightarrow> ?PC) \<and> (?CA \<longrightarrow> ?CC)")
proof (rule conjI; rule impI)
  assume a: ?PA
  then have pk: "distinct (map pj_id (projects d))" and r: "r \<in> set (projects d)"
    and nf: "auth_uid \<noteq> Some (pj_user_id r)" by simp_all
  have f: "\<forall>p \<in> set (projects d). pj_id p = pj_id r \<longrightarrow> auth_uid \<noteq> Some (pj_user_id p)"
    using distinct_key_unique[OF pk _ r] nf by blast
  note i = foreign_project_intact[OF r f]
  have b1: "run auth_uid now op (hide_project (pj_id r) d)
            = apsnd (hide_project (pj_id r)) (run auth_uid now op d)"
    if av: "avoids_project auth_uid (pj_id r) d op"
  proof -
    obtain out d' where res: "run auth_uid now op d = (out, d')"
      by (cases "run auth_uid now op d")
    from i(1)[of now op] have "r \<in> set (projects d')"
      by (simp add: res same_project_rows_def)
    then have h': "hide_project (pj_id r) d' = restrict_db (without_project (pj_id r)) d'"
      by (intro hide_project_restrict) simp
    have h: "hide_project (pj_id r) d = restrict_db (without_project (pj_id r)) d"
      using r by (intro hide_project_restrict) simp
    show ?thesis
      unfolding h run_without_project[OF f av] res by (simp add: h')
  qed
  have b2: "getProject upstream auth_uid (pj_id r) d = None"
    by (rule getProject_foreign[OF f])
  show ?PC
    apply (rule conjI, rule impI, erule b1)
    apply (rule conjI, rule b2)
    apply (rule conjI, rule i(1))
    apply (rule conjI, rule impI, erule i(2))
    apply (rule i(3))
    done
next
  assume a: ?CA
  then have pk: "distinct (map cl_id (clients d))" and c: "c \<in> set (clients d)"
    and nf: "auth_uid \<noteq> Some (cl_user_id c)" by simp_all
  have f: "\<forall>x \<in> set (clients d). cl_id x = cl_id c \<longrightarrow> auth_uid \<noteq> Some (cl_user_id x)"
    using distinct_key_unique[OF pk _ c] nf by blast
  note i = foreign_client_intact[OF c nf]
  have b1: "run auth_uid now op (hide_client (cl_id c) d)
            = apsnd (hide_client (cl_id c)) (run auth_uid now op d)"
    if hv: "(\<forall>l \<in> set (links_of_client (cl_id c) d). \<not> owns_project auth_uid d (pc_project_id l))
            \<and> avoids_client auth_uid (cl_id c) d op"
  proof -
    from hv have h0: "\<forall>l \<in> set (links_of_client (cl_id c) d). \<not> owns_project auth_uid d (pc_project_id l)"
      and av: "avoids_client auth_uid (cl_id c) d op" by simp_all
    obtain out d' where res: "run auth_uid now op d = (out, d')"
      by (cases "run auth_uid now op d")
    from i[of now op] have "c \<in> set (clients d')" by (simp add: res)
    then have h': "hide_client (cl_id c) d' = restrict_db (without_client (cl_id c)) d'"
      by (intro hide_client_restrict) simp
    have h: "hide_client (cl_id c) d = restrict_db (without_client (cl_id c)) d"
      using c by (intro hide_client_restrict) simp
    show ?thesis
      unfolding h run_without_client[OF f h0 av] res by (simp add: h')
  qed
  show ?CC
    apply (rule conjI, rule i)
    apply (rule impI, erule b1)
    done
qed

theorem foreign_records_hidden_witness:
  "run (Some 1) 9 (Select_tasks (\<lambda>t. True)) (hide_project 20 example_db)
     = (Task_rows [example_task 1 10 (Some True)], hide_project 20 example_db)
   \<and> run (Some 1) 9 (Insert_tasks [example_task 3 10 None]) (hide_project 20 example_db)
     = (Done, hide_project 20 (example_db\<lparr>tasks := tasks example_db @ [example_task 3 10 None]\<rparr>))
   \<and> example_project 20 2
        \<in> set (projects (snd (run (Some 1) 9 (Delete_projects (\<lambda>p. True)) example_db)))
   \<and> run (Some 1) 9 (Select_clients (\<lambda>c. True)) (hide_client 200 example_db)
     = (Client_rows [example_client 100 1], hide_client 200 example_db)
   \<and> run (Some 1) 9 (Insert_clients [example_client 101 1]) (hide_client 200 example_db)
     = (Done, hide_client 200 (example_db\<lparr>clients := clients example_db @ [example_client 101 1]\<rparr>))"
proof -
  let ?r = "example_project 20 2"
  let ?c = "example_client 200 2"
  have pid: "pj_id ?r = 20" and cid: "cl_id ?c = 200"
    by (simp_all add: example_project_def example_client_def)
  have hp: "distinct (map pj_id (projects example_db)) \<and> ?r \<in> set (projects example_db)
            \<and> Some 1 \<noteq> Some (pj_user_id ?r)"
    by (simp add: example_defs)
  have hc: "distinct (map cl_id (clients example_db)) \<and> ?c \<in> set (clients example_db)
            \<and> Some 1 \<noteq> Some (cl_user_id ?c)"
    by (simp add: example_defs)
  have links: "\<forall>l \<in> set (links_of_client 200 example_db).
                 \<not> owns_project (Some 1) example_db (pc_project_id l)"
    by (simp add: links_of_client_def owns_project_def example_defs)
  have "run (Some 1) 9 (Select_tasks (\<lambda>t. True)) (hide_project 20 example_db)
        = apsnd (hide_project 20) (run (Some 1) 9 (Select_tasks (\<lambda>t. True)) example_db)"
    by (rule foreign_records_hidden[where d = example_db and r = ?r and auth_uid = "Some 1"
        and now = 9 and op = "Select_tasks (\<lambda>t. True)", THEN conjunct1, THEN mp, OF hp, unfolded pid, THEN conjunct1, THEN mp]) simp
  also have "run (Some 1) 9 (Select_tasks (\<lambda>t. True)) example_db
             = (Task_rows [example_task 1 10 (Some True)], example_db)"
    by (simp add: select_tasks_def tasks_policy_def owns_project_def example_defs)
  finally have w1: "run (Some 1) 9 (Select_tasks (\<lambda>t. True)) (hide_project 20 example_db)
     = (Task_rows [example_task 1 10 (Some True)], hide_project 20 example_db)"
    by simp
  have "run (Some 1) 9 (Insert_tasks [example_task 3 10 None]) (hide_project 20 example_db)
        = apsnd (hide_project 20) (run (Some 1) 9 (Insert_tasks [example_task 3 10 None]) example_db)"
    by (rule foreign_records_hidden[where d = example_db and r = ?r and auth_uid = "Some 1"
        and now = 9 and op = "Insert_tasks [example_task 3 10 None]", THEN conjunct1, THEN mp, OF hp, unfolded pid, THEN conjunct1, THEN mp])
      (simp add: project_tasks_def example_defs)
  also have "run (Some 1) 9 (Insert_tasks [example_task 3 10 None]) example_db
             = (Done, example_db\<lparr>tasks := tasks example_db @ [example_task 3 10 None]\<rparr>)"
    by (simp add: after_insert_def insert_tasks_def task_row_check_def tasks_policy_def
        owns_project_def priority_check_def task_key_conflict_def example_defs)
  finally have w2: "run (Some 1) 9 (Insert_tasks [example_task 3 10 None]) (hide_project 20 example_db)
     = (Done, hide_project 20 (example_db\<lparr>tasks := tasks example_db @ [example_task 3 10 None]\<rparr>))"
    by simp
  have w3: "?r \<in> set (projects (snd (run (Some 1) 9 (Delete_projects (\<lambda>p. True)) example_db)))"
    using foreign_records_hidden[where d = example_db and r = ?r and auth_uid = "Some 1"
        and now = 9 and op = "Delete_projects (\<lambda>p. True)", THEN conjunct1, THEN mp, OF hp, unfolded pid, THEN conjunct2, THEN conjunct2, THEN conjunct1]
    by (simp add: same_project_rows_def)
  have "run (Some 1) 9 (Select_clients (\<lambda>c. True)) (hide_client 200 example_db)
        = apsnd (hide_client 200) (run (Some 1) 9 (Select_clients (\<lambda>c. True)) example_db)"
    by (rule foreign_records_hidden[where d = example_db and c = ?c and auth_uid = "Some 1"
        and now = 9 and op = "Select_clients (\<lambda>c. True)", THEN conjunct2, THEN mp, OF hc, unfolded cid, THEN conjunct2, THEN mp])
      (rule conjI, rule links, simp)
  also have "run (Some 1) 9 (Select_clients (\<lambda>c. True)) example_db
             = (Client_rows [example_client 100 1], example_db)"
    by (simp add: select_clients_def clients_policy_def example_defs)
  finally have w4: "run (Some 1) 9 (Select_clients (\<lambda>c. True)) (hide_client 200 example_db)
     = (Client_rows [example_client 100 1], hide_client 200 example_db)"
    by simp
  have "run (Some 1) 9 (Insert_clients [example_client 101 1]) (hide_client 200 example_db)
        = apsnd (hide_client 200)
            (run (Some 1) 9 (Insert_clients [example_client 101 1]) example_db)"
    by (rule foreign_records_hidden[where d = example_db and c = ?c and auth_uid = "Some 1"
        and now = 9 and op = "Insert_clients [example_client 101 1]", THEN conjunct2, THEN mp, OF hc, unfolded cid, THEN conjunct2, THEN mp])
      (rule conjI, rule links, simp add: example_client_def)
  also have "run (Some 1) 9 (Insert_clients [example_client 101 1]) example_db
             = (Done, example_db\<lparr>clients := clients example_db @ [example_client 101 1]\<rparr>)"
    by (simp add: after_insert_def insert_clients_def client_row_check_def clients_policy_def
        client_key_conflict_def example_defs)
  finally have w5: "run (Some 1) 9 (Insert_clients [example_client 101 1]) (hide_client 200 example_db)
     = (Done, hide_client 200 (example_db\<lparr>clients := clients example_db @ [example_client 101 1]\<rparr>))"
    by simp
  show ?thesis by (intro conjI w1 w2 w3 w4 w5)
qed

text \<open>
  The claim as stated fails, for what the constraints let through. Identity 1 cannot see
  project 20, client 200 or task 2, which are identity 2's. Creating a project with the id 20
  fails where it would succeed if project 20 did not exist, and so does inserting a task with
  the id 2, a link with the id 1001 or a timeline entry with the id 2; linking the own
  project 10 to client 200 succeeds where it would fail if client 200 did not exist. Once
  client 100 of identity 1 is linked to project 20 only, identity 1 cannot change its id,
  and could if project 20 did not exist. Identity 2 reads its own link to client 100 of
  identity 1, which could not be there without that client. Identity 1, deleting its client
  100, removes the link of project 20 to it. And both views show identity 1 the rows of
  identity 2.
\<close>

theorem foreign_record_key_counterexample:
  "fst (run (Some 1) 9
          (Create_project None (no_updates\<lparr>pp_id := Some 20, pp_title := Some ''x''\<rparr>) 20 7)
          example_db)
     = Project_row None
   \<and> fst (run (Some 1) 9
            (Create_project None (no_updates\<lparr>pp_id := Some 20, pp_title := Some ''x''\<rparr>) 20 7)
            (hide_project 20 example_db))
     \<noteq> Project_row None
   \<and> fst (run (Some 1) 9 (Insert_tasks [example_task 2 10 None]) example_db)
     = Failed (ConstraintViolation Unique)
   \<and> fst (run (Some 1) 9 (Insert_tasks [example_task 2 10 None]) (hide_project 20 example_db))
     = Done
   \<and> fst (run (Some 1) 9 (Insert_project_clients [example_link 1001 10 200]) example_db)
     = Failed (ConstraintViolation Unique)
   \<and> fst (run (Some 1) 9 (Insert_project_clients [example_link 1001 10 200])
            (hide_project 20 example_db))
     = Done
   \<and> fst (run (Some 1) 9 (Insert_project_timeline [example_milestone 2 10]) example_db)
     = Failed (ConstraintViolation Unique)
   \<and> fst (run (Some 1) 9 (Insert_project_timeline [example_milestone 2 10])
            (hide_project 20 example_db))
     = Done
   \<and> fst (run (Some 1) 9 (Update_clients (\<lambda>c. cl_id c = 100) (\<lambda>c. c\<lparr>cl_id := 101\<rparr>))
            (example_db\<lparr>project_clients := [example_link 1001 20 100, example_link 1002 20 200]\<rparr>))
     = Failed (ConstraintViolation Foreign_key)
   \<and> fst (run (Some 1) 9 (Update_clients (\<lambda>c. cl_id c = 100) (\<lambda>c. c\<lparr>cl_id := 101\<rparr>))
            (hide_project 20
               (example_db\<lparr>project_clients := [example_link 1001 20 100, example_link 1002 20 200]\<rparr>)))
     = Client_rows [(example_client 100 1)\<lparr>cl_id := 101, cl_updated_at := Some 9\<rparr>]
   \<and> fst (run (Some 1) 9 (Insert_project_clients [example_link 1003 10 200]) example_db) = Done
   \<and> fst (run (Some 1) 9 (Insert_project_clients [example_link 1003 10 200])
            (hide_client 200 example_db))
     = Failed (ConstraintViolation Foreign_key)
   \<and> map pc_id (select_project_clients (Some 2) (\<lambda>l. True) example_db) = [1001, 1002]
   \<and> map pc_id (select_project_clients (Some 2) (\<lambda>l. True) (hide_client 100 example_db)) = [1002]
   \<and> map pc_id (links_of_project 20 example_db) = [1001, 1002]
   \<and> map pc_id (links_of_project 20 (snd (run (Some 1) 9 (Delete_clients (\<lambda>c. True)) example_db)))
     = [1002]
   \<and> map ps_user_id (select_project_stats (Some 1) (\<lambda>r. True) example_db) = [1, 2]
   \<and> map ps_user_id (select_project_stats (Some 1) (\<lambda>r. True) (hide_project 20 example_db)) = [1]
   \<and> map (\<lambda>r. pj_id (pw_project r))
       (select_projects_with_clients (Some 1) (\<lambda>r. True) example_db) = [10, 20]
   \<and> map (\<lambda>r. pj_id (pw_project r))
       (select_projects_with_clients (Some 1) (\<lambda>r. True) (hide_project 20 example_db)) = [10]"
proof -
  have hp: "hide_project 20 example_db
            = example_db\<lparr>projects := [example_project 10 1],
                         project_clients := [example_link 1000 10 100],
                         tasks := [example_task 1 10 (Some True)],
                         project_timeline := [example_milestone 1 10]\<rparr>"
    by (simp add: hide_project_def delete_projects_where_def cascade_projects_def example_defs)
  have hc2: "hide_client 200 example_db
            = example_db\<lparr>clients := [example_client 100 1],
                         project_clients := [example_link 1000 10 100, example_link 1001 20 100]\<rparr>"
    by (simp add: hide_client_def delete_clients_where_def cascade_clients_def example_defs)
  have hc1: "hide_client 100 example_db
            = example_db\<lparr>clients := [example_client 200 2],
                         project_clients := [example_link 1002 20 200]\<rparr>"
    by (simp add: hide_client_def delete_clients_where_def cascade_clients_def example_defs)
  have c1: "fst (run (Some 1) 9
          (Create_project None (no_updates\<lparr>pp_id := Some 20, pp_title := Some ''x''\<rparr>) 20 7)
          example_db)
     = Project_row None"
    by (simp add: createProject_def insert_project_partial_def insert_projects_def storage_call_def
        Let_def projects_policy_def project_row_check_def progress_check_def
        project_key_conflict_def no_updates_def or_default_def or_default_null_def example_defs)
  have c2: "fst (run (Some 1) 9
            (Create_project None (no_updates\<lparr>pp_id := Some 20, pp_title := Some ''x''\<rparr>) 20 7)
            (hide_project 20 example_db))
     \<noteq> Project_row None"
    unfolding hp
    by (simp add: createProject_def insert_project_partial_def insert_projects_def storage_call_def
        Let_def projects_policy_def project_row_check_def progress_check_def
        project_key_conflict_def no_updates_def or_default_def or_default_null_def example_defs)
  have c3: "fst (run (Some 1) 9 (Insert_tasks [example_task 2 10 None]) example_db)
     = Failed (ConstraintViolation Unique)"
    by (simp add: after_insert_def insert_tasks_def task_row_check_def tasks_policy_def
        owns_project_def priority_check_def task_key_conflict_def example_defs)
  have c4: "fst (run (Some 1) 9 (Insert_tasks [example_task 2 10 None]) (hide_project 20 example_db))
     = Done"
    unfolding hp
    by (simp add: after_insert_def insert_tasks_def task_row_check_def tasks_policy_def
        owns_project_def priority_check_def task_key_conflict_def example_defs)
  have hp': "hide_project 20
               (example_db\<lparr>project_clients := [example_link 1001 20 100, example_link 1002 20 200]\<rparr>)
            = example_db\<lparr>projects := [example_project 10 1],
                         project_clients := [],
                         tasks := [example_task 1 10 (Some True)],
                         project_timeline := [example_milestone 1 10]\<rparr>"
    by (simp add: hide_project_def delete_projects_where_def cascade_projects_def example_defs)
  have k1: "fst (run (Some 1) 9 (Insert_project_clients [example_link 1001 10 200]) example_db)
     = Failed (ConstraintViolation Unique)"
    by (simp add: after_insert_def insert_project_clients_def project_client_row_check_def
        project_clients_policy_def owns_project_def project_client_key_conflict_def example_defs)
  have k2: "fst (run (Some 1) 9 (Insert_project_clients [example_link 1001 10 200])
            (hide_project 20 example_db))
     = Done"
    unfolding hp
    by (simp add: after_insert_def insert_project_clients_def project_client_row_check_def
        project_clients_policy_def owns_project_def project_client_key_conflict_def example_defs)
  have k3: "fst (run (Some 1) 9 (Insert_project_timeline [example_milestone 2 10]) example_db)
     = Failed (ConstraintViolation Unique)"
    by (simp add: after_insert_def insert_project_timeline_def timeline_row_check_def
        project_timeline_policy_def owns_project_def timeline_key_conflict_def example_defs)
  have k4: "fst (run (Some 1) 9 (Insert_project_timeline [example_milestone 2 10])
            (hide_project 20 example_db))
     = Done"
    unfolding hp
    by (simp add: after_insert_def insert_project_timeline_def timeline_row_check_def
        project_timeline_policy_def owns_project_def timeline_key_conflict_def example_defs)
  have k5: "fst (run (Some 1) 9 (Update_clients (\<lambda>c. cl_id c = 100) (\<lambda>c. c\<lparr>cl_id := 101\<rparr>))
            (example_db\<lparr>project_clients := [example_link 1001 20 100, example_link 1002 20 200]\<rparr>))
     = Failed (ConstraintViolation Foreign_key)"
    by (simp add: after_update_def update_clients_def client_row_check_def
        clients_policy_def client_key_conflict_def update_updated_at_column_clients_def
        Let_def example_defs)
  have k6: "fst (run (Some 1) 9 (Update_clients (\<lambda>c. cl_id c = 100) (\<lambda>c. c\<lparr>cl_id := 101\<rparr>))
            (hide_project 20
               (example_db\<lparr>project_clients := [example_link 1001 20 100, example_link 1002 20 200]\<rparr>)))
     = Client_rows [(example_client 100 1)\<lparr>cl_id := 101, cl_updated_at := Some 9\<rparr>]"
    unfolding hp'
    by (simp add: after_update_def update_clients_def client_row_check_def
        clients_policy_def client_key_conflict_def update_updated_at_column_clients_def
        Let_def example_defs)
  have c5: "fst (run (Some 1) 9 (Insert_project_clients [example_link 1003 10 200]) example_db) = Done"
    by (simp add: after_insert_def insert_project_clients_def project_client_row_check_def
        project_clients_policy_def owns_project_def project_client_key_conflict_def example_defs)
  have c6: "fst (run (Some 1) 9 (Insert_project_clients [example_link 1003 10 200])
            (hide_client 200 example_db))
     = Failed (ConstraintViolation Foreign_key)"
    unfolding hc2
    by (simp add: after_insert_def insert_project_clients_def project_client_row_check_def
        project_clients_policy_def owns_project_def project_client_key_conflict_def example_defs)
  have c7: "map pc_id (select_project_clients (Some 2) (\<lambda>l. True) example_db) = [1001, 1002]"
    by (simp add: select_project_clients_def project_clients_policy_def owns_project_def
        example_defs)
  have c8: "map pc_id (select_project_clients (Some 2) (\<lambda>l. True) (hide_client 100 example_db)) = [1002]"
    unfolding hc1
    by (simp add: select_project_clients_def project_clients_policy_def owns_project_def
        example_defs)
  have c9: "map pc_id (links_of_project 20 example_db) = [1001, 1002]"
    by (simp add: links_of_project_def example_defs)
  have c10: "map pc_id (links_of_project 20 (snd (run (Some 1) 9 (Delete_clients (\<lambda>c. True)) example_db)))
     = [1002]"
    by (simp add: links_of_project_def delete_clients_def delete_clients_where_def
        cascade_clients_def clients_policy_def example_defs)
  have c11: "map ps_user_id (select_project_stats (Some 1) (\<lambda>r. True) example_db) = [1, 2]"
    by (simp add: select_project_stats_def project_stats_def project_stats_group_def example_defs)
  have c12: "map ps_user_id (select_project_stats (Some 1) (\<lambda>r. True) (hide_project 20 example_db)) = [1]"
    unfolding hp
    by (simp add: select_project_stats_def project_stats_def project_stats_group_def example_defs)
  have c13: "map (\<lambda>r. pj_id (pw_project r))
       (select_projects_with_clients (Some 1) (\<lambda>r. True) example_db) = [10, 20]"
    by (simp add: select_projects_with_clients_def projects_with_clients_def example_defs)
  have c14: "map (\<lambda>r. pj_id (pw_project r))
       (select_projects_with_clients (Some 1) (\<lambda>r. True) (hide_project 20 example_db)) = [10]"
    unfolding hp
    by (simp add: select_projects_with_clients_def projects_with_clients_def example_defs)
  show ?thesis by (intro conjI c1 c2 c3 c4 k1 k2 k3 k4 k5 k6 c5 c6 c7 c8 c9 c10 c11 c12 c13 c14)
qed

end
